(* ===== verification/Prelude.thy ===== *)
theory Prelude
  imports Main "HOL-Library.State_Monad" "HOL-Library.AList"
begin

text \<open>
  The vocabulary every theory of the development shares: the Go error values and how they wrap,
  effectful Go functions as values of the state monad, the weakest-precondition calculus the proofs
  use, Go maps as association lists, and the functions of Go's \<open>strings\<close> and \<open>strconv\<close> packages
  that the program calls.
\<close>

named_theorems wp_simps \<open>equations that push \<open>wp\<close> through a program\<close>
named_theorems wp_intros \<open>rules that replace a primitive operation by its specification\<close>
named_theorems gomap_simps \<open>lookups in Go maps after insertions, deletions and filters\<close>

named_theorems touches \<open>rules that bound the objects a program touches\<close>

section \<open>Errors\<close>

text \<open>
  A Go \<open>error\<close> is an API status (what the Kubernetes API machinery returns, classified by
  \<open>k8s.io/apimachinery/pkg/api/errors\<close>), a plain error made with \<open>fmt.Errorf\<close>, or an error
  wrapped with \<open>%w\<close>. A panic (a nil dereference, a slice out of range) unwinds the handler and is
  kept apart from the errors a handler returns.
\<close>

datatype status_reason = SNotFound | SAlreadyExists | SConflict | SOther

datatype go_error =
    ApiStatus status_reason string
  | Plain string
  | Wrapped string go_error
  | Panic string

type_synonym 'a result = "go_error + 'a"

text \<open>\<open>IsNotFound\<close> and \<open>IsAlreadyExists\<close> look through the wrapping, as \<open>errors.As\<close> does.\<close>

fun is_not_found :: "go_error \<Rightarrow> bool" where
  "is_not_found (ApiStatus r _) = (r = SNotFound)"
| "is_not_found (Wrapped _ e) = is_not_found e"
| "is_not_found _ = False"

fun is_already_exists :: "go_error \<Rightarrow> bool" where
  "is_already_exists (ApiStatus r _) = (r = SAlreadyExists)"
| "is_already_exists (Wrapped _ e) = is_already_exists e"
| "is_already_exists _ = False"

fun is_conflict :: "go_error \<Rightarrow> bool" where
  "is_conflict (ApiStatus r _) = (r = SConflict)"
| "is_conflict (Wrapped _ e) = is_conflict e"
| "is_conflict _ = False"

text \<open>The text \<open>%v\<close> prints for an error; \<open>fmt.Errorf("p: %w", e)\<close> prints as \<open>p: e\<close>.\<close>

fun error_text :: "go_error \<Rightarrow> string" where
  "error_text (ApiStatus _ m) = m"
| "error_text (Plain m) = m"
| "error_text (Wrapped p e) = p @ '': '' @ error_text e"
| "error_text (Panic m) = ''panic: '' @ m"

lemma not_found_not_already_exists: "is_not_found e \<Longrightarrow> \<not> is_already_exists e"
  by (induction e) auto

section \<open>Effectful functions\<close>

abbreviation ret :: "'a \<Rightarrow> ('w, 'a) state" where
  "ret \<equiv> State_Monad.return"

text \<open>\<open>bindE m f\<close> is \<open>x, err := m; if err != nil { return err }; f(x)\<close>.\<close>

definition bindE :: "('w, 'a result) state \<Rightarrow> ('a \<Rightarrow> ('w, 'b result) state) \<Rightarrow> ('w, 'b result) state" where
  "bindE m f = do { r \<leftarrow> m; (case r of Inl e \<Rightarrow> ret (Inl e) | Inr x \<Rightarrow> f x) }"

text \<open>\<open>wrapE p m\<close> wraps the error of \<open>m\<close> with \<open>fmt.Errorf("p: %w", err)\<close>.\<close>

definition wrap_result :: "string \<Rightarrow> 'a result \<Rightarrow> 'a result" where
  "wrap_result p r = (case r of Inl e \<Rightarrow> Inl (Wrapped p e) | Inr x \<Rightarrow> Inr x)"

definition wrapE :: "string \<Rightarrow> ('w, 'a result) state \<Rightarrow> ('w, 'a result) state" where
  "wrapE p m = do { r \<leftarrow> m; ret (wrap_result p r) }"

lemma wrap_result_simps [simp]:
  "wrap_result p (Inl e) = Inl (Wrapped p e)" "wrap_result p (Inr x) = Inr x"
  by (simp_all add: wrap_result_def)

lemma wrap_result_eq_Inr [simp]: "wrap_result p r = Inr x \<longleftrightarrow> r = Inr x"
  by (cases r) auto

subsection \<open>Weakest preconditions\<close>

definition wp :: "('w, 'a) state \<Rightarrow> ('a \<Rightarrow> 'w \<Rightarrow> bool) \<Rightarrow> 'w \<Rightarrow> bool" where
  "wp m Q w = (case run_state m w of (a, w') \<Rightarrow> Q a w')"

lemma wp_run: "wp m Q w \<Longrightarrow> run_state m w = (a, w') \<Longrightarrow> Q a w'"
  by (simp add: wp_def)

lemma wp_run_iff: "wp m Q w \<longleftrightarrow> (\<forall>a w'. run_state m w = (a, w') \<longrightarrow> Q a w')"
  by (auto simp: wp_def split: prod.splits)

lemma wpI: "(\<And>a w'. run_state m w = (a, w') \<Longrightarrow> Q a w') \<Longrightarrow> wp m Q w"
  by (auto simp: wp_run_iff)

lemma wp_ret [wp_simps]: "wp (ret a) Q = Q a"
  by (simp add: wp_def fun_eq_iff)

lemma wp_bind [wp_simps]: "wp (m \<bind> f) Q = wp m (\<lambda>a. wp (f a) Q)"
  by (simp add: wp_def fun_eq_iff split: prod.splits)

lemma wp_if [wp_simps]: "wp (if b then m else n) Q w = (if b then wp m Q w else wp n Q w)"
  by simp

lemma wp_sum [wp_simps]:
  "wp (case r of Inl e \<Rightarrow> f e | Inr x \<Rightarrow> g x) Q w = (case r of Inl e \<Rightarrow> wp (f e) Q w | Inr x \<Rightarrow> wp (g x) Q w)"
  by (cases r) auto

lemma wp_option [wp_simps]:
  "wp (case r of None \<Rightarrow> f | Some x \<Rightarrow> g x) Q w = (case r of None \<Rightarrow> wp f Q w | Some x \<Rightarrow> wp (g x) Q w)"
  by (cases r) auto

lemma wp_prod [wp_simps]:
  "wp (case p of (a, b) \<Rightarrow> f a b) Q w = (case p of (a, b) \<Rightarrow> wp (f a b) Q w)"
  by (cases p) auto

lemma wp_Let [wp_simps]: "wp (let x = a in f x) Q w = (let x = a in wp (f x) Q w)"
  by (simp add: Let_def)

lemma wp_bindE [wp_simps]:
  "wp (bindE m f) Q = wp m (\<lambda>r w. case r of Inl e \<Rightarrow> Q (Inl e) w | Inr x \<Rightarrow> wp (f x) Q w)"
  by (auto simp: bindE_def wp_def fun_eq_iff split: prod.splits sum.splits)

lemma wp_wrapE [wp_simps]: "wp (wrapE p m) Q = wp m (\<lambda>r. Q (wrap_result p r))"
  by (simp add: wrapE_def wp_simps)

lemma wp_mono: "wp m P w \<Longrightarrow> (\<And>a w'. P a w' \<Longrightarrow> Q a w') \<Longrightarrow> wp m Q w"
  by (auto simp: wp_run_iff)

lemma wp_conj: "wp m P w \<Longrightarrow> wp m Q w \<Longrightarrow> wp m (\<lambda>a w. P a w \<and> Q a w) w"
  by (auto simp: wp_run_iff)

text \<open>Sequencing: what the first part establishes is all the second part is given.\<close>

lemma wp_bindE_rule:
  assumes "wp m P w" "\<And>e w'. P (Inl e) w' \<Longrightarrow> Q (Inl e) w'" "\<And>x w'. P (Inr x) w' \<Longrightarrow> wp (f x) Q w'"
  shows "wp (bindE m f) Q w"
  unfolding wp_bindE by (rule wp_mono [OF assms(1)]) (auto intro: assms(2,3) split: sum.splits)

lemma wp_bind_rule:
  assumes "wp m P w" "\<And>a w'. P a w' \<Longrightarrow> wp (f a) Q w'"
  shows "wp (m \<bind> f) Q w"
  unfolding wp_bind by (rule wp_mono [OF assms(1)]) (rule assms(2))

lemma wp_True [simp]: "wp m (\<lambda>_ _. True) w"
  by (simp add: wp_run_iff)

text \<open>\<open>for _, x := range xs { body }\<close>, where the body only acts.\<close>

fun for_each :: "('a \<Rightarrow> ('w, unit) state) \<Rightarrow> 'a list \<Rightarrow> ('w, unit) state" where
  "for_each f [] = ret ()"
| "for_each f (x # xs) = do { _ \<leftarrow> f x; for_each f xs }"

lemma wp_for_each:
  assumes "I [] w"
    and "\<And>ys x zs w. xs = ys @ x # zs \<Longrightarrow> I ys w \<Longrightarrow> wp (f x) (\<lambda>_. I (ys @ [x])) w"
  shows "wp (for_each f xs) (\<lambda>_. I xs) w"
proof -
  have run: "xs = ys @ zs \<Longrightarrow> I ys v \<Longrightarrow> wp (for_each f zs) (\<lambda>_. I xs) v" for ys zs v
  proof (induction zs arbitrary: ys v)
    case Nil
    then show ?case by (simp add: wp_simps)
  next
    case (Cons z zs)
    have "wp (f z) (\<lambda>_. I (ys @ [z])) v" using assms(2) Cons.prems by blast
    then show ?case
      using Cons.IH [of "ys @ [z]"] Cons.prems(1) by (auto simp: wp_simps elim!: wp_mono)
  qed
  show ?thesis by (rule run [of "[]"]) (simp_all add: assms(1))
qed

lemma set_map_filter: "set (List.map_filter f xs) = {y. \<exists>x\<in>set xs. f x = Some y}"
  by (force simp: List.map_filter_def)

section \<open>Go maps\<close>

text \<open>
  A \<open>map[string]V\<close> is an association list; \<open>map_of\<close> reads it and \<open>AList.update\<close> stores into it.
  A nil map and an empty map are the same list, as reading from either gives the zero value.
\<close>

type_synonym 'v gomap = "(string \<times> 'v) list"

abbreviation put :: "string \<Rightarrow> 'v \<Rightarrow> 'v gomap \<Rightarrow> 'v gomap" where
  "put \<equiv> AList.update"

text \<open>\<open>m[k]\<close> for a \<open>map[string]string\<close>: the empty string when the key is absent.\<close>

definition mget :: "string gomap \<Rightarrow> string \<Rightarrow> string" where
  "mget m k = (case map_of m k of None \<Rightarrow> '''' | Some v \<Rightarrow> v)"

text \<open>Copying the entries whose key passes a test.\<close>

definition keep_keys :: "(string \<Rightarrow> bool) \<Rightarrow> 'v gomap \<Rightarrow> 'v gomap" where
  "keep_keys p m = filter (\<lambda>(k, _). p k) m"

text \<open>Storing every entry of one map into another.\<close>

definition put_all :: "'v gomap \<Rightarrow> 'v gomap \<Rightarrow> 'v gomap" where
  "put_all new m = fold (\<lambda>(k, v). put k v) new m"

lemma map_of_put [gomap_simps]: "map_of (put k v m) k' = (if k' = k then Some v else map_of m k')"
  by (simp add: update_conv')

lemma mget_put [gomap_simps]: "mget (put k v m) k' = (if k' = k then v else mget m k')"
  by (simp add: mget_def map_of_put)

lemma map_of_keep_keys [gomap_simps]: "map_of (keep_keys p m) k = (if p k then map_of m k else None)"
  by (induction m) (auto simp: keep_keys_def)

lemma mget_Nil [simp]: "mget [] k = ''''"
  by (simp add: mget_def)

lemma put_ne_Nil [simp]: "put k v m \<noteq> []"
  by (cases m) auto

lemma keys_put: "set (map fst (put k v m)) = insert k (set (map fst m))"
  by (induction m) auto

lemma map_of_put_all:
  "distinct (map fst new) \<Longrightarrow> map_of (put_all new m) k = (case map_of new k of None \<Rightarrow> map_of m k | Some v \<Rightarrow> Some v)"
proof (induction new arbitrary: m)
  case Nil
  then show ?case by (simp add: put_all_def)
next
  case (Cons p new)
  obtain a b where p: "p = (a, b)" by (cases p)
  have "map_of (put_all new (put a b m)) k =
      (case map_of new k of None \<Rightarrow> map_of (put a b m) k | Some v \<Rightarrow> Some v)"
    using Cons by (simp add: p)
  moreover have "map_of new a = None"
    using Cons.prems by (simp add: p map_of_eq_None_iff)
  ultimately show ?case by (auto simp: p put_all_def gomap_simps split: option.splits)
qed

section \<open>Strings and numbers\<close>

definition has_suffix :: "string \<Rightarrow> string \<Rightarrow> bool" where
  "has_suffix s t = (length t \<le> length s \<and> drop (length s - length t) s = t)"

definition has_prefix :: "string \<Rightarrow> string \<Rightarrow> bool" where
  "has_prefix s t = (take (length t) s = t)"

text \<open>\<open>strconv.ParseBool\<close>; \<open>None\<close> is its error.\<close>

definition parse_bool :: "string \<Rightarrow> bool option" where
  "parse_bool s =
     (if s \<in> set [''1'', ''t'', ''T'', ''TRUE'', ''true'', ''True''] then Some True
      else if s \<in> set [''0'', ''f'', ''F'', ''FALSE'', ''false'', ''False''] then Some False
      else None)"

definition format_bool :: "bool \<Rightarrow> string" where
  "format_bool b = (if b then ''true'' else ''false'')"

lemma parse_format_bool [simp]: "parse_bool (format_bool b) = Some b"
  by (simp add: parse_bool_def format_bool_def)

text \<open>
  \<open>strings.EqualFold(s, t)\<close> for an ASCII \<open>t\<close>. Unicode simple folding maps two characters outside
  ASCII to ASCII letters: U+017F (bytes C5 BF) to \<open>s\<close> and U+212A (bytes E2 84 AA) to \<open>k\<close>.
\<close>

definition ascii_lower :: "char \<Rightarrow> char" where
  "ascii_lower c = (if 65 \<le> (of_char c :: nat) \<and> (of_char c :: nat) \<le> 90 then char_of ((of_char c :: nat) + 32) else c)"

fun fold_text :: "string \<Rightarrow> string" where
  "fold_text (a # b # c # s) =
     (if a = char_of (0xC5::nat) \<and> b = char_of (0xBF::nat) then CHR ''s'' # fold_text (c # s)
      else if a = char_of (0xE2::nat) \<and> b = char_of (0x84::nat) \<and> c = char_of (0xAA::nat) then CHR ''k'' # fold_text s
      else ascii_lower a # fold_text (b # c # s))"
| "fold_text [a, b] =
     (if a = char_of (0xC5::nat) \<and> b = char_of (0xBF::nat) then [CHR ''s''] else [ascii_lower a, ascii_lower b])"
| "fold_text [a] = [ascii_lower a]"
| "fold_text [] = []"

definition equal_fold :: "string \<Rightarrow> string \<Rightarrow> bool" where
  "equal_fold s t = (fold_text s = fold_text t)"

lemma equal_fold_refl [simp]: "equal_fold s s"
  by (simp add: equal_fold_def)

text \<open>\<open>strconv.Itoa\<close>: decimal digits, most significant first, with a minus sign.\<close>

definition digit_char :: "int \<Rightarrow> char" where
  "digit_char d = char_of (48 + d)"

function show_digits :: "int \<Rightarrow> string" where
  "show_digits n = (if n < 10 then [digit_char n] else show_digits (n div 10) @ [digit_char (n mod 10)])"
  by pat_completeness auto
termination
  by (relation "measure nat") auto

declare show_digits.simps [simp del]

definition itoa :: "int \<Rightarrow> string" where
  "itoa i = (if i < 0 then ''-'' @ show_digits (- i) else show_digits i)"

lemma show_digits_ne [simp]: "show_digits n \<noteq> []"
  by (subst show_digits.simps) auto

lemma itoa_ne [simp]: "itoa i \<noteq> []"
  by (simp add: itoa_def)

end
