(* ===== verification/Kube_Types.thy ===== *)
theory Kube_Types
  imports Prelude "HOL-Library.Char_ord" "HOL-Library.List_Lexorder"
begin

text \<open>
  The data of the program: JSON documents, object metadata, the Kubernetes, Open Cluster Management
  and Argo CD objects the controllers read and write (one record per Go struct, with the fields the
  code touches), and the union of them that a generic client handles. The structs declared in this
  repository are those of \<open>api/v1alpha1/gitopscluster_types.go\<close>; the others mirror the API types
  the code fills in field by field.
\<close>

section \<open>JSON\<close>

datatype json =
    JNull
  | JBool bool
  | JNum int
  | JStr string
  | JArr "json list"
  | JObj "(string \<times> json) list"

type_synonym fields = "json gomap"

text \<open>The type assertions \<open>v.(map[string]interface{})\<close> and \<open>v.(string)\<close> on a looked-up value.\<close>

fun as_map :: "json option \<Rightarrow> fields option" where
  "as_map (Some (JObj m)) = Some m"
| "as_map _ = None"

fun as_string :: "json option \<Rightarrow> string option" where
  "as_string (Some (JStr s)) = Some s"
| "as_string _ = None"

lemma as_map_Some [simp]: "as_map v = Some m \<longleftrightarrow> v = Some (JObj m)"
  by (cases v rule: as_map.cases) auto

lemma as_string_Some [simp]: "as_string v = Some s \<longleftrightarrow> v = Some (JStr s)"
  by (cases v rule: as_string.cases) auto

text \<open>
  \<open>encoding/json\<close> writes the keys of a map in sorted order, so two maps with the same entries give
  the same bytes. A JSON document in a byte slice is represented by the document itself
  (\<open>RawDoc\<close>, with sorted keys when it was written by \<open>json.Marshal\<close>); \<open>RawBad\<close> is a byte slice
  that is not JSON and \<open>RawNil\<close> a nil slice.
\<close>

primrec json_canon :: "json \<Rightarrow> json" where
  "json_canon JNull = JNull"
| "json_canon (JBool b) = JBool b"
| "json_canon (JNum n) = JNum n"
| "json_canon (JStr s) = JStr s"
| "json_canon (JArr xs) = JArr (map json_canon xs)"
| "json_canon (JObj kvs) = JObj (sort_key fst (map (map_prod id json_canon) kvs))"

datatype raw = RawNil | RawBad string | RawDoc json

definition json_marshal :: "fields \<Rightarrow> raw" where
  "json_marshal obj = RawDoc (json_canon (JObj obj))"

text \<open>The lookup \<open>obj[k1][k2]...\<close> through nested maps.\<close>

fun get_nested :: "string list \<Rightarrow> json \<Rightarrow> json option" where
  "get_nested [] j = Some j"
| "get_nested (k # ks) (JObj m) = (case map_of m k of None \<Rightarrow> None | Some j \<Rightarrow> get_nested ks j)"
| "get_nested (k # ks) _ = None"

lemma get_nested_Cons_JObj: "get_nested (k # ks) (JObj m) = Option.bind (map_of m k) (get_nested ks)"
  by (simp split: option.splits)

lemma map_of_sort_key_fst: "distinct (map fst m) \<Longrightarrow> map_of (sort_key fst m) = map_of m"
  by (rule map_of_inject_set [THEN iffD2]) (simp_all add: distinct_map)

section \<open>Metadata\<close>

record owner_ref =
  or_api_version :: string
  or_kind :: string
  or_name :: string

record object_meta =
  m_name :: string
  m_namespace :: string
  m_uid :: string
  m_resource_version :: string
  m_generation :: int
  m_labels :: "string gomap"
  m_annotations :: "string gomap"
  m_finalizers :: "string list"
  m_owners :: "owner_ref list"
  m_deletion :: "string option"

definition new_meta :: "string \<Rightarrow> string \<Rightarrow> object_meta" where
  "new_meta name ns = \<lparr>m_name = name, m_namespace = ns, m_uid = '''', m_resource_version = '''',
     m_generation = 0, m_labels = [], m_annotations = [], m_finalizers = [], m_owners = [],
     m_deletion = None\<rparr>"

lemma new_meta_sel [simp]:
  "m_name (new_meta n s) = n" "m_namespace (new_meta n s) = s" "m_uid (new_meta n s) = ''''"
  "m_resource_version (new_meta n s) = ''''" "m_labels (new_meta n s) = []"
  "m_annotations (new_meta n s) = []" "m_finalizers (new_meta n s) = []"
  "m_owners (new_meta n s) = []" "m_deletion (new_meta n s) = None"
  by (simp_all add: new_meta_def)

section \<open>Objects\<close>

text \<open>
  An \<open>unstructured.Unstructured\<close>: its apiVersion, kind and metadata, and its other top-level fields
  (\<open>spec\<close>, \<open>operation\<close>, \<open>status\<close>, \<dots>). Argo CD Applications and ArgoCD custom resources are handled
  this way.
\<close>

record unstructured =
  u_api_version :: string
  u_kind :: string
  u_meta :: object_meta
  u_fields :: fields

record secret =
  sec_meta :: object_meta
  sec_type :: string
  sec_data :: "string gomap"
  sec_string_data :: "string gomap"

record config_map =
  cm_meta :: object_meta
  cm_data :: "string gomap"

record policy_rule =
  pr_api_groups :: "string list"
  pr_resources :: "string list"
  pr_verbs :: "string list"

record role =
  role_meta :: object_meta
  role_rules :: "policy_rule list"

record subject =
  sub_kind :: string
  sub_name :: string
  sub_namespace :: string

record role_ref =
  rr_kind :: string
  rr_name :: string
  rr_api_group :: string

record role_binding =
  rb_meta :: object_meta
  rb_subjects :: "subject list"
  rb_role_ref :: role_ref

text \<open>Port numbers are \<open>int32\<close> in the API; the code compares and prints them, so they are \<open>int\<close>.\<close>

record service_port =
  sp_name :: string
  sp_port :: int
  sp_node_port :: int

record lb_ingress =
  ing_hostname :: string
  ing_ip :: string

record service =
  svc_meta :: object_meta
  svc_type :: string
  svc_ports :: "service_port list"
  svc_ingress :: "lb_ingress list"

record node_address =
  na_type :: string
  na_address :: string

record node =
  node_meta :: object_meta
  node_addresses :: "node_address list"

record namespace =
  ns_meta :: object_meta

record deployment =
  dep_meta :: object_meta
  dep_template_annotations :: "string gomap"

subsection \<open>Open Cluster Management\<close>

record managed_cluster =
  mc_meta :: object_meta

record toleration =
  tol_key :: string
  tol_operator :: string
  tol_value :: string

record placement =
  pl_meta :: object_meta
  pl_tolerations :: "toleration list"

record placement_decision =
  pd_meta :: object_meta
  pd_clusters :: "string list"

text \<open>A manifest of a ManifestWork: an object the controller still holds, or raw JSON.\<close>

datatype manifest = MObject unstructured | MRaw raw | MStruct json

record feedback_value =
  fv_name :: string
  fv_string :: "string option"

record update_strategy =
  us_type :: string
  us_force :: bool
  us_ignore :: "(string \<times> string list) list"

record manifest_config =
  mcf_group :: string
  mcf_resource :: string
  mcf_namespace :: string
  mcf_name :: string
  mcf_feedback :: "(string \<times> (string \<times> string) list) list"
  mcf_update_strategy :: update_strategy

record work_spec =
  ws_manifests :: "manifest list"
  ws_configs :: "manifest_config list"

record manifest_work =
  mw_meta :: object_meta
  mw_spec :: work_spec
  mw_feedback :: "feedback_value list list"

record addon_config_ref =
  ac_group :: string
  ac_resource :: string
  ac_name :: string
  ac_namespace :: string

record managed_cluster_addon =
  mca_meta :: object_meta
  mca_configs :: "addon_config_ref list"

record addon_deployment_config =
  adc_meta :: object_meta
  adc_variables :: "(string \<times> string) list"

record custom_signer =
  cs_signer_name :: string
  cs_ca_name :: string
  cs_ca_namespace :: string

record addon_template =
  at_meta :: object_meta
  at_addon_name :: string
  at_manifests :: "manifest list"
  at_registration :: "custom_signer list"

subsection \<open>GitOpsCluster\<close>

datatype condition_status = CondTrue | CondFalse | CondUnknown

record condition =
  cond_type :: string
  cond_status :: condition_status
  cond_observed_generation :: int
  cond_transition_time :: string
  cond_reason :: string
  cond_message :: string

record argocd_agent_addon_spec =
  PrincipalServerAddress :: string
  PrincipalServerPort :: string
  Mode :: string
  OperatorNamespace :: string
  AgentNamespace :: string
  ArgoCDCRManifestWork :: "raw list option"

record gitops_cluster_spec =
  PlacementRefKind :: string
  PlacementRefName :: string
  ArgoCDAgentAddon :: argocd_agent_addon_spec

record gitops_cluster =
  gc_meta :: object_meta
  gc_spec :: gitops_cluster_spec
  gc_conditions :: "condition list"

section \<open>The union of object kinds\<close>

datatype kind =
    KUnstr string string
  | KSecret | KConfigMap | KRole | KRoleBinding | KService | KNode | KNamespace | KDeployment
  | KManagedCluster | KPlacement | KPlacementDecision | KManifestWork
  | KManagedClusterAddOn | KAddOnDeploymentConfig | KAddOnTemplate | KGitOpsCluster

datatype kobj =
    OUnstr unstructured
  | OSecret secret | OConfigMap config_map | ORole role | ORoleBinding role_binding
  | OService service | ONode node | ONamespace namespace | ODeployment deployment
  | OManagedCluster managed_cluster | OPlacement placement | OPlacementDecision placement_decision
  | OManifestWork manifest_work | OManagedClusterAddOn managed_cluster_addon
  | OAddOnDeploymentConfig addon_deployment_config | OAddOnTemplate addon_template
  | OGitOpsCluster gitops_cluster

fun kind_of :: "kobj \<Rightarrow> kind" where
  "kind_of (OUnstr u) = KUnstr (u_api_version u) (u_kind u)"
| "kind_of (OSecret _) = KSecret"
| "kind_of (OConfigMap _) = KConfigMap"
| "kind_of (ORole _) = KRole"
| "kind_of (ORoleBinding _) = KRoleBinding"
| "kind_of (OService _) = KService"
| "kind_of (ONode _) = KNode"
| "kind_of (ONamespace _) = KNamespace"
| "kind_of (ODeployment _) = KDeployment"
| "kind_of (OManagedCluster _) = KManagedCluster"
| "kind_of (OPlacement _) = KPlacement"
| "kind_of (OPlacementDecision _) = KPlacementDecision"
| "kind_of (OManifestWork _) = KManifestWork"
| "kind_of (OManagedClusterAddOn _) = KManagedClusterAddOn"
| "kind_of (OAddOnDeploymentConfig _) = KAddOnDeploymentConfig"
| "kind_of (OAddOnTemplate _) = KAddOnTemplate"
| "kind_of (OGitOpsCluster _) = KGitOpsCluster"

fun meta_of :: "kobj \<Rightarrow> object_meta" where
  "meta_of (OUnstr u) = u_meta u"
| "meta_of (OSecret s) = sec_meta s"
| "meta_of (OConfigMap c) = cm_meta c"
| "meta_of (ORole r) = role_meta r"
| "meta_of (ORoleBinding b) = rb_meta b"
| "meta_of (OService s) = svc_meta s"
| "meta_of (ONode n) = node_meta n"
| "meta_of (ONamespace n) = ns_meta n"
| "meta_of (ODeployment d) = dep_meta d"
| "meta_of (OManagedCluster c) = mc_meta c"
| "meta_of (OPlacement p) = pl_meta p"
| "meta_of (OPlacementDecision p) = pd_meta p"
| "meta_of (OManifestWork m) = mw_meta m"
| "meta_of (OManagedClusterAddOn a) = mca_meta a"
| "meta_of (OAddOnDeploymentConfig c) = adc_meta c"
| "meta_of (OAddOnTemplate t) = at_meta t"
| "meta_of (OGitOpsCluster g) = gc_meta g"

fun map_meta :: "(object_meta \<Rightarrow> object_meta) \<Rightarrow> kobj \<Rightarrow> kobj" where
  "map_meta f (OUnstr u) = OUnstr (u\<lparr>u_meta := f (u_meta u)\<rparr>)"
| "map_meta f (OSecret s) = OSecret (s\<lparr>sec_meta := f (sec_meta s)\<rparr>)"
| "map_meta f (OConfigMap c) = OConfigMap (c\<lparr>cm_meta := f (cm_meta c)\<rparr>)"
| "map_meta f (ORole r) = ORole (r\<lparr>role_meta := f (role_meta r)\<rparr>)"
| "map_meta f (ORoleBinding b) = ORoleBinding (b\<lparr>rb_meta := f (rb_meta b)\<rparr>)"
| "map_meta f (OService s) = OService (s\<lparr>svc_meta := f (svc_meta s)\<rparr>)"
| "map_meta f (ONode n) = ONode (n\<lparr>node_meta := f (node_meta n)\<rparr>)"
| "map_meta f (ONamespace n) = ONamespace (n\<lparr>ns_meta := f (ns_meta n)\<rparr>)"
| "map_meta f (ODeployment d) = ODeployment (d\<lparr>dep_meta := f (dep_meta d)\<rparr>)"
| "map_meta f (OManagedCluster c) = OManagedCluster (c\<lparr>mc_meta := f (mc_meta c)\<rparr>)"
| "map_meta f (OPlacement p) = OPlacement (p\<lparr>pl_meta := f (pl_meta p)\<rparr>)"
| "map_meta f (OPlacementDecision p) = OPlacementDecision (p\<lparr>pd_meta := f (pd_meta p)\<rparr>)"
| "map_meta f (OManifestWork m) = OManifestWork (m\<lparr>mw_meta := f (mw_meta m)\<rparr>)"
| "map_meta f (OManagedClusterAddOn a) = OManagedClusterAddOn (a\<lparr>mca_meta := f (mca_meta a)\<rparr>)"
| "map_meta f (OAddOnDeploymentConfig c) = OAddOnDeploymentConfig (c\<lparr>adc_meta := f (adc_meta c)\<rparr>)"
| "map_meta f (OAddOnTemplate t) = OAddOnTemplate (t\<lparr>at_meta := f (at_meta t)\<rparr>)"
| "map_meta f (OGitOpsCluster g) = OGitOpsCluster (g\<lparr>gc_meta := f (gc_meta g)\<rparr>)"

lemma kind_of_map_meta [simp]: "kind_of (map_meta f x) = kind_of x"
  by (cases x) auto

lemma meta_of_map_meta [simp]: "meta_of (map_meta f x) = f (meta_of x)"
  by (cases x) auto

text \<open>A reference to an object: its kind, namespace (empty when cluster-scoped) and name.\<close>

datatype objref = Ref (ref_kind: kind) (ref_ns: string) (ref_name: string)

text \<open>References are ordered by namespace and name, the order in which the API server lists the objects of a kind.\<close>

fun kind_path :: "kind \<Rightarrow> string list" where
  "kind_path (KUnstr apiVersion k) = [apiVersion, k]"
| "kind_path KSecret = [''secrets'']"
| "kind_path KConfigMap = [''configmaps'']"
| "kind_path KRole = [''roles'']"
| "kind_path KRoleBinding = [''rolebindings'']"
| "kind_path KService = [''services'']"
| "kind_path KNode = [''nodes'']"
| "kind_path KNamespace = [''namespaces'']"
| "kind_path KDeployment = [''deployments'']"
| "kind_path KManagedCluster = [''managedclusters'']"
| "kind_path KPlacement = [''placements'']"
| "kind_path KPlacementDecision = [''placementdecisions'']"
| "kind_path KManifestWork = [''manifestworks'']"
| "kind_path KManagedClusterAddOn = [''managedclusteraddons'']"
| "kind_path KAddOnDeploymentConfig = [''addondeploymentconfigs'']"
| "kind_path KAddOnTemplate = [''addontemplates'']"
| "kind_path KGitOpsCluster = [''gitopsclusters'']"

definition ref_path :: "objref \<Rightarrow> string list" where
  "ref_path r = ref_ns r # ref_name r # kind_path (ref_kind r)"

lemma kind_path_inject: "kind_path k = kind_path l \<longleftrightarrow> k = l"
  by (cases k; cases l) simp_all

lemma ref_path_inject: "ref_path r = ref_path q \<longleftrightarrow> r = q"
  by (auto simp: ref_path_def kind_path_inject intro: objref.expand)

instantiation objref :: linorder
begin

definition less_eq_objref :: "objref \<Rightarrow> objref \<Rightarrow> bool" where
  "r \<le> q \<longleftrightarrow> ref_path r \<le> ref_path q"

definition less_objref :: "objref \<Rightarrow> objref \<Rightarrow> bool" where
  "r < q \<longleftrightarrow> ref_path r < ref_path q"

instance
  by standard (auto simp: less_eq_objref_def less_objref_def less_le_not_le ref_path_inject dest: order_antisym)

end

definition ref_of :: "kobj \<Rightarrow> objref" where
  "ref_of x = Ref (kind_of x) (m_namespace (meta_of x)) (m_name (meta_of x))"

lemma ref_of_simps [simp]:
  "ref_of (OUnstr x) = Ref (KUnstr (u_api_version x) (u_kind x)) (m_namespace (u_meta x)) (m_name (u_meta x))"
  "ref_of (OSecret x1) = Ref KSecret (m_namespace (sec_meta x1)) (m_name (sec_meta x1))"
  "ref_of (OConfigMap x2) = Ref KConfigMap (m_namespace (cm_meta x2)) (m_name (cm_meta x2))"
  "ref_of (ORole x3) = Ref KRole (m_namespace (role_meta x3)) (m_name (role_meta x3))"
  "ref_of (ORoleBinding x4) = Ref KRoleBinding (m_namespace (rb_meta x4)) (m_name (rb_meta x4))"
  "ref_of (OService x5) = Ref KService (m_namespace (svc_meta x5)) (m_name (svc_meta x5))"
  "ref_of (ONode x6) = Ref KNode (m_namespace (node_meta x6)) (m_name (node_meta x6))"
  "ref_of (ONamespace x7) = Ref KNamespace (m_namespace (ns_meta x7)) (m_name (ns_meta x7))"
  "ref_of (ODeployment x8) = Ref KDeployment (m_namespace (dep_meta x8)) (m_name (dep_meta x8))"
  "ref_of (OManagedCluster x9) = Ref KManagedCluster (m_namespace (mc_meta x9)) (m_name (mc_meta x9))"
  "ref_of (OPlacement x10) = Ref KPlacement (m_namespace (pl_meta x10)) (m_name (pl_meta x10))"
  "ref_of (OPlacementDecision x11) = Ref KPlacementDecision (m_namespace (pd_meta x11)) (m_name (pd_meta x11))"
  "ref_of (OManifestWork x12) = Ref KManifestWork (m_namespace (mw_meta x12)) (m_name (mw_meta x12))"
  "ref_of (OManagedClusterAddOn x13) = Ref KManagedClusterAddOn (m_namespace (mca_meta x13)) (m_name (mca_meta x13))"
  "ref_of (OAddOnDeploymentConfig x14) = Ref KAddOnDeploymentConfig (m_namespace (adc_meta x14)) (m_name (adc_meta x14))"
  "ref_of (OAddOnTemplate x15) = Ref KAddOnTemplate (m_namespace (at_meta x15)) (m_name (at_meta x15))"
  "ref_of (OGitOpsCluster x16) = Ref KGitOpsCluster (m_namespace (gc_meta x16)) (m_name (gc_meta x16))"
  by (simp_all add: ref_of_def)

lemma ref_of_map_meta [simp]:
  "m_namespace (f (meta_of x)) = m_namespace (meta_of x) \<Longrightarrow> m_name (f (meta_of x)) = m_name (meta_of x)
   \<Longrightarrow> ref_of (map_meta f x) = ref_of x"
  by (simp add: ref_of_def)

text \<open>
  What a typed \<open>Get\<close> or \<open>List\<close> decodes: \<open>None\<close> when the reply is an object of another type.
\<close>

fun as_unstr :: "kobj \<Rightarrow> unstructured option" where
  "as_unstr (OUnstr u) = Some u" | "as_unstr _ = None"
fun as_secret :: "kobj \<Rightarrow> secret option" where
  "as_secret (OSecret s) = Some s" | "as_secret _ = None"
fun as_config_map :: "kobj \<Rightarrow> config_map option" where
  "as_config_map (OConfigMap s) = Some s" | "as_config_map _ = None"
fun as_role :: "kobj \<Rightarrow> role option" where
  "as_role (ORole s) = Some s" | "as_role _ = None"
fun as_role_binding :: "kobj \<Rightarrow> role_binding option" where
  "as_role_binding (ORoleBinding s) = Some s" | "as_role_binding _ = None"
fun as_service :: "kobj \<Rightarrow> service option" where
  "as_service (OService s) = Some s" | "as_service _ = None"
fun as_node :: "kobj \<Rightarrow> node option" where
  "as_node (ONode s) = Some s" | "as_node _ = None"
fun as_namespace :: "kobj \<Rightarrow> namespace option" where
  "as_namespace (ONamespace s) = Some s" | "as_namespace _ = None"
fun as_deployment :: "kobj \<Rightarrow> deployment option" where
  "as_deployment (ODeployment s) = Some s" | "as_deployment _ = None"
fun as_managed_cluster :: "kobj \<Rightarrow> managed_cluster option" where
  "as_managed_cluster (OManagedCluster s) = Some s" | "as_managed_cluster _ = None"
fun as_placement :: "kobj \<Rightarrow> placement option" where
  "as_placement (OPlacement s) = Some s" | "as_placement _ = None"
fun as_decision :: "kobj \<Rightarrow> placement_decision option" where
  "as_decision (OPlacementDecision s) = Some s" | "as_decision _ = None"
fun as_work :: "kobj \<Rightarrow> manifest_work option" where
  "as_work (OManifestWork s) = Some s" | "as_work _ = None"
fun as_addon :: "kobj \<Rightarrow> managed_cluster_addon option" where
  "as_addon (OManagedClusterAddOn s) = Some s" | "as_addon _ = None"
fun as_addon_config :: "kobj \<Rightarrow> addon_deployment_config option" where
  "as_addon_config (OAddOnDeploymentConfig s) = Some s" | "as_addon_config _ = None"
fun as_addon_template :: "kobj \<Rightarrow> addon_template option" where
  "as_addon_template (OAddOnTemplate s) = Some s" | "as_addon_template _ = None"
fun as_gitops :: "kobj \<Rightarrow> gitops_cluster option" where
  "as_gitops (OGitOpsCluster s) = Some s" | "as_gitops _ = None"
fun as_any :: "kobj \<Rightarrow> kobj option" where
  "as_any x = Some x"

lemma as_kind_Some [simp]:
  "as_unstr x = Some a1 \<longleftrightarrow> x = OUnstr a1"
  "as_secret x = Some a2 \<longleftrightarrow> x = OSecret a2"
  "as_config_map x = Some a3 \<longleftrightarrow> x = OConfigMap a3"
  "as_role x = Some a4 \<longleftrightarrow> x = ORole a4"
  "as_role_binding x = Some a5 \<longleftrightarrow> x = ORoleBinding a5"
  "as_service x = Some a6 \<longleftrightarrow> x = OService a6"
  "as_node x = Some a7 \<longleftrightarrow> x = ONode a7"
  "as_namespace x = Some a8 \<longleftrightarrow> x = ONamespace a8"
  "as_deployment x = Some a9 \<longleftrightarrow> x = ODeployment a9"
  "as_managed_cluster x = Some b1 \<longleftrightarrow> x = OManagedCluster b1"
  "as_placement x = Some b2 \<longleftrightarrow> x = OPlacement b2"
  "as_decision x = Some b3 \<longleftrightarrow> x = OPlacementDecision b3"
  "as_work x = Some b4 \<longleftrightarrow> x = OManifestWork b4"
  "as_addon x = Some b5 \<longleftrightarrow> x = OManagedClusterAddOn b5"
  "as_addon_config x = Some b6 \<longleftrightarrow> x = OAddOnDeploymentConfig b6"
  "as_addon_template x = Some b7 \<longleftrightarrow> x = OAddOnTemplate b7"
  "as_gitops x = Some b8 \<longleftrightarrow> x = OGitOpsCluster b8"
  by (cases x; auto)+

text \<open>The kind an unstructured request names by its \<open>apiVersion\<close> and \<open>kind\<close>.\<close>

definition kind_of_gvk :: "string \<Rightarrow> string \<Rightarrow> kind" where
  "kind_of_gvk api_version k =
     (if api_version = ''apps/v1'' \<and> k = ''Deployment'' then KDeployment
      else if api_version = ''v1'' \<and> k = ''Service'' then KService
      else if api_version = ''v1'' \<and> k = ''ConfigMap'' then KConfigMap
      else if api_version = ''v1'' \<and> k = ''Secret'' then KSecret
      else if api_version = ''v1'' \<and> k = ''Namespace'' then KNamespace
      else if api_version = ''rbac.authorization.k8s.io/v1'' \<and> k = ''RoleBinding'' then KRoleBinding
      else if api_version = ''rbac.authorization.k8s.io/v1'' \<and> k = ''Role'' then KRole
      else KUnstr api_version k)"

end
