(* ===== verification/App_Helper.thy ===== *)
theory App_Helper
  imports Kube_Types
begin

text \<open>
  \<open>internal/basic/application/helper.go\<close>: the pure functions of the basic pull model. They decide
  which Applications and ManifestWorks the controllers handle, name the ManifestWork of an
  Application and build it. The label and annotation keys are the constants of
  \<open>application_controller.go\<close>.
\<close>

section \<open>Keys\<close>

definition AnnotationKeyOCMManagedCluster :: string where
  "AnnotationKeyOCMManagedCluster = ''apps.open-cluster-management.io/ocm-managed-cluster''"
definition AnnotationKeyOCMManagedClusterAppNamespace :: string where
  "AnnotationKeyOCMManagedClusterAppNamespace = ''apps.open-cluster-management.io/ocm-managed-cluster-app-namespace''"
definition AnnotationKeyDestinationName :: string where
  "AnnotationKeyDestinationName = ''apps.open-cluster-management.io/destination-name''"
definition AnnotationKeyDestinationServer :: string where
  "AnnotationKeyDestinationServer = ''apps.open-cluster-management.io/destination-server''"
definition AnnotationKeyAppSet :: string where
  "AnnotationKeyAppSet = ''apps.open-cluster-management.io/hosting-applicationset''"
definition AnnotationKeyAppSkipReconcile :: string where
  "AnnotationKeyAppSkipReconcile = ''argocd.argoproj.io/skip-reconcile''"
definition AnnotationKeyHubApplicationNamespace :: string where
  "AnnotationKeyHubApplicationNamespace = ''apps.open-cluster-management.io/hub-application-namespace''"
definition AnnotationKeyHubApplicationName :: string where
  "AnnotationKeyHubApplicationName = ''apps.open-cluster-management.io/hub-application-name''"
definition LabelKeyAppSet :: string where
  "LabelKeyAppSet = ''apps.open-cluster-management.io/application-set''"
definition LabelKeyPull :: string where
  "LabelKeyPull = ''apps.open-cluster-management.io/pull-to-ocm-managed-cluster''"
definition ResourcesFinalizerName :: string where
  "ResourcesFinalizerName = ''resources-finalizer.argocd.argoproj.io''"
definition KubernetesInternalAPIServerAddr :: string where
  "KubernetesInternalAPIServerAddr = ''https://kubernetes.default.svc''"

lemmas app_key_defs = AnnotationKeyOCMManagedCluster_def AnnotationKeyOCMManagedClusterAppNamespace_def
  AnnotationKeyDestinationName_def AnnotationKeyDestinationServer_def AnnotationKeyAppSet_def
  AnnotationKeyAppSkipReconcile_def AnnotationKeyHubApplicationNamespace_def
  AnnotationKeyHubApplicationName_def LabelKeyAppSet_def LabelKeyPull_def ResourcesFinalizerName_def
  KubernetesInternalAPIServerAddr_def

lemma app_keys_distinct [simp]:
  "LabelKeyPull \<noteq> LabelKeyAppSet" "LabelKeyAppSet \<noteq> LabelKeyPull"
  "AnnotationKeyHubApplicationNamespace \<noteq> AnnotationKeyHubApplicationName"
  "AnnotationKeyHubApplicationName \<noteq> AnnotationKeyHubApplicationNamespace"
  "AnnotationKeyHubApplicationNamespace \<noteq> AnnotationKeyAppSet"
  "AnnotationKeyAppSet \<noteq> AnnotationKeyHubApplicationNamespace"
  "AnnotationKeyHubApplicationName \<noteq> AnnotationKeyAppSet"
  "AnnotationKeyAppSet \<noteq> AnnotationKeyHubApplicationName"
  "AnnotationKeyAppSet \<noteq> AnnotationKeyOCMManagedCluster"
  "AnnotationKeyAppSet \<noteq> AnnotationKeyOCMManagedClusterAppNamespace"
  "AnnotationKeyAppSet \<noteq> AnnotationKeyAppSkipReconcile"
  "AnnotationKeyAppSet \<noteq> AnnotationKeyDestinationName"
  "AnnotationKeyAppSet \<noteq> AnnotationKeyDestinationServer"
  by (simp_all add: app_key_defs)

section \<open>Which objects are handled\<close>

definition containsValidPullLabel :: "string gomap \<Rightarrow> bool" where
  "containsValidPullLabel labels =
     (if labels = [] then False
      else case map_of labels LabelKeyPull of
        Some pullLabelStr \<Rightarrow> (case parse_bool pullLabelStr of None \<Rightarrow> False | Some isPull \<Rightarrow> isPull)
      | None \<Rightarrow> False)"

definition containsValidPullAnnotation :: "string gomap \<Rightarrow> bool" where
  "containsValidPullAnnotation annos =
     (if annos = [] then False
      else case map_of annos AnnotationKeyOCMManagedCluster of
        Some managedClusterName \<Rightarrow> 0 < length managedClusterName
      | None \<Rightarrow> False)"

definition containsValidManifestWorkHubApplicationAnnotations :: "manifest_work \<Rightarrow> bool" where
  "containsValidManifestWorkHubApplicationAnnotations manifestWork =
     (let annos = m_annotations (mw_meta manifestWork) in
      if annos = [] then False
      else case (map_of annos AnnotationKeyHubApplicationNamespace, map_of annos AnnotationKeyHubApplicationName) of
        (Some namespace, Some name) \<Rightarrow> 0 < length namespace \<and> 0 < length name
      | _ \<Rightarrow> False)"

lemma containsValidPullLabel_iff:
  "containsValidPullLabel labels \<longleftrightarrow> (\<exists>s. map_of labels LabelKeyPull = Some s \<and> parse_bool s = Some True)"
  by (auto simp: containsValidPullLabel_def split: option.splits)

lemma containsValidPullAnnotation_iff:
  "containsValidPullAnnotation annos \<longleftrightarrow> mget annos AnnotationKeyOCMManagedCluster \<noteq> ''''"
  by (auto simp: containsValidPullAnnotation_def mget_def split: option.splits)

lemma hub_annotations_iff:
  "containsValidManifestWorkHubApplicationAnnotations mw \<longleftrightarrow>
     mget (m_annotations (mw_meta mw)) AnnotationKeyHubApplicationNamespace \<noteq> '''' \<and>
     mget (m_annotations (mw_meta mw)) AnnotationKeyHubApplicationName \<noteq> ''''"
  by (auto simp: containsValidManifestWorkHubApplicationAnnotations_def mget_def Let_def split: option.splits)

section \<open>Names\<close>

definition generateAppNamespace :: "string \<Rightarrow> string gomap \<Rightarrow> string" where
  "generateAppNamespace namespace annos =
     (let appNamespace = mget annos AnnotationKeyOCMManagedClusterAppNamespace in
      if 0 < length appNamespace then appNamespace
      else if 0 < length namespace then namespace
      else ''argocd'')"

text \<open>\<open>string(uid)[0:5]\<close> panics when the UID has fewer than five bytes.\<close>

definition generateManifestWorkName :: "string \<Rightarrow> string \<Rightarrow> string result" where
  "generateManifestWorkName name uid =
     (if length uid < 5 then Inl (Panic ''slice bounds out of range'')
      else Inr (name @ ''-'' @ take 5 uid))"

fun getAppSetOwnerName :: "owner_ref list \<Rightarrow> string" where
  "getAppSetOwnerName [] = ''''"
| "getAppSetOwnerName (ownerRef # rest) =
     (if equal_fold (or_api_version ownerRef) ''argoproj.io/v1alpha1'' \<and>
         equal_fold (or_kind ownerRef) ''ApplicationSet''
      then or_name ownerRef else getAppSetOwnerName rest)"

lemma generateAppNamespace_ne [simp]: "generateAppNamespace ns annos \<noteq> ''''"
  by (simp add: generateAppNamespace_def Let_def)

section \<open>The payload\<close>

definition application_gvk :: kind where
  "application_gvk = KUnstr ''argoproj.io/v1alpha1'' ''Application''"

text \<open>The destination of the copied spec: custom annotations, or the cluster the work lands on.\<close>

definition payload_destination :: "string gomap \<Rightarrow> fields \<Rightarrow> fields" where
  "payload_destination annos destination =
     (let customName = map_of annos AnnotationKeyDestinationName;
          customServer = map_of annos AnnotationKeyDestinationServer in
      if customName \<noteq> None \<or> customServer \<noteq> None then
        put ''server'' (JStr (case customServer of Some s \<Rightarrow> s | None \<Rightarrow> ''''))
          (put ''name'' (JStr (case customName of Some n \<Rightarrow> n | None \<Rightarrow> '''')) destination)
      else
        put ''server'' (JStr KubernetesInternalAPIServerAddr) (put ''name'' (JStr '''') destination))"

definition payload_spec :: "string gomap \<Rightarrow> fields \<Rightarrow> fields" where
  "payload_spec annos spec =
     (case as_map (map_of spec ''destination'') of
        Some destination \<Rightarrow> put ''destination'' (JObj (payload_destination annos destination)) spec
      | None \<Rightarrow> spec)"

definition payload_annotation_kept :: "string \<Rightarrow> bool" where
  "payload_annotation_kept key =
     (key \<noteq> AnnotationKeyOCMManagedCluster \<and>
      key \<noteq> AnnotationKeyOCMManagedClusterAppNamespace \<and>
      key \<noteq> AnnotationKeyAppSkipReconcile \<and>
      key \<noteq> AnnotationKeyDestinationName \<and>
      key \<noteq> AnnotationKeyDestinationServer)"

definition prepareApplicationForWorkPayload :: "unstructured \<Rightarrow> unstructured" where
  "prepareApplicationForWorkPayload application =
     (let meta = u_meta application;
          f0 = [];
          f1 = (case as_map (map_of (u_fields application) ''operation'') of
                  Some operation \<Rightarrow> put ''operation'' (JObj operation) f0 | None \<Rightarrow> f0);
          f2 = (case as_map (map_of (u_fields application) ''spec'') of
                  Some spec \<Rightarrow> put ''spec'' (JObj (payload_spec (m_annotations meta) spec)) f1 | None \<Rightarrow> f1);
          labels = keep_keys (\<lambda>key. key \<noteq> LabelKeyPull) (m_labels meta);
          annotations = keep_keys payload_annotation_kept (m_annotations meta);
          appSetOwnerName = getAppSetOwnerName (m_owners meta);
          labels' = (if appSetOwnerName \<noteq> '''' then put LabelKeyAppSet (format_bool True) labels else labels);
          annotations' = (if appSetOwnerName \<noteq> ''''
             then put AnnotationKeyAppSet (m_namespace meta @ ''/'' @ appSetOwnerName) annotations
             else annotations)
      in \<lparr>u_api_version = ''argoproj.io/v1alpha1'', u_kind = ''Application'',
          u_meta = (new_meta (m_name meta) (generateAppNamespace (m_namespace meta) (m_annotations meta)))
            \<lparr>m_finalizers := m_finalizers meta, m_labels := labels', m_annotations := annotations'\<rparr>,
          u_fields = f2\<rparr>)"

section \<open>The ManifestWork\<close>

definition feedback_rule :: "string \<Rightarrow> string \<Rightarrow> string \<times> (string \<times> string) list" where
  "feedback_rule name path = (''JSONPaths'', [(name, path)])"

definition generateManifestWork :: "string \<Rightarrow> string \<Rightarrow> unstructured \<Rightarrow> manifest_work" where
  "generateManifestWork name namespace app =
     (let meta = u_meta app;
          workLabels = [(LabelKeyPull, format_bool True)];
          workAnnos = [(AnnotationKeyHubApplicationNamespace, m_namespace meta),
                       (AnnotationKeyHubApplicationName, m_name meta)];
          appSetOwnerName = getAppSetOwnerName (m_owners meta);
          workLabels' = (if appSetOwnerName \<noteq> '''' then put LabelKeyAppSet (format_bool True) workLabels else workLabels);
          workAnnos' = (if appSetOwnerName \<noteq> ''''
             then put AnnotationKeyAppSet (m_namespace meta @ ''/'' @ appSetOwnerName) workAnnos else workAnnos);
          application = prepareApplicationForWorkPayload app
      in \<lparr>mw_meta = (new_meta name namespace)\<lparr>m_labels := workLabels', m_annotations := workAnnos'\<rparr>,
          mw_spec = \<lparr>ws_manifests = [MObject application],
            ws_configs = [\<lparr>mcf_group = ''argoproj.io'', mcf_resource = ''applications'',
              mcf_namespace = m_namespace (u_meta application), mcf_name = m_name (u_meta application),
              mcf_feedback =
                [feedback_rule ''healthStatus'' ''.status.health.status'',
                 feedback_rule ''syncStatus'' ''.status.sync.status'',
                 feedback_rule ''operationStateStartedAt'' ''.status.operationState.startedAt'',
                 feedback_rule ''operationStatePhase'' ''.status.operationState.phase'',
                 feedback_rule ''syncRevision'' ''.status.sync.revision''],
              mcf_update_strategy = \<lparr>us_type = ''ServerSideApply'', us_force = True,
                us_ignore = [(''OnSpokeChange'', [''.operation''])]\<rparr>\<rparr>]\<rparr>,
          mw_feedback = []\<rparr>)"

section \<open>Properties of the payload and the work\<close>

lemma payload_meta:
  "m_name (u_meta (prepareApplicationForWorkPayload app)) = m_name (u_meta app)"
  "m_namespace (u_meta (prepareApplicationForWorkPayload app)) =
     generateAppNamespace (m_namespace (u_meta app)) (m_annotations (u_meta app))"
  "m_finalizers (u_meta (prepareApplicationForWorkPayload app)) = m_finalizers (u_meta app)"
  "m_uid (u_meta (prepareApplicationForWorkPayload app)) = ''''"
  "m_owners (u_meta (prepareApplicationForWorkPayload app)) = []"
  "m_deletion (u_meta (prepareApplicationForWorkPayload app)) = None"
  by (simp_all add: prepareApplicationForWorkPayload_def Let_def)

lemma payload_labels:
  "map_of (m_labels (u_meta (prepareApplicationForWorkPayload app))) k =
     (if k = LabelKeyAppSet \<and> getAppSetOwnerName (m_owners (u_meta app)) \<noteq> '''' then Some ''true''
      else if k = LabelKeyPull then None else map_of (m_labels (u_meta app)) k)"
  by (auto simp: prepareApplicationForWorkPayload_def Let_def gomap_simps format_bool_def)

lemma payload_annotations:
  "map_of (m_annotations (u_meta (prepareApplicationForWorkPayload app))) k =
     (if k = AnnotationKeyAppSet \<and> getAppSetOwnerName (m_owners (u_meta app)) \<noteq> ''''
      then Some (m_namespace (u_meta app) @ ''/'' @ getAppSetOwnerName (m_owners (u_meta app)))
      else if payload_annotation_kept k then map_of (m_annotations (u_meta app)) k else None)"
  by (auto simp: prepareApplicationForWorkPayload_def Let_def gomap_simps payload_annotation_kept_def)

lemma payload_fields:
  "map_of (u_fields (prepareApplicationForWorkPayload app)) k =
     (if k = ''operation'' then map_option JObj (as_map (map_of (u_fields app) ''operation''))
      else if k = ''spec'' then
        map_option (JObj \<circ> payload_spec (m_annotations (u_meta app))) (as_map (map_of (u_fields app) ''spec''))
      else None)"
  by (auto simp: prepareApplicationForWorkPayload_def Let_def gomap_simps split: option.splits)

lemma payload_destination_fields:
  "map_of (payload_destination annos d) k =
     (if k = ''server'' then Some (JStr
        (if map_of annos AnnotationKeyDestinationName = None \<and> map_of annos AnnotationKeyDestinationServer = None
         then KubernetesInternalAPIServerAddr else mget annos AnnotationKeyDestinationServer))
      else if k = ''name'' then Some (JStr (mget annos AnnotationKeyDestinationName))
      else map_of d k)"
  by (auto simp: payload_destination_def Let_def gomap_simps mget_def split: option.splits)

lemma payload_spec_other: "k \<noteq> ''destination'' \<Longrightarrow> map_of (payload_spec annos spec) k = map_of spec k"
  by (auto simp: payload_spec_def gomap_simps split: option.splits)

lemma generateManifestWork_meta [simp]:
  "m_name (mw_meta (generateManifestWork n ns app)) = n"
  "m_namespace (mw_meta (generateManifestWork n ns app)) = ns"
  "m_finalizers (mw_meta (generateManifestWork n ns app)) = []"
  "m_deletion (mw_meta (generateManifestWork n ns app)) = None"
  by (simp_all add: generateManifestWork_def Let_def)

lemma generateManifestWork_labels:
  "map_of (m_labels (mw_meta (generateManifestWork n ns app))) LabelKeyPull = Some ''true''"
  by (simp add: generateManifestWork_def Let_def gomap_simps format_bool_def)

lemma generateManifestWork_annotations:
  "mget (m_annotations (mw_meta (generateManifestWork n ns app))) AnnotationKeyHubApplicationNamespace = m_namespace (u_meta app)"
  "mget (m_annotations (mw_meta (generateManifestWork n ns app))) AnnotationKeyHubApplicationName = m_name (u_meta app)"
  by (simp_all add: generateManifestWork_def Let_def gomap_simps mget_def)

text \<open>
  C37: The payload of a ManifestWork keeps the name and the finalizers of the Application, is in
  the namespace of its annotation, has no owner, no uid, no status, and lost the label and the
  annotations that would make a pull controller of the spoke take it up again.
\<close>

theorem payload_is_cleaned:
  "m_name (u_meta (prepareApplicationForWorkPayload app)) = m_name (u_meta app) \<and>
   m_namespace (u_meta (prepareApplicationForWorkPayload app)) =
     generateAppNamespace (m_namespace (u_meta app)) (m_annotations (u_meta app)) \<and>
   m_finalizers (u_meta (prepareApplicationForWorkPayload app)) = m_finalizers (u_meta app) \<and>
   m_uid (u_meta (prepareApplicationForWorkPayload app)) = '''' \<and>
   m_owners (u_meta (prepareApplicationForWorkPayload app)) = [] \<and>
   map_of (u_fields (prepareApplicationForWorkPayload app)) ''status'' = None \<and>
   \<not> containsValidPullLabel (m_labels (u_meta (prepareApplicationForWorkPayload app))) \<and>
   \<not> containsValidPullAnnotation (m_annotations (u_meta (prepareApplicationForWorkPayload app))) \<and>
   map_of (m_annotations (u_meta (prepareApplicationForWorkPayload app))) AnnotationKeyAppSkipReconcile = None"
  by (simp add: payload_meta payload_fields containsValidPullLabel_iff containsValidPullAnnotation_iff
      payload_labels payload_annotations mget_def payload_annotation_kept_def app_key_defs)

text \<open>
  In the payload, name and server of the destination are those of the annotations, with the
  in-cluster server when neither is set, and every other field of the destination and of the spec
  is kept.
\<close>

theorem payload_destination_rewritten:
  assumes "map_of (u_fields app) ''spec'' = Some (JObj spec)" and "map_of spec ''destination'' = Some (JObj dest)"
  shows "\<exists>d. get_nested [''spec'', ''destination''] (JObj (u_fields (prepareApplicationForWorkPayload app))) = Some (JObj d) \<and>
     map_of d ''name'' = Some (JStr (mget (m_annotations (u_meta app)) AnnotationKeyDestinationName)) \<and>
     map_of d ''server'' = Some (JStr
        (if map_of (m_annotations (u_meta app)) AnnotationKeyDestinationName = None \<and>
            map_of (m_annotations (u_meta app)) AnnotationKeyDestinationServer = None
         then KubernetesInternalAPIServerAddr
         else mget (m_annotations (u_meta app)) AnnotationKeyDestinationServer)) \<and>
     (\<forall>k. k \<notin> {''name'', ''server''} \<longrightarrow> map_of d k = map_of dest k) \<and>
     (\<forall>k. k \<noteq> ''destination'' \<longrightarrow>
        get_nested [''spec'', k] (JObj (u_fields (prepareApplicationForWorkPayload app))) = map_of spec k)"
  using assms
  by (auto simp: payload_fields payload_destination_fields payload_spec_other payload_spec_def gomap_simps
      split: option.splits)

theorem payload_destination_rewritten_witness:
  "\<exists>d. get_nested [''spec'', ''destination''] (JObj (u_fields (prepareApplicationForWorkPayload
       \<lparr>u_api_version = ''argoproj.io/v1alpha1'', u_kind = ''Application'', u_meta = new_meta ''a'' ''ns'',
        u_fields = [(''spec'', JObj [(''destination'', JObj [(''name'', JStr ''c1'')])])]\<rparr>))) = Some (JObj d) \<and>
     map_of d ''server'' = Some (JStr ''https://kubernetes.default.svc'')"
  using payload_destination_rewritten [of "\<lparr>u_api_version = ''argoproj.io/v1alpha1'', u_kind = ''Application'',
      u_meta = new_meta ''a'' ''ns'', u_fields = [(''spec'', JObj [(''destination'', JObj [(''name'', JStr ''c1'')])])]\<rparr>"
      "[(''destination'', JObj [(''name'', JStr ''c1'')])]" "[(''name'', JStr ''c1'')]"]
  by (auto simp: KubernetesInternalAPIServerAddr_def)

end
