(* ===== verification/Kube_Client.thy ===== *)
theory Kube_Client
  imports Kube_Types
begin

text \<open>
  The Kubernetes API as the controllers see it. The server and the client library are not part of
  this repository: the controllers call them through the interface \<open>client.Client\<close> of
  controller-runtime, which is the record \<open>client\<close> here, an argument of every controller. Its
  operations are arbitrary functions on an arbitrary world \<open>'w\<close>; what Kubernetes documents about
  them is the locale \<open>kube_api\<close>, over a reading \<open>view\<close> of the world as the objects it stores.
  A request may fail at any time with any error. The laws describe one controller run without a
  concurrent writer: reads leave the objects alone, and a write touches no object but its own.
\<close>

section \<open>The client\<close>

record 'w client =
  c_get :: "objref \<Rightarrow> ('w, kobj result) state"
  c_list :: "kind \<Rightarrow> string option \<Rightarrow> string gomap \<Rightarrow> ('w, kobj list result) state"
  c_create :: "kobj \<Rightarrow> ('w, kobj result) state"
  c_update :: "kobj \<Rightarrow> ('w, kobj result) state"
  c_update_status :: "kobj \<Rightarrow> ('w, kobj result) state"
  c_delete :: "objref \<Rightarrow> ('w, unit result) state"
  c_patch :: "objref \<Rightarrow> json \<Rightarrow> ('w, unit result) state"
  c_now_text :: "('w, string) state"
  c_now :: "('w, int) state"

text \<open>
  \<open>c_list k ns sel\<close> lists the objects of a kind, in one namespace (\<open>Some ns\<close>, \<open>InNamespace\<close>) or
  in all, that carry the labels \<open>sel\<close> (\<open>MatchingLabels\<close>). Writes answer with the object as the
  server stored it. \<open>c_now_text\<close> is \<open>time.Now()\<close> as RFC 3339 text, \<open>c_now\<close> the same in nanoseconds.

  \<open>Get\<close> into a typed object, \<open>List\<close> into a typed list and a write without the reply:
\<close>

definition fetch :: "(kobj \<Rightarrow> 'o option) \<Rightarrow> 'w client \<Rightarrow> objref \<Rightarrow> ('w, 'o result) state" where
  "fetch as_o C r = bindE (c_get C r) (\<lambda>x.
     case as_o x of None \<Rightarrow> ret (Inl (Plain ''cannot decode the reply'')) | Some y \<Rightarrow> ret (Inr y))"

definition list_as :: "(kobj \<Rightarrow> 'o option) \<Rightarrow> 'w client \<Rightarrow> kind \<Rightarrow> string option \<Rightarrow> string gomap
    \<Rightarrow> ('w, 'o list result) state" where
  "list_as as_o C k ns sel = bindE (c_list C k ns sel) (\<lambda>xs. ret (Inr (List.map_filter as_o xs)))"

definition create :: "'w client \<Rightarrow> kobj \<Rightarrow> ('w, unit result) state" where
  "create C x = bindE (c_create C x) (\<lambda>_. ret (Inr ()))"

definition update :: "'w client \<Rightarrow> kobj \<Rightarrow> ('w, unit result) state" where
  "update C x = bindE (c_update C x) (\<lambda>_. ret (Inr ()))"

text \<open>\<open>Update\<close> overwrites the object it was given with the server's reply.\<close>

definition update_as :: "(kobj \<Rightarrow> 'o option) \<Rightarrow> 'w client \<Rightarrow> kobj \<Rightarrow> ('w, 'o result) state" where
  "update_as as_o C x = bindE (c_update C x) (\<lambda>y.
     case as_o y of None \<Rightarrow> ret (Inl (Plain ''cannot decode the reply'')) | Some z \<Rightarrow> ret (Inr z))"

definition delete_obj :: "'w client \<Rightarrow> kobj \<Rightarrow> ('w, unit result) state" where
  "delete_obj C x = c_delete C (ref_of x)"

text \<open>An error the caller ignores: \<open>if err := m; err != nil { log }\<close>.\<close>

definition log_error :: "('w, 'a result) state \<Rightarrow> ('w, unit) state" where
  "log_error m = do { _ \<leftarrow> m; ret () }"

lemma wp_log_error [wp_simps]: "wp (log_error m) Q = wp m (\<lambda>_. Q ())"
  by (simp add: log_error_def wp_simps)

section \<open>What Kubernetes documents\<close>

definition labels_match :: "string gomap \<Rightarrow> string gomap \<Rightarrow> bool" where
  "labels_match sel labels = list_all (\<lambda>(k, v). map_of labels k = Some v) sel"

definition in_ns :: "string option \<Rightarrow> string \<Rightarrow> bool" where
  "in_ns ns n = (case ns of None \<Rightarrow> True | Some m \<Rightarrow> n = m)"

text \<open>Writing a Secret moves \<open>stringData\<close> into \<open>data\<close>.\<close>

fun admit :: "kobj \<Rightarrow> kobj" where
  "admit (OSecret s) = OSecret (s\<lparr>sec_data := put_all (sec_string_data s) (sec_data s), sec_string_data := []\<rparr>)"
| "admit x = x"

text \<open>\<open>Update\<close> does not write the status of a kind with a status subresource.\<close>

fun keep_status :: "kobj \<Rightarrow> kobj \<Rightarrow> kobj" where
  "keep_status (OGitOpsCluster old) (OGitOpsCluster new) = OGitOpsCluster (new\<lparr>gc_conditions := gc_conditions old\<rparr>)"
| "keep_status (OManifestWork old) (OManifestWork new) = OManifestWork (new\<lparr>mw_feedback := mw_feedback old\<rparr>)"
| "keep_status _ new = new"

text \<open>\<open>Status().Update\<close> writes nothing else.\<close>

fun put_status :: "kobj \<Rightarrow> kobj \<Rightarrow> kobj" where
  "put_status (OGitOpsCluster old) (OGitOpsCluster new) = OGitOpsCluster (old\<lparr>gc_conditions := gc_conditions new\<rparr>)"
| "put_status (OManifestWork old) (OManifestWork new) = OManifestWork (old\<lparr>mw_feedback := mw_feedback new\<rparr>)"
| "put_status old _ = old"

text \<open>The metadata the server owns, which a write does not choose.\<close>

definition same_content :: "kobj \<Rightarrow> kobj \<Rightarrow> bool" where
  "same_content x y = (\<exists>uid rv gen.
     y = map_meta (\<lambda>m. m\<lparr>m_uid := uid, m_resource_version := rv, m_generation := gen\<rparr>) x)"

definition terminating :: "kobj \<Rightarrow> bool" where
  "terminating x = (m_deletion (meta_of x) \<noteq> None)"

text \<open>A merge patch of the pod template's annotations, the only patch the program sends.\<close>

definition annotations_patch :: "string gomap \<Rightarrow> json" where
  "annotations_patch kvs = JObj [(''spec'', JObj [(''template'', JObj [(''metadata'',
     JObj [(''annotations'', JObj (map (\<lambda>(k, v). (k, JStr v)) kvs))])])])]"

definition patch_annotations :: "string gomap \<Rightarrow> deployment \<Rightarrow> deployment" where
  "patch_annotations kvs d = d\<lparr>dep_template_annotations := put_all kvs (dep_template_annotations d)\<rparr>"

lemma dep_meta_patch_annotations [simp]: "dep_meta (patch_annotations kvs d) = dep_meta d"
  by (simp add: patch_annotations_def)

lemma kind_of_admit [simp]: "kind_of (admit x) = kind_of x"
  by (cases x) auto

lemma meta_of_admit [simp]: "meta_of (admit x) = meta_of x"
  by (cases x) auto

lemma ref_of_admit [simp]: "ref_of (admit x) = ref_of x"
  by (simp add: ref_of_def)

lemma kind_of_keep_status [simp]: "kind_of (keep_status old x) = kind_of x"
  by (cases old; cases x) auto

lemma meta_of_keep_status [simp]: "meta_of (keep_status old x) = meta_of x"
  by (cases old; cases x) auto

lemma kind_of_put_status [simp]: "kind_of (put_status old x) = kind_of old"
  by (cases old; cases x) auto

lemma meta_of_put_status [simp]: "meta_of (put_status old x) = meta_of old"
  by (cases old; cases x) auto

lemma same_content_ref: "same_content x y \<Longrightarrow> ref_of y = ref_of x"
  by (auto simp: same_content_def)

lemma same_content_meta:
  assumes "same_content x y"
  shows "m_labels (meta_of y) = m_labels (meta_of x)" "m_annotations (meta_of y) = m_annotations (meta_of x)"
    "m_finalizers (meta_of y) = m_finalizers (meta_of x)" "m_deletion (meta_of y) = m_deletion (meta_of x)"
    "m_owners (meta_of y) = m_owners (meta_of x)" "m_name (meta_of y) = m_name (meta_of x)"
    "m_namespace (meta_of y) = m_namespace (meta_of x)"
  using assms by (auto simp: same_content_def)

text \<open>The laws. \<open>view w r\<close> is the object stored under \<open>r\<close>.\<close>

locale kube_api =
  fixes C :: "'w client"
    and view :: "'w \<Rightarrow> objref \<Rightarrow> kobj option"
  assumes view_ref: "view w r = Some x \<Longrightarrow> ref_of x = r"
    and view_noname: "view w (Ref k ns []) = None"
    and get_ok: "run_state (c_get C r) w = (Inr x, w') \<Longrightarrow> view w' = view w \<and> view w r = Some x"
    and get_err: "run_state (c_get C r) w = (Inl e, w') \<Longrightarrow>
        view w' = view w \<and> (is_not_found e \<longrightarrow> view w r = None)"
    and list_ok: "run_state (c_list C k scope sel) w = (Inr xs, w') \<Longrightarrow> view w' = view w \<and> distinct (map ref_of xs) \<and>
        (\<forall>x. x \<in> set xs \<longleftrightarrow> view w (ref_of x) = Some x \<and> kind_of x = k \<and> in_ns scope (m_namespace (meta_of x)) \<and>
             labels_match sel (m_labels (meta_of x)))"
    and list_err: "run_state (c_list C k scope sel) w = (Inl e, w') \<Longrightarrow> view w' = view w"
    and create_ok: "run_state (c_create C x) w = (Inr y, w') \<Longrightarrow>
        view w (ref_of x) = None \<and> same_content (admit x) y \<and> view w' = (view w)(ref_of x := Some y)"
    and create_err: "run_state (c_create C x) w = (Inl e, w') \<Longrightarrow>
        (\<forall>r. r \<noteq> ref_of x \<longrightarrow> view w' r = view w r) \<and>
        (is_already_exists e \<longrightarrow> view w' = view w \<and> view w (ref_of x) \<noteq> None)"
    and update_ok: "run_state (c_update C x) w = (Inr y, w') \<Longrightarrow>
        (\<exists>old. view w (ref_of x) = Some old \<and> same_content (keep_status old (admit x)) y \<and>
           view w' = (view w)(ref_of x := if m_deletion (meta_of x) \<noteq> None \<and> m_finalizers (meta_of x) = []
                                          then None else Some y))"
    and update_err: "run_state (c_update C x) w = (Inl e, w') \<Longrightarrow>
        (\<forall>r. r \<noteq> ref_of x \<longrightarrow> view w' r = view w r) \<and> (is_not_found e \<or> is_conflict e \<longrightarrow> view w' = view w)"
    and status_ok: "run_state (c_update_status C x) w = (Inr y, w') \<Longrightarrow>
        (\<exists>old. view w (ref_of x) = Some old \<and> same_content (put_status old x) y \<and>
           view w' = (view w)(ref_of x := Some y))"
    and status_err: "run_state (c_update_status C x) w = (Inl e, w') \<Longrightarrow>
        (\<forall>r. r \<noteq> ref_of x \<longrightarrow> view w' r = view w r) \<and> (is_not_found e \<or> is_conflict e \<longrightarrow> view w' = view w)"
    and delete_ok: "run_state (c_delete C r) w = (Inr u, w') \<Longrightarrow>
        (\<exists>old. view w r = Some old \<and> view w' = (view w)(r :=
           if m_finalizers (meta_of old) = [] then None else view w' r) \<and>
         (\<forall>y. view w' r = Some y \<longrightarrow> terminating y))"
    and delete_err: "run_state (c_delete C r) w = (Inl e, w') \<Longrightarrow>
        (\<forall>r'. r' \<noteq> r \<longrightarrow> view w' r' = view w r') \<and> (is_not_found e \<longrightarrow> view w' = view w \<and> view w r = None)"
    and patch_ok: "run_state (c_patch C r j) w = (Inr u, w') \<Longrightarrow>
        (\<forall>r'. r' \<noteq> r \<longrightarrow> view w' r' = view w r') \<and> view w r \<noteq> None \<and>
        (\<forall>d kvs. view w r = Some (ODeployment d) \<and> j = annotations_patch kvs \<longrightarrow>
           (\<exists>y. view w' r = Some y \<and> same_content (ODeployment (patch_annotations kvs d)) y))"
    and patch_err: "run_state (c_patch C r j) w = (Inl e, w') \<Longrightarrow>
        (\<forall>r'. r' \<noteq> r \<longrightarrow> view w' r' = view w r') \<and> (is_not_found e \<longrightarrow> view w' = view w \<and> view w r = None)"
    and now_text_view: "run_state (c_now_text C) w = (t, w') \<Longrightarrow> view w' = view w"
    and now_view: "run_state (c_now C) w = (n, w') \<Longrightarrow> view w' = view w"
begin

text \<open>The laws as weakest-precondition rules.\<close>

lemma wp_get [wp_intros]:
  assumes "\<And>x w'. view w' = view w \<Longrightarrow> view w r = Some x \<Longrightarrow> ref_of x = r \<Longrightarrow> Q (Inr x) w'"
    and "\<And>e w'. view w' = view w \<Longrightarrow> (is_not_found e \<Longrightarrow> view w r = None) \<Longrightarrow> Q (Inl e) w'"
  shows "wp (c_get C r) Q w"
  by (rule wpI, rename_tac a w', case_tac a) (auto dest: get_ok get_err view_ref intro!: assms)

lemma wp_list [wp_intros]:
  assumes "\<And>xs w'. view w' = view w \<Longrightarrow> distinct (map ref_of xs) \<Longrightarrow>
      (\<And>x. x \<in> set xs \<longleftrightarrow> view w (ref_of x) = Some x \<and> kind_of x = k \<and> in_ns ns (m_namespace (meta_of x)) \<and>
         labels_match sel (m_labels (meta_of x))) \<Longrightarrow> Q (Inr xs) w'"
    and "\<And>e w'. view w' = view w \<Longrightarrow> Q (Inl e) w'"
  shows "wp (c_list C k ns sel) Q w"
proof (rule wpI)
  fix a w' assume run: "run_state (c_list C k ns sel) w = (a, w')"
  show "Q a w'"
  proof (cases a)
    case (Inl e)
    with run list_err assms(2) show ?thesis by blast
  next
    case (Inr xs)
    with run list_ok [of k ns sel w xs w'] assms(1) [of w' xs] show ?thesis by auto
  qed
qed

lemma wp_create [wp_intros]:
  assumes "\<And>y w'. view w (ref_of x) = None \<Longrightarrow> same_content (admit x) y \<Longrightarrow>
      view w' = (view w)(ref_of x := Some y) \<Longrightarrow> Q (Inr y) w'"
    and "\<And>e w'. (\<And>r. r \<noteq> ref_of x \<Longrightarrow> view w' r = view w r) \<Longrightarrow>
      (is_already_exists e \<Longrightarrow> view w' = view w \<and> view w (ref_of x) \<noteq> None) \<Longrightarrow> Q (Inl e) w'"
  shows "wp (c_create C x) Q w"
  by (rule wpI, rename_tac a w', case_tac a) (auto dest: create_ok create_err intro!: assms)

lemma wp_update [wp_intros]:
  assumes "\<And>y w' old. view w (ref_of x) = Some old \<Longrightarrow> same_content (keep_status old (admit x)) y \<Longrightarrow>
      view w' = (view w)(ref_of x := if m_deletion (meta_of x) \<noteq> None \<and> m_finalizers (meta_of x) = []
                                     then None else Some y) \<Longrightarrow> Q (Inr y) w'"
    and "\<And>e w'. (\<And>r. r \<noteq> ref_of x \<Longrightarrow> view w' r = view w r) \<Longrightarrow>
      (is_not_found e \<or> is_conflict e \<Longrightarrow> view w' = view w) \<Longrightarrow> Q (Inl e) w'"
  shows "wp (c_update C x) Q w"
proof (rule wpI)
  fix a w' assume run: "run_state (c_update C x) w = (a, w')"
  show "Q a w'"
  proof (cases a)
    case (Inl e)
    with update_err [of x w e w'] run show ?thesis by (auto intro!: assms(2))
  next
    case (Inr y)
    with update_ok [of x w y w'] run show ?thesis by (blast intro: assms(1))
  qed
qed

lemma wp_update_status [wp_intros]:
  assumes "\<And>y w' old. view w (ref_of x) = Some old \<Longrightarrow> same_content (put_status old x) y \<Longrightarrow>
      view w' = (view w)(ref_of x := Some y) \<Longrightarrow> Q (Inr y) w'"
    and "\<And>e w'. (\<And>r. r \<noteq> ref_of x \<Longrightarrow> view w' r = view w r) \<Longrightarrow>
      (is_not_found e \<or> is_conflict e \<Longrightarrow> view w' = view w) \<Longrightarrow> Q (Inl e) w'"
  shows "wp (c_update_status C x) Q w"
proof (rule wpI)
  fix a w' assume run: "run_state (c_update_status C x) w = (a, w')"
  show "Q a w'"
  proof (cases a)
    case (Inl e)
    with status_err [of x w e w'] run show ?thesis by (auto intro!: assms(2))
  next
    case (Inr y)
    with status_ok [of x w y w'] run show ?thesis by (blast intro: assms(1))
  qed
qed

lemma wp_delete [wp_intros]:
  assumes "\<And>w' old. view w r = Some old \<Longrightarrow> (\<And>r'. r' \<noteq> r \<Longrightarrow> view w' r' = view w r') \<Longrightarrow>
      (m_finalizers (meta_of old) = [] \<Longrightarrow> view w' r = None) \<Longrightarrow>
      (\<And>y. view w' r = Some y \<Longrightarrow> terminating y) \<Longrightarrow> Q (Inr ()) w'"
    and "\<And>e w'. (\<And>r'. r' \<noteq> r \<Longrightarrow> view w' r' = view w r') \<Longrightarrow>
      (is_not_found e \<Longrightarrow> view w' = view w \<and> view w r = None) \<Longrightarrow> Q (Inl e) w'"
  shows "wp (c_delete C r) Q w"
proof (rule wpI)
  fix a w' assume run: "run_state (c_delete C r) w = (a, w')"
  show "Q a w'"
  proof (cases a)
    case (Inl e)
    with delete_err [of r w e w'] run show ?thesis by (auto intro!: assms(2))
  next
    case (Inr u)
    then obtain old where old: "view w r = Some old"
      "view w' = (view w)(r := if m_finalizers (meta_of old) = [] then None else view w' r)"
      "\<forall>y. view w' r = Some y \<longrightarrow> terminating y"
      using delete_ok [of r w u w'] run by blast
    have "view w' r' = view w r'" if "r' \<noteq> r" for r'
      using that by (subst old(2)) simp
    moreover have "view w' r = None" if "m_finalizers (meta_of old) = []"
      using that by (subst old(2)) simp
    ultimately show ?thesis using old(1,3) by (auto simp: Inr intro!: assms(1))
  qed
qed

lemma wp_patch [wp_intros]:
  assumes "\<And>w'. (\<And>r'. r' \<noteq> r \<Longrightarrow> view w' r' = view w r') \<Longrightarrow> view w r \<noteq> None \<Longrightarrow>
      (\<And>d kvs. view w r = Some (ODeployment d) \<Longrightarrow> j = annotations_patch kvs \<Longrightarrow>
         (\<exists>y. view w' r = Some y \<and> same_content (ODeployment (patch_annotations kvs d)) y)) \<Longrightarrow> Q (Inr ()) w'"
    and "\<And>e w'. (\<And>r'. r' \<noteq> r \<Longrightarrow> view w' r' = view w r') \<Longrightarrow>
      (is_not_found e \<Longrightarrow> view w' = view w \<and> view w r = None) \<Longrightarrow> Q (Inl e) w'"
  shows "wp (c_patch C r j) Q w"
proof (rule wpI)
  fix a w' assume run: "run_state (c_patch C r j) w = (a, w')"
  show "Q a w'"
  proof (cases a)
    case (Inl e)
    with patch_err [of r j w e w'] run show ?thesis by (auto intro!: assms(2))
  next
    case (Inr u)
    with patch_ok [of r j w u w'] run show ?thesis by (auto intro!: assms(1))
  qed
qed

lemma wp_now_text [wp_intros]: "(\<And>t w'. view w' = view w \<Longrightarrow> Q t w') \<Longrightarrow> wp (c_now_text C) Q w"
  by (auto intro!: wpI dest: now_text_view)

lemma wp_now [wp_intros]: "(\<And>n w'. view w' = view w \<Longrightarrow> Q n w') \<Longrightarrow> wp (c_now C) Q w"
  by (auto intro!: wpI dest: now_view)

subsection \<open>Typed reads and plain writes\<close>

lemma wp_fetch [wp_intros]:
  assumes "\<And>x y w'. view w' = view w \<Longrightarrow> view w r = Some x \<Longrightarrow> ref_of x = r \<Longrightarrow> as_o x = Some y \<Longrightarrow> Q (Inr y) w'"
    and "\<And>e w'. view w' = view w \<Longrightarrow> (is_not_found e \<Longrightarrow> view w r = None) \<Longrightarrow> Q (Inl e) w'"
  shows "wp (fetch as_o C r) Q w"
  by (auto simp: fetch_def wp_simps intro!: wp_get assms split: option.splits)

lemma wp_list_as [wp_intros]:
  assumes "\<And>xs w'. view w' = view w \<Longrightarrow> distinct (map ref_of xs) \<Longrightarrow>
      (\<And>x. x \<in> set xs \<longleftrightarrow> view w (ref_of x) = Some x \<and> kind_of x = k \<and> in_ns ns (m_namespace (meta_of x)) \<and>
         labels_match sel (m_labels (meta_of x))) \<Longrightarrow> Q (Inr (List.map_filter as_o xs)) w'"
    and "\<And>e w'. view w' = view w \<Longrightarrow> Q (Inl e) w'"
  shows "wp (list_as as_o C k ns sel) Q w"
  by (auto simp: list_as_def wp_simps intro!: wp_list assms)

lemma wp_create_unit [wp_intros]:
  assumes "\<And>y w'. view w (ref_of x) = None \<Longrightarrow> same_content (admit x) y \<Longrightarrow>
      view w' = (view w)(ref_of x := Some y) \<Longrightarrow> Q (Inr ()) w'"
    and "\<And>e w'. (\<And>r. r \<noteq> ref_of x \<Longrightarrow> view w' r = view w r) \<Longrightarrow>
      (is_already_exists e \<Longrightarrow> view w' = view w \<and> view w (ref_of x) \<noteq> None) \<Longrightarrow> Q (Inl e) w'"
  shows "wp (create C x) Q w"
  unfolding create_def wp_bindE by (rule wp_create) (auto simp: wp_simps intro!: assms)

lemma wp_update_unit [wp_intros]:
  assumes "\<And>y w' old. view w (ref_of x) = Some old \<Longrightarrow> same_content (keep_status old (admit x)) y \<Longrightarrow>
      view w' = (view w)(ref_of x := if m_deletion (meta_of x) \<noteq> None \<and> m_finalizers (meta_of x) = []
                                     then None else Some y) \<Longrightarrow> Q (Inr ()) w'"
    and "\<And>e w'. (\<And>r. r \<noteq> ref_of x \<Longrightarrow> view w' r = view w r) \<Longrightarrow>
      (is_not_found e \<or> is_conflict e \<Longrightarrow> view w' = view w) \<Longrightarrow> Q (Inl e) w'"
  shows "wp (update C x) Q w"
  unfolding update_def wp_bindE by (rule wp_update) (auto simp: wp_simps intro!: assms)

lemma wp_update_as [wp_intros]:
  assumes "\<And>y z w' old. view w (ref_of x) = Some old \<Longrightarrow> same_content (keep_status old (admit x)) y \<Longrightarrow>
      as_o y = Some z \<Longrightarrow>
      view w' = (view w)(ref_of x := if m_deletion (meta_of x) \<noteq> None \<and> m_finalizers (meta_of x) = []
                                     then None else Some y) \<Longrightarrow> Q (Inr z) w'"
    and "\<And>e y w' old. view w (ref_of x) = Some old \<Longrightarrow> same_content (keep_status old (admit x)) y \<Longrightarrow>
      as_o y = None \<Longrightarrow> (\<And>r. r \<noteq> ref_of x \<Longrightarrow> view w' r = view w r) \<Longrightarrow> Q (Inl e) w'"
    and "\<And>e w'. (\<And>r. r \<noteq> ref_of x \<Longrightarrow> view w' r = view w r) \<Longrightarrow>
      (is_not_found e \<or> is_conflict e \<Longrightarrow> view w' = view w) \<Longrightarrow> Q (Inl e) w'"
  shows "wp (update_as as_o C x) Q w"
  unfolding update_as_def wp_bindE
  by (rule wp_update) (auto simp: wp_simps intro: assms split: option.splits)

lemma wp_delete_obj [wp_intros]:
  assumes "\<And>w' old. view w (ref_of x) = Some old \<Longrightarrow> (\<And>r'. r' \<noteq> ref_of x \<Longrightarrow> view w' r' = view w r') \<Longrightarrow>
      (m_finalizers (meta_of old) = [] \<Longrightarrow> view w' (ref_of x) = None) \<Longrightarrow>
      (\<And>y. view w' (ref_of x) = Some y \<Longrightarrow> terminating y) \<Longrightarrow> Q (Inr ()) w'"
    and "\<And>e w'. (\<And>r'. r' \<noteq> ref_of x \<Longrightarrow> view w' r' = view w r') \<Longrightarrow>
      (is_not_found e \<Longrightarrow> view w' = view w \<and> view w (ref_of x) = None) \<Longrightarrow> Q (Inl e) w'"
  shows "wp (delete_obj C x) Q w"
  unfolding delete_obj_def by (rule wp_delete) (auto intro!: assms)

text \<open>A request without a name never succeeds.\<close>

lemma wp_delete_noname:
  assumes "\<And>e w'. view w' = view w \<Longrightarrow> Q (Inl e) w'"
  shows "wp (c_delete C (Ref k ns [])) Q w"
proof (rule wp_delete)
  fix e w'
  assume v: "\<And>r'. r' \<noteq> Ref k ns [] \<Longrightarrow> view w' r' = view w r'"
  have "view w' r = view w r" for r
    using v [of r] by (cases "r = Ref k ns []") (simp_all add: view_noname)
  then show "Q (Inl e) w'" by (intro assms) (simp add: fun_eq_iff)
qed (simp add: view_noname)

lemma kind_of_view: "view w (Ref k ns n) = Some x \<Longrightarrow> kind_of x = k"
  by (drule view_ref) (simp add: ref_of_def)

lemma name_of_view: "view w (Ref k ns n) = Some x \<Longrightarrow> m_namespace (meta_of x) = ns \<and> m_name (meta_of x) = n"
  by (drule view_ref) (simp add: ref_of_def)

end

text \<open>An object that is deleted, or on its way: what a successful \<open>Delete\<close> leaves.\<close>

definition gone :: "('w \<Rightarrow> objref \<Rightarrow> kobj option) \<Rightarrow> 'w \<Rightarrow> objref \<Rightarrow> bool" where
  "gone view w r = (\<forall>x. view w r = Some x \<longrightarrow> terminating x)"

lemma gone_cong: "view w' r = view w r \<Longrightarrow> gone view w' r = gone view w r"
  by (simp add: gone_def)

section \<open>Frames\<close>

text \<open>A run that only touches some objects, and the rules that compose such runs.\<close>

definition only_touches :: "('w \<Rightarrow> objref \<Rightarrow> kobj option) \<Rightarrow> objref set \<Rightarrow> 'w \<Rightarrow> 'w \<Rightarrow> bool" where
  "only_touches view S w w' = (\<forall>q. q \<notin> S \<longrightarrow> view w' q = view w q)"

lemma only_touches_refl [simp]: "only_touches view S w w"
  by (simp add: only_touches_def)

lemma only_touches_view: "view w' = view w \<Longrightarrow> only_touches view S w w'"
  by (simp add: only_touches_def)

lemma only_touches_trans: "only_touches view S w w1 \<Longrightarrow> only_touches view S w1 w2 \<Longrightarrow> only_touches view S w w2"
  by (simp add: only_touches_def)

lemma only_touches_mono: "only_touches view S w w' \<Longrightarrow> S \<subseteq> T \<Longrightarrow> only_touches view T w w'"
  by (auto simp: only_touches_def)

lemma only_touchesI: "r \<in> S \<Longrightarrow> (\<And>q. q \<noteq> r \<Longrightarrow> view w' q = view w q) \<Longrightarrow> only_touches view S w w'"
  unfolding only_touches_def by metis

lemma wp_touches_bindE [touches]:
  assumes "wp m (\<lambda>_. only_touches view S w) w" "\<And>x w1. wp (f x) (\<lambda>_. only_touches view S w1) w1"
  shows "wp (bindE m f) (\<lambda>_. only_touches view S w) w"
  by (rule wp_bindE_rule [OF assms(1)], assumption) (rule wp_mono [OF assms(2)], rule only_touches_trans)

lemma wp_touches_bind [touches]:
  assumes "wp m (\<lambda>_. only_touches view S w) w" "\<And>x w1. wp (f x) (\<lambda>_. only_touches view S w1) w1"
  shows "wp (m \<bind> f) (\<lambda>_. only_touches view S w) w"
  by (rule wp_bind_rule [OF assms(1)]) (rule wp_mono [OF assms(2)], rule only_touches_trans)

lemma wp_touches_ret [touches]: "wp (ret x) (\<lambda>_. only_touches view S w) w"
  by (simp add: wp_simps)

lemma wp_touches_wrapE [touches]: "wp m (\<lambda>_. only_touches view S w) w \<Longrightarrow> wp (wrapE p m) (\<lambda>_. only_touches view S w) w"
  by (simp add: wp_wrapE)

lemma wp_touches_sum [touches]:
  "(\<And>e. wp (f e) (\<lambda>_. only_touches view S w) w) \<Longrightarrow> (\<And>x. wp (g x) (\<lambda>_. only_touches view S w) w) \<Longrightarrow>
   wp (case r of Inl e \<Rightarrow> f e | Inr x \<Rightarrow> g x) (\<lambda>_. only_touches view S w) w"
  by (cases r) auto

lemma wp_touches_if [touches]:
  "(b \<Longrightarrow> wp m (\<lambda>_. only_touches view S w) w) \<Longrightarrow> (\<not> b \<Longrightarrow> wp n (\<lambda>_. only_touches view S w) w) \<Longrightarrow>
   wp (if b then m else n) (\<lambda>_. only_touches view S w) w"
  by simp

lemma wp_touches_option [touches]:
  "wp f (\<lambda>_. only_touches view S w) w \<Longrightarrow> (\<And>x. wp (g x) (\<lambda>_. only_touches view S w) w) \<Longrightarrow>
   wp (case r of None \<Rightarrow> f | Some x \<Rightarrow> g x) (\<lambda>_. only_touches view S w) w"
  by (cases r) auto

lemma wp_touches_prod [touches]:
  "(\<And>x y. wp (f x y) (\<lambda>_. only_touches view S w) w) \<Longrightarrow>
   wp (case p of (x, y) \<Rightarrow> f x y) (\<lambda>_. only_touches view S w) w"
  by (cases p) auto

lemma wp_touches_log [touches]: "wp m (\<lambda>_. only_touches view S w) w \<Longrightarrow> wp (log_error m) (\<lambda>_. only_touches view S w) w"
  by (simp add: wp_log_error)

lemma wp_touches_for_each [touches]:
  assumes "\<And>x w1. x \<in> set xs \<Longrightarrow> wp (f x) (\<lambda>_. only_touches view S w1) w1"
  shows "wp (for_each f xs) (\<lambda>_. only_touches view S w) w"
  using assms
proof (induction xs arbitrary: w)
  case Nil
  then show ?case by (simp add: wp_simps)
next
  case (Cons x xs)
  show ?case unfolding for_each.simps
    by (rule wp_touches_bind) (use Cons in auto)
qed

lemma wp_only_touches: "wp m (\<lambda>_. only_touches view S w) w \<Longrightarrow> run_state m w = (r, w') \<Longrightarrow> q \<notin> S \<Longrightarrow> view w' q = view w q"
  by (drule (1) wp_run) (simp add: only_touches_def)

context kube_api
begin

lemma wp_touches_fetch [touches]: "wp (fetch as_o C r) (\<lambda>_. only_touches view S w) w"
  by (rule wp_fetch) (simp_all add: only_touches_view)

lemma wp_touches_list [touches]: "wp (list_as as_o C k ns sel) (\<lambda>_. only_touches view S w) w"
  by (rule wp_list_as) (simp_all add: only_touches_view)

lemma wp_touches_create [touches]: "ref_of x \<in> S \<Longrightarrow> wp (create C x) (\<lambda>_. only_touches view S w) w"
  by (rule wp_create_unit) (erule only_touchesI, simp del: ref_of_simps)+

lemma wp_touches_update [touches]: "ref_of x \<in> S \<Longrightarrow> wp (update C x) (\<lambda>_. only_touches view S w) w"
  by (rule wp_update_unit) (erule only_touchesI, simp del: ref_of_simps)+

lemma wp_touches_update_as [touches]: "ref_of x \<in> S \<Longrightarrow> wp (update_as as_o C x) (\<lambda>_. only_touches view S w) w"
  by (rule wp_update_as) (erule only_touchesI, simp del: ref_of_simps)+

lemma wp_touches_status [touches]: "ref_of x \<in> S \<Longrightarrow> wp (c_update_status C x) (\<lambda>_. only_touches view S w) w"
  by (rule wp_update_status) (erule only_touchesI, simp del: ref_of_simps)+

lemma wp_touches_delete [touches]: "r \<in> S \<Longrightarrow> wp (c_delete C r) (\<lambda>_. only_touches view S w) w"
  by (rule wp_delete) (erule only_touchesI, simp del: ref_of_simps)+

lemma wp_touches_delete_obj [touches]: "ref_of x \<in> S \<Longrightarrow> wp (delete_obj C x) (\<lambda>_. only_touches view S w) w"
  unfolding delete_obj_def by (rule wp_touches_delete)

lemma wp_touches_patch [touches]: "r \<in> S \<Longrightarrow> wp (c_patch C r j) (\<lambda>_. only_touches view S w) w"
  by (rule wp_patch) (erule only_touchesI, simp del: ref_of_simps)+

lemma wp_touches_now [touches]: "wp (c_now C) (\<lambda>_. only_touches view S w) w"
  by (rule wp_now) (simp add: only_touches_view)

lemma wp_touches_now_text [touches]: "wp (c_now_text C) (\<lambda>_. only_touches view S w) w"
  by (rule wp_now_text) (simp add: only_touches_view)

end

section \<open>A server that answers\<close>

text \<open>
  For what the controllers reach when nothing goes wrong: a world is healthy when every request that
  Kubernetes would accept succeeds, and stays healthy through such requests.
\<close>

locale reliable_api = kube_api C view for C :: "'w client" and view +
  fixes healthy :: "'w \<Rightarrow> bool"
  assumes get_healthy: "healthy w \<Longrightarrow> run_state (c_get C r) w = (a, w') \<Longrightarrow>
      healthy w' \<and> (case view w r of Some x \<Rightarrow> a = Inr x | None \<Rightarrow> (\<exists>e. a = Inl e \<and> is_not_found e))"
    and list_healthy: "healthy w \<Longrightarrow> run_state (c_list C k scope sel) w = (xs, w') \<Longrightarrow> healthy w' \<and> (\<exists>ys. xs = Inr ys)"
    and create_healthy: "healthy w \<Longrightarrow> view w (ref_of x) = None \<Longrightarrow> m_name (meta_of x) \<noteq> [] \<Longrightarrow>
      run_state (c_create C x) w = (a, w') \<Longrightarrow> healthy w' \<and> (\<exists>y. a = Inr y)"
    and update_healthy: "healthy w \<Longrightarrow> view w (ref_of x) \<noteq> None \<Longrightarrow>
      run_state (c_update C x) w = (a, w') \<Longrightarrow> healthy w' \<and> (\<exists>y. a = Inr y)"
    and status_healthy: "healthy w \<Longrightarrow> view w (ref_of x) \<noteq> None \<Longrightarrow>
      run_state (c_update_status C x) w = (a, w') \<Longrightarrow> healthy w' \<and> (\<exists>y. a = Inr y)"
    and delete_healthy: "healthy w \<Longrightarrow> view w r \<noteq> None \<Longrightarrow>
      run_state (c_delete C r) w = (u, w') \<Longrightarrow> healthy w' \<and> u = Inr ()"
    and patch_healthy: "healthy w \<Longrightarrow> view w r \<noteq> None \<Longrightarrow>
      run_state (c_patch C r j) w = (u, w') \<Longrightarrow> healthy w' \<and> u = Inr ()"
    and now_healthy: "healthy w \<Longrightarrow> run_state (c_now_text C) w = (t, w') \<Longrightarrow> healthy w'"
begin

lemma wp_get_healthy:
  assumes "healthy w"
    and "\<And>x w'. healthy w' \<Longrightarrow> view w' = view w \<Longrightarrow> view w r = Some x \<Longrightarrow> ref_of x = r \<Longrightarrow> Q (Inr x) w'"
    and "\<And>e w'. healthy w' \<Longrightarrow> view w' = view w \<Longrightarrow> view w r = None \<Longrightarrow> is_not_found e \<Longrightarrow> Q (Inl e) w'"
  shows "wp (c_get C r) Q w"
proof (rule wpI)
  fix a w' assume run: "run_state (c_get C r) w = (a, w')"
  have "view w' = view w"
    using run by (cases a) (auto dest: get_ok get_err)
  with get_healthy [OF assms(1) run] show "Q a w'"
    by (cases "view w r") (auto intro!: assms(2,3) dest: view_ref)
qed

lemma wp_fetch_healthy:
  assumes "healthy w"
    and "\<And>x y w'. healthy w' \<Longrightarrow> view w' = view w \<Longrightarrow> view w r = Some x \<Longrightarrow> ref_of x = r \<Longrightarrow> as_o x = Some y \<Longrightarrow> Q (Inr y) w'"
    and "\<And>e w'. healthy w' \<Longrightarrow> view w' = view w \<Longrightarrow> view w r = None \<Longrightarrow> is_not_found e \<Longrightarrow> Q (Inl e) w'"
    and "\<And>x. view w r = Some x \<Longrightarrow> \<exists>y. as_o x = Some y"
  shows "wp (fetch as_o C r) Q w"
  unfolding fetch_def wp_bindE
  by (rule wp_get_healthy) (use assms in \<open>auto simp: wp_simps split: option.splits\<close>)

lemma wp_list_healthy:
  assumes "healthy w"
    and "\<And>xs w'. healthy w' \<Longrightarrow> view w' = view w \<Longrightarrow> distinct (map ref_of xs) \<Longrightarrow>
      (\<And>x. x \<in> set xs \<longleftrightarrow> view w (ref_of x) = Some x \<and> kind_of x = k \<and> in_ns ns (m_namespace (meta_of x)) \<and>
         labels_match sel (m_labels (meta_of x))) \<Longrightarrow> Q (Inr (List.map_filter as_o xs)) w'"
  shows "wp (list_as as_o C k ns sel) Q w"
  unfolding list_as_def wp_bindE
proof (rule wpI)
  fix a w' assume run: "run_state (c_list C k ns sel) w = (a, w')"
  from list_healthy [OF assms(1) run] obtain xs where xs: "healthy w'" "a = Inr xs" by blast
  note ok = list_ok [OF run [unfolded xs(2)]]
  have "Q (Inr (List.map_filter as_o xs)) w'"
    by (rule assms(2) [OF xs(1)]) (use ok in auto)
  then show "case a of Inl e \<Rightarrow> Q (Inl e) w' | Inr xs \<Rightarrow> wp (ret (Inr (List.map_filter as_o xs))) Q w'"
    by (simp add: xs wp_ret)
qed

lemma wp_create_healthy:
  assumes "healthy w" "view w (ref_of x) = None" "m_name (meta_of x) \<noteq> []"
    and "\<And>y w'. healthy w' \<Longrightarrow> same_content (admit x) y \<Longrightarrow> view w' = (view w)(ref_of x := Some y) \<Longrightarrow> Q (Inr ()) w'"
  shows "wp (create C x) Q w"
  unfolding create_def wp_bindE
proof (rule wpI)
  fix a w' assume run: "run_state (c_create C x) w = (a, w')"
  from create_healthy [OF assms(1,2,3) run] obtain y where "healthy w'" "a = Inr y" by blast
  with create_ok [of x w y w'] run show "case a of Inl e \<Rightarrow> Q (Inl e) w' | Inr y \<Rightarrow> wp (ret (Inr ())) Q w'"
    by (auto simp: wp_simps intro: assms(4))
qed

lemma wp_update_healthy:
  assumes "healthy w" "view w (ref_of x) \<noteq> None"
    and "\<And>y w' old. healthy w' \<Longrightarrow> view w (ref_of x) = Some old \<Longrightarrow> same_content (keep_status old (admit x)) y \<Longrightarrow>
      view w' = (view w)(ref_of x := if m_deletion (meta_of x) \<noteq> None \<and> m_finalizers (meta_of x) = []
                                     then None else Some y) \<Longrightarrow> Q (Inr ()) w'"
  shows "wp (update C x) Q w"
  unfolding update_def wp_bindE
proof (rule wpI)
  fix a w' assume run: "run_state (c_update C x) w = (a, w')"
  from update_healthy [OF assms(1,2) run] obtain y where y: "healthy w'" "a = Inr y" by blast
  with update_ok [of x w y w'] run show "case a of Inl e \<Rightarrow> Q (Inl e) w' | Inr y \<Rightarrow> wp (ret (Inr ())) Q w'"
    by (auto simp: wp_simps intro: assms(3))
qed

lemma wp_delete_healthy:
  assumes "healthy w" "view w r \<noteq> None"
    and "\<And>w'. healthy w' \<Longrightarrow> (\<And>r'. r' \<noteq> r \<Longrightarrow> view w' r' = view w r') \<Longrightarrow> gone view w' r \<Longrightarrow> Q (Inr ()) w'"
  shows "wp (c_delete C r) Q w"
proof (rule wpI)
  fix a w' assume run: "run_state (c_delete C r) w = (a, w')"
  from delete_healthy [OF assms(1,2) run] have h: "healthy w'" "a = Inr ()" by auto
  then obtain old where old: "view w' = (view w)(r := if m_finalizers (meta_of old) = [] then None else view w' r)"
      "\<forall>y. view w' r = Some y \<longrightarrow> terminating y"
    using delete_ok [of r w "()" w'] run by blast
  have "view w' r' = view w r'" if "r' \<noteq> r" for r'
    using that by (subst old(1)) simp
  with h old(2) show "Q a w'" by (auto simp: gone_def intro!: assms(3))
qed

end

text \<open>What a run of deletions does on such a server: it takes away the objects \<open>S\<close> and touches no other.\<close>

definition removes :: "('w \<Rightarrow> objref \<Rightarrow> kobj option) \<Rightarrow> ('w \<Rightarrow> bool) \<Rightarrow> objref set \<Rightarrow> 'w \<Rightarrow> 'w \<Rightarrow> bool" where
  "removes view healthy S w w' = (healthy w' \<and> only_touches view S w w' \<and> (\<forall>q \<in> S. gone view w' q))"

lemma gone_other: "gone view w q \<Longrightarrow> only_touches view S w w' \<Longrightarrow> q \<notin> S \<Longrightarrow> gone view w' q"
  by (simp add: only_touches_def gone_def)

lemma removes_union:
  assumes "removes view healthy S w w1" "removes view healthy T w1 w2"
  shows "removes view healthy (S \<union> T) w w2"
proof -
  have "gone view w2 q" if "q \<in> S \<union> T" for q
    using that assms gone_other [of view w1 q T w2] by (cases "q \<in> T") (auto simp: removes_def)
  with assms show ?thesis by (auto simp: removes_def only_touches_def)
qed

context reliable_api
begin

lemma wp_delete_found:
  assumes "healthy w" "view w (ref_of x) \<noteq> None"
  shows "wp (delete_obj C x) (\<lambda>r w'. r = Inr () \<and> removes view healthy {ref_of x} w w') w"
  unfolding delete_obj_def
  by (rule wp_delete_healthy [OF assms]) (auto simp: removes_def only_touches_def simp del: ref_of_simps)

lemma wp_delete_all:
  assumes "healthy w" "distinct (map ref_of xs)" "\<And>x. x \<in> set xs \<Longrightarrow> view w (ref_of x) \<noteq> None"
  shows "wp (for_each (\<lambda>x. log_error (delete_obj C x)) xs) (\<lambda>_. removes view healthy (ref_of ` set xs) w) w"
  using assms
proof (induction xs arbitrary: w)
  case Nil
  then show ?case by (simp add: wp_ret removes_def)
next
  case (Cons x xs)
  have "wp (log_error (delete_obj C x)) (\<lambda>_. removes view healthy {ref_of x} w) w"
    unfolding wp_log_error by (rule wp_mono [OF wp_delete_found]) (use Cons.prems in auto)
  then show ?case
    unfolding for_each.simps
  proof (rule wp_bind_rule)
    fix u :: unit and w1 assume r: "removes view healthy {ref_of x} w w1"
    have "view w1 (ref_of y) \<noteq> None" if "y \<in> set xs" for y
      using r Cons.prems(2) Cons.prems(3) [of y] that by (auto simp: removes_def only_touches_def image_iff)
    then have "wp (for_each (\<lambda>x. log_error (delete_obj C x)) xs) (\<lambda>_. removes view healthy (ref_of ` set xs) w1) w1"
      using r Cons.prems(2) by (intro Cons.IH) (auto simp: removes_def)
    then show "wp (for_each (\<lambda>x. log_error (delete_obj C x)) xs) (\<lambda>_. removes view healthy (ref_of ` set (x # xs)) w) w1"
      by (rule wp_mono) (use removes_union [OF r] in simp)
  qed
qed

end

end
