(* ===== verification/Mem_Client.thy ===== *)
theory Mem_Client
  imports Kube_Client
begin

text \<open>
  A client over an in-memory store, in the role the fake client of controller-runtime has in the
  repository's tests: it shows that the laws of \<open>kube_api\<close> are consistent, and the witnesses run the
  controllers on it. A list of planned faults makes any call fail with a server error.
\<close>

record mem =
  mem_objs :: "kobj list"
  mem_faults :: "string option list"
  mem_clock :: string
  mem_nanos :: int

definition find_obj :: "objref \<Rightarrow> kobj list \<Rightarrow> kobj option" where
  "find_obj r xs = (if ref_name r = [] then None else find (\<lambda>x. ref_of x = r) xs)"

definition mem_view :: "mem \<Rightarrow> objref \<Rightarrow> kobj option" where
  "mem_view w r = find_obj r (mem_objs w)"

text \<open>One request: the next planned fault, or the operation.\<close>

definition mem_call :: "(kobj list \<Rightarrow> 'a result \<times> kobj list) \<Rightarrow> (mem, 'a result) state" where
  "mem_call f = State (\<lambda>w. case mem_faults w of
       Some m # fs \<Rightarrow> (Inl (ApiStatus SOther m), w\<lparr>mem_faults := fs\<rparr>)
     | None # fs \<Rightarrow> (case f (mem_objs w) of (r, xs) \<Rightarrow> (r, w\<lparr>mem_objs := xs, mem_faults := fs\<rparr>))
     | [] \<Rightarrow> (case f (mem_objs w) of (r, xs) \<Rightarrow> (r, w\<lparr>mem_objs := xs\<rparr>)))"

definition err_not_found :: go_error where
  "err_not_found = ApiStatus SNotFound ''not found''"

definition stamp :: "kobj \<Rightarrow> kobj" where
  "stamp x = map_meta (\<lambda>m. m\<lparr>m_resource_version := ''1''\<rparr>) x"

definition mem_get :: "objref \<Rightarrow> (mem, kobj result) state" where
  "mem_get r = mem_call (\<lambda>xs. (case find_obj r xs of None \<Rightarrow> Inl err_not_found | Some x \<Rightarrow> Inr x, xs))"

text \<open>The objects of the store, one per reference.\<close>

fun first_refs :: "kobj list \<Rightarrow> kobj list" where
  "first_refs [] = []"
| "first_refs (x # xs) = x # filter (\<lambda>y. ref_of y \<noteq> ref_of x) (first_refs xs)"

definition mem_list :: "kind \<Rightarrow> string option \<Rightarrow> string gomap \<Rightarrow> (mem, kobj list result) state" where
  "mem_list k ns sel = mem_call (\<lambda>xs. (Inr (sort_key ref_of (filter (\<lambda>x. kind_of x = k \<and> ref_name (ref_of x) \<noteq> [] \<and>
     in_ns ns (m_namespace (meta_of x)) \<and> labels_match sel (m_labels (meta_of x))) (first_refs xs))), xs))"

definition mem_create :: "kobj \<Rightarrow> (mem, kobj result) state" where
  "mem_create x = mem_call (\<lambda>xs.
     if ref_name (ref_of x) = [] then (Inl (ApiStatus SOther ''name is required''), xs)
     else case find_obj (ref_of x) xs of
       Some _ \<Rightarrow> (Inl (ApiStatus SAlreadyExists ''already exists''), xs)
     | None \<Rightarrow> (let y = stamp (admit x) in (Inr y, y # xs)))"

definition remove_ref :: "objref \<Rightarrow> kobj list \<Rightarrow> kobj list" where
  "remove_ref r xs = filter (\<lambda>x. ref_of x \<noteq> r) xs"

definition mem_update :: "kobj \<Rightarrow> (mem, kobj result) state" where
  "mem_update x = mem_call (\<lambda>xs. case find_obj (ref_of x) xs of
       None \<Rightarrow> (Inl err_not_found, xs)
     | Some old \<Rightarrow> (let y = stamp (keep_status old (admit x)) in
         (Inr y, if m_deletion (meta_of x) \<noteq> None \<and> m_finalizers (meta_of x) = []
                 then remove_ref (ref_of x) xs else y # remove_ref (ref_of x) xs)))"

definition mem_update_status :: "kobj \<Rightarrow> (mem, kobj result) state" where
  "mem_update_status x = mem_call (\<lambda>xs. case find_obj (ref_of x) xs of
       None \<Rightarrow> (Inl err_not_found, xs)
     | Some old \<Rightarrow> (let y = stamp (put_status old x) in (Inr y, y # remove_ref (ref_of x) xs)))"

definition mem_delete :: "objref \<Rightarrow> (mem, unit result) state" where
  "mem_delete r = mem_call (\<lambda>xs. case find_obj r xs of
       None \<Rightarrow> (Inl err_not_found, xs)
     | Some old \<Rightarrow> (Inr (), if m_finalizers (meta_of old) = [] then remove_ref r xs
         else map_meta (\<lambda>m. m\<lparr>m_deletion := Some ''now''\<rparr>) old # remove_ref r xs))"

text \<open>The annotations of a merge patch of the pod template, if the document has that shape.\<close>

fun string_entries :: "fields \<Rightarrow> string gomap" where
  "string_entries [] = []"
| "string_entries ((k, v) # kvs) = (case v of JStr s \<Rightarrow> (k, s) # string_entries kvs | _ \<Rightarrow> string_entries kvs)"

definition template_annotations :: "json \<Rightarrow> string gomap" where
  "template_annotations j = (case as_map (get_nested [''spec'', ''template'', ''metadata'', ''annotations''] j) of
     None \<Rightarrow> [] | Some m \<Rightarrow> string_entries m)"

fun patch_obj :: "json \<Rightarrow> kobj \<Rightarrow> kobj" where
  "patch_obj j (ODeployment d) = ODeployment (patch_annotations (template_annotations j) d)"
| "patch_obj j x = x"

definition mem_patch :: "objref \<Rightarrow> json \<Rightarrow> (mem, unit result) state" where
  "mem_patch r j = mem_call (\<lambda>xs. case find_obj r xs of
       None \<Rightarrow> (Inl err_not_found, xs)
     | Some old \<Rightarrow> (Inr (), stamp (patch_obj j old) # remove_ref r xs))"

definition mem_client :: "mem client" where
  "mem_client = \<lparr>c_get = mem_get, c_list = mem_list, c_create = mem_create, c_update = mem_update,
     c_update_status = mem_update_status, c_delete = mem_delete, c_patch = mem_patch,
     c_now_text = State (\<lambda>w. (mem_clock w, w)), c_now = State (\<lambda>w. (mem_nanos w, w))\<rparr>"

definition mem_of :: "kobj list \<Rightarrow> mem" where
  "mem_of xs = \<lparr>mem_objs = xs, mem_faults = [], mem_clock = ''2025-01-01T00:00:00Z'', mem_nanos = 0\<rparr>"

section \<open>The store obeys the laws\<close>

lemma mem_client_sel [simp]:
  "c_get mem_client = mem_get" "c_list mem_client = mem_list" "c_create mem_client = mem_create"
  "c_update mem_client = mem_update" "c_update_status mem_client = mem_update_status"
  "c_delete mem_client = mem_delete" "c_patch mem_client = mem_patch"
  "c_now_text mem_client = State (\<lambda>w. (mem_clock w, w))" "c_now mem_client = State (\<lambda>w. (mem_nanos w, w))"
  by (simp_all add: mem_client_def)

lemma run_mem_call: "run_state (mem_call f) w = (r, w') \<Longrightarrow>
    (\<exists>m. r = Inl (ApiStatus SOther m) \<and> mem_objs w' = mem_objs w) \<or> r = fst (f (mem_objs w)) \<and> mem_objs w' = snd (f (mem_objs w))"
  by (auto simp: mem_call_def split: list.splits option.splits prod.splits)

lemma find_first: "find P xs = Some x \<Longrightarrow> P x"
  by (induction xs) (auto split: if_splits)

lemma find_obj_ref: "find_obj r xs = Some x \<Longrightarrow> ref_of x = r"
  by (auto simp: find_obj_def dest: find_first split: if_splits)

lemma find_obj_Cons: "find_obj r (x # xs) = (if ref_of x = r \<and> ref_name r \<noteq> [] then Some x else find_obj r xs)"
  by (auto simp: find_obj_def)

lemma find_obj_remove: "find_obj r' (remove_ref r xs) = (if r' = r then None else find_obj r' xs)"
proof -
  have "find (\<lambda>x. ref_of x = r') (filter (\<lambda>x. ref_of x \<noteq> r) xs) =
      (if r' = r then None else find (\<lambda>x. ref_of x = r') xs)"
    by (induction xs) auto
  then show ?thesis by (auto simp: find_obj_def remove_ref_def)
qed

lemma distinct_first_refs: "distinct (map ref_of (first_refs xs))"
proof (induction xs)
  case (Cons x xs)
  have "distinct (map ref_of (filter (\<lambda>y. ref_of y \<noteq> ref_of x) (first_refs xs)))"
    using Cons.IH by (simp add: distinct_map_filter)
  then show ?case by auto
qed simp

lemma set_first_refs: "x \<in> set (first_refs xs) \<longleftrightarrow> find (\<lambda>y. ref_of y = ref_of x) xs = Some x"
  by (induction xs) auto

lemma ref_of_stamp [simp]: "ref_of (stamp x) = ref_of x"
  by (simp add: stamp_def)

lemma same_content_stamp [simp]: "same_content x (stamp x)"
  unfolding same_content_def stamp_def
  by (rule exI [of _ "m_uid (meta_of x)"], rule exI [of _ "''1''"], rule exI [of _ "m_generation (meta_of x)"],
      cases x) simp_all

lemma template_annotations_patch [simp]: "template_annotations (annotations_patch kvs) = kvs"
proof -
  have "string_entries (map (\<lambda>(k, v). (k, JStr v)) kvs) = kvs"
    by (induction kvs) auto
  then show ?thesis by (simp add: template_annotations_def annotations_patch_def)
qed

lemma ref_of_keep_status [simp]: "ref_of (keep_status old x) = ref_of x"
  by (simp add: ref_of_def)

lemma ref_of_put_status [simp]: "ref_of (put_status old x) = ref_of old"
  by (simp add: ref_of_def)

lemma ref_of_patch_obj [simp]: "ref_of (patch_obj j x) = ref_of x"
  by (cases x) (auto simp: ref_of_def patch_annotations_def)

lemma find_obj_name: "find_obj r xs = Some x \<Longrightarrow> ref_name r \<noteq> []"
  by (auto simp: find_obj_def split: if_splits)

lemma find_obj_SomeD: "find_obj r xs = Some x \<Longrightarrow> ref_of x = r \<and> ref_name r \<noteq> []"
  by (simp add: find_obj_ref find_obj_name)

lemmas mem_defs = mem_get_def mem_list_def mem_create_def mem_update_def mem_update_status_def
  mem_delete_def mem_patch_def

lemma distinct_map_sort_key: "distinct (map f (sort_key f xs)) = distinct (map f xs)"
  by (simp add: distinct_map)

interpretation mem: kube_api mem_client mem_view
proof (unfold_locales, goal_cases)
  case (1 w r x)
  then show ?case by (simp add: mem_view_def find_obj_ref)
next
  case (2 w k ns)
  then show ?case by (simp add: mem_view_def find_obj_def)
next
  case (3 r w x w')
  then show ?case by (auto simp: mem_defs mem_view_def fun_eq_iff dest!: run_mem_call split: option.splits)
next
  case (4 r w e w')
  then show ?case
    by (auto simp: mem_defs mem_view_def fun_eq_iff dest!: run_mem_call split: option.splits)
next
  case (5 k scope sel w xs w')
  then have xs: "xs = sort_key ref_of (filter (\<lambda>x. kind_of x = k \<and> ref_name (ref_of x) \<noteq> [] \<and>
      in_ns scope (m_namespace (meta_of x)) \<and> labels_match sel (m_labels (meta_of x))) (first_refs (mem_objs w)))"
    and w': "mem_objs w' = mem_objs w"
    by (auto simp: mem_defs dest!: run_mem_call)
  show ?case
    using distinct_first_refs [of "mem_objs w"]
    by (auto simp: xs w' mem_view_def fun_eq_iff set_first_refs distinct_map_filter distinct_map_sort_key find_obj_def)
next
  case (6 k scope sel w e w')
  then show ?case by (auto simp: mem_defs mem_view_def fun_eq_iff dest!: run_mem_call)
next
  case (7 x w y w')
  then show ?case
    by (auto simp: mem_defs mem_view_def fun_eq_iff Let_def find_obj_Cons dest!: run_mem_call
        split: option.splits if_splits)
next
  case (8 x w e w')
  then show ?case
    by (auto simp: mem_defs mem_view_def fun_eq_iff Let_def dest!: run_mem_call
        split: option.splits if_splits)
next
  case (9 x w y w')
  then show ?case
    by (auto simp: mem_defs mem_view_def fun_eq_iff Let_def find_obj_Cons find_obj_remove
        dest!: run_mem_call split: option.splits if_splits dest: find_obj_SomeD)
next
  case (10 x w e w')
  then show ?case
    by (auto simp: mem_defs mem_view_def fun_eq_iff Let_def dest!: run_mem_call
        split: option.splits if_splits)
next
  case (11 x w y w')
  then show ?case
    by (auto simp: mem_defs mem_view_def fun_eq_iff Let_def find_obj_Cons find_obj_remove
        dest!: run_mem_call split: option.splits if_splits dest: find_obj_SomeD)
next
  case (12 x w e w')
  then show ?case
    by (auto simp: mem_defs mem_view_def fun_eq_iff Let_def dest!: run_mem_call
        split: option.splits if_splits)
next
  case (13 r w u w')
  then show ?case
    by (auto simp: mem_defs mem_view_def fun_eq_iff Let_def find_obj_Cons find_obj_remove terminating_def
        dest!: run_mem_call split: option.splits if_splits dest: find_obj_SomeD)
next
  case (14 r w e w')
  then show ?case
    by (auto simp: mem_defs mem_view_def fun_eq_iff Let_def dest!: run_mem_call
        split: option.splits if_splits)
next
  case (15 r j w u w')
  then show ?case
    by (auto simp: mem_defs mem_view_def fun_eq_iff Let_def find_obj_Cons find_obj_remove
        dest!: run_mem_call split: option.splits if_splits)
      (auto dest!: find_obj_SomeD)
next
  case (16 r j w e w')
  then show ?case
    by (auto simp: mem_defs mem_view_def fun_eq_iff Let_def dest!: run_mem_call
        split: option.splits if_splits)
qed (auto)

definition mem_healthy :: "mem \<Rightarrow> bool" where
  "mem_healthy w = (mem_faults w = [])"

lemma run_mem_call_healthy: "run_state (mem_call f) w = (r, w') \<Longrightarrow> mem_healthy w \<Longrightarrow>
    mem_healthy w' \<and> r = fst (f (mem_objs w)) \<and> mem_objs w' = snd (f (mem_objs w))"
  by (auto simp: mem_call_def mem_healthy_def split: prod.splits)

interpretation mem_ok: reliable_api mem_client mem_view mem_healthy
proof (unfold_locales, goal_cases)
  case (1 w r a w')
  then show ?case
    by (cases "find_obj r (mem_objs w)")
      (auto simp: mem_defs mem_view_def err_not_found_def dest!: run_mem_call_healthy)
next
  case (2 w k scope sel xs w')
  then show ?case by (auto simp: mem_defs dest!: run_mem_call_healthy)
next
  case (3 w x a w')
  then show ?case by (auto simp: mem_defs mem_view_def Let_def ref_of_def dest!: run_mem_call_healthy)
next
  case (4 w x a w')
  then show ?case by (auto simp: mem_defs mem_view_def Let_def dest!: run_mem_call_healthy)
next
  case (5 w x a w')
  then show ?case by (auto simp: mem_defs mem_view_def Let_def dest!: run_mem_call_healthy)
next
  case (6 w r u w')
  then show ?case by (auto simp: mem_defs mem_view_def dest!: run_mem_call_healthy)
next
  case (7 w r j u w')
  then show ?case by (auto simp: mem_defs mem_view_def dest!: run_mem_call_healthy)
qed auto

lemma mem_reliable_api: "reliable_api mem_client mem_view mem_healthy"
  by (rule mem_ok.reliable_api_axioms)

lemma mem_kube_api: "kube_api mem_client mem_view"
  by (rule mem.kube_api_axioms)

end
