(* ===== verification/App_Controller.thy ===== *)
theory App_Controller
  imports App_Helper Mem_Client
begin

text \<open>
  \<open>internal/basic/application/application_controller.go\<close>: the controller that wraps an Application
  in a ManifestWork. \<open>reconcile_application\<close> is the method \<open>Reconcile\<close> of \<open>ApplicationReconciler\<close>,
  with its branches as definitions of their own: the Application is gone, is being deleted, or lives.
  \<open>ctrl.Result\<close> is always empty, so the outcome is the returned error or nothing.
\<close>

section \<open>Event filter\<close>

text \<open>The three predicate functions test the object of the event (the new one for an update).\<close>

datatype 'o event = CreateEvent 'o | UpdateEvent 'o 'o | DeleteEvent 'o

fun application_predicate :: "unstructured event \<Rightarrow> bool" where
  "application_predicate (UpdateEvent _ newObj) =
     (containsValidPullLabel (m_labels (u_meta newObj)) \<and> containsValidPullAnnotation (m_annotations (u_meta newObj)))"
| "application_predicate (CreateEvent obj) =
     (containsValidPullLabel (m_labels (u_meta obj)) \<and> containsValidPullAnnotation (m_annotations (u_meta obj)))"
| "application_predicate (DeleteEvent obj) =
     (containsValidPullLabel (m_labels (u_meta obj)) \<and> containsValidPullAnnotation (m_annotations (u_meta obj)))"

section \<open>The Application is gone\<close>

definition work_belongs_to :: "string \<Rightarrow> string \<Rightarrow> manifest_work \<Rightarrow> bool" where
  "work_belongs_to app_ns app_name work =
     (containsValidManifestWorkHubApplicationAnnotations work \<and>
      mget (m_annotations (mw_meta work)) AnnotationKeyHubApplicationNamespace = app_ns \<and>
      mget (m_annotations (mw_meta work)) AnnotationKeyHubApplicationName = app_name)"

text \<open>The loop deletes one work after the other and stops at the first error but NotFound.\<close>

fun delete_works :: "'w client \<Rightarrow> manifest_work list \<Rightarrow> ('w, unit result) state" where
  "delete_works C [] = ret (Inr ())"
| "delete_works C (work # rest) = do {
     r \<leftarrow> delete_obj C (OManifestWork work);
     (case r of
        Inl e \<Rightarrow> if is_not_found e then delete_works C rest else ret (Inl e)
      | Inr _ \<Rightarrow> delete_works C rest) }"

definition cleanupManifestWorksForDeletedApplication :: "'w client \<Rightarrow> string \<Rightarrow> string \<Rightarrow> ('w, unit result) state" where
  "cleanupManifestWorksForDeletedApplication C app_ns app_name =
     bindE (list_as as_work C KManifestWork None [(LabelKeyPull, ''true'')]) (\<lambda>works.
       let worksToDelete = filter (work_belongs_to app_ns app_name) works in
       if length worksToDelete = 0 then ret (Inr ())
       else delete_works C worksToDelete)"

section \<open>The Application is being deleted\<close>

text \<open>
  The loop over the finalizers removes an element in place and steps back, so the index does not
  move when an element goes: \<open>f = append(f[:i], f[i+1:]...); i--\<close> and the \<open>i++\<close> of the loop.
\<close>

function remove_finalizer_loop :: "string list \<Rightarrow> nat \<Rightarrow> string list" where
  "remove_finalizer_loop f i =
     (if i < length f then
        (if f ! i = ResourcesFinalizerName then remove_finalizer_loop (take i f @ drop (i + 1) f) i
         else remove_finalizer_loop f (i + 1))
      else f)"
  by pat_completeness auto
termination
  by (relation "measure (\<lambda>(f, i). length f - i)") auto

declare remove_finalizer_loop.simps [simp del]

definition without_finalizer :: "unstructured \<Rightarrow> unstructured" where
  "without_finalizer app =
     (if length (m_finalizers (u_meta app)) \<noteq> 0
      then app\<lparr>u_meta := (u_meta app)\<lparr>m_finalizers := remove_finalizer_loop (m_finalizers (u_meta app)) 0\<rparr>\<rparr>
      else app)"

text \<open>
  When the work is not found the finalizer removal is committed and the code goes on with the
  variable \<open>work\<close> as it was declared, a ManifestWork without a name.
\<close>

definition delete_work_and_commit :: "'w client \<Rightarrow> objref \<Rightarrow> unstructured \<Rightarrow> ('w, unit result) state" where
  "delete_work_and_commit C work application =
     bindE (c_delete C work) (\<lambda>_. update C (OUnstr application))"

definition reconcile_deleted :: "'w client \<Rightarrow> unstructured \<Rightarrow> string \<Rightarrow> string \<Rightarrow> ('w, unit result) state" where
  "reconcile_deleted C app managedClusterName mwName = do {
     let application = without_finalizer app;
     r \<leftarrow> fetch as_work C (Ref KManifestWork managedClusterName mwName);
     (case r of
        Inl e \<Rightarrow>
          if is_not_found e then
            bindE (update_as as_unstr C (OUnstr application)) (\<lambda>application.
              delete_work_and_commit C (Ref KManifestWork '''' '''') application)
          else ret (Inl e)
      | Inr work \<Rightarrow> delete_work_and_commit C (ref_of (OManifestWork work)) application) }"

section \<open>The Application lives\<close>

definition create_or_update_work :: "'w client \<Rightarrow> manifest_work \<Rightarrow> ('w, unit result) state" where
  "create_or_update_work C w = do {
     r \<leftarrow> fetch as_work C (ref_of (OManifestWork w));
     (case r of
        Inl e \<Rightarrow> if is_not_found e then create C (OManifestWork w) else ret (Inl e)
      | Inr mw \<Rightarrow> update C (OManifestWork (mw
          \<lparr>mw_spec := mw_spec w,
           mw_meta := (mw_meta mw)\<lparr>m_annotations := m_annotations (mw_meta w), m_labels := m_labels (mw_meta w)\<rparr>\<rparr>))) }"

definition remove_operation :: "'w client \<Rightarrow> unstructured \<Rightarrow> ('w, unit result) state" where
  "remove_operation C application =
     (case map_of (u_fields application) ''operation'' of
        Some _ \<Rightarrow> update C (OUnstr (application\<lparr>u_fields := AList.delete ''operation'' (u_fields application)\<rparr>))
      | None \<Rightarrow> ret (Inr ()))"

definition reconcile_live :: "'w client \<Rightarrow> unstructured \<Rightarrow> string \<Rightarrow> string \<Rightarrow> ('w, unit result) state" where
  "reconcile_live C application managedClusterName mwName =
     bindE (fetch as_managed_cluster C (Ref KManagedCluster '''' managedClusterName)) (\<lambda>_.
     bindE (create_or_update_work C (generateManifestWork mwName managedClusterName application)) (\<lambda>_.
     remove_operation C application))"

definition reconcile_application :: "'w client \<Rightarrow> string \<Rightarrow> string \<Rightarrow> ('w, unit result) state" where
  "reconcile_application C ns name = do {
     r \<leftarrow> fetch as_unstr C (Ref application_gvk ns name);
     (case r of
        Inl e \<Rightarrow> if is_not_found e then cleanupManifestWorksForDeletedApplication C ns name else ret (Inl e)
      | Inr application \<Rightarrow>
          let managedClusterName = mget (m_annotations (u_meta application)) AnnotationKeyOCMManagedCluster in
          (case generateManifestWorkName (m_name (u_meta application)) (m_uid (u_meta application)) of
             Inl p \<Rightarrow> ret (Inl p)
           | Inr mwName \<Rightarrow>
               if m_deletion (u_meta application) \<noteq> None
               then reconcile_deleted C application managedClusterName mwName
               else reconcile_live C application managedClusterName mwName)) }"

section \<open>Lemmas\<close>

lemma remove_finalizer_loop_filter:
  "i \<le> length f \<Longrightarrow> remove_finalizer_loop f i = take i f @ filter (\<lambda>x. x \<noteq> ResourcesFinalizerName) (drop i f)"
proof (induction f i rule: remove_finalizer_loop.induct)
  case (1 f i)
  show ?case
  proof (cases "i < length f")
    case False
    with "1.prems" show ?thesis by (subst remove_finalizer_loop.simps) simp
  next
    case True
    then have d: "drop i f = f ! i # drop (Suc i) f" by (rule Cons_nth_drop_Suc [symmetric])
    show ?thesis
    proof (cases "f ! i = ResourcesFinalizerName")
      case True
      with "1.IH"(1) \<open>i < length f\<close> show ?thesis
        by (subst remove_finalizer_loop.simps) (simp add: d)
    next
      case False
      with "1.IH"(2) \<open>i < length f\<close> show ?thesis
        by (subst remove_finalizer_loop.simps) (simp add: d take_Suc_conv_app_nth)
    qed
  qed
qed

lemma without_finalizer_meta:
  "m_finalizers (u_meta (without_finalizer app)) = filter (\<lambda>x. x \<noteq> ResourcesFinalizerName) (m_finalizers (u_meta app))"
  "m_name (u_meta (without_finalizer app)) = m_name (u_meta app)"
  "m_namespace (u_meta (without_finalizer app)) = m_namespace (u_meta app)"
  "m_deletion (u_meta (without_finalizer app)) = m_deletion (u_meta app)"
  "u_fields (without_finalizer app) = u_fields app"
  "u_api_version (without_finalizer app) = u_api_version app" "u_kind (without_finalizer app) = u_kind app"
  by (simp_all add: without_finalizer_def remove_finalizer_loop_filter)

text \<open>The state of the work the controller wants: the spec, labels and annotations it generates.\<close>

definition delivers :: "manifest_work \<Rightarrow> manifest_work \<Rightarrow> bool" where
  "delivers wanted mw =
     (mw_spec mw = mw_spec wanted \<and> m_labels (mw_meta mw) = m_labels (mw_meta wanted) \<and>
      m_annotations (mw_meta mw) = m_annotations (mw_meta wanted))"

lemma same_content_work:
  "same_content (OManifestWork mw) y \<Longrightarrow> \<exists>mw'. y = OManifestWork mw' \<and> delivers mw mw' \<and>
     m_finalizers (mw_meta mw') = m_finalizers (mw_meta mw) \<and> m_deletion (mw_meta mw') = m_deletion (mw_meta mw)"
  by (auto simp: same_content_def delivers_def)

lemma same_content_unstr:
  "same_content (OUnstr u) y \<Longrightarrow> \<exists>u'. y = OUnstr u' \<and> u_fields u' = u_fields u \<and> u_kind u' = u_kind u \<and>
     u_api_version u' = u_api_version u \<and> m_labels (u_meta u') = m_labels (u_meta u) \<and>
     m_annotations (u_meta u') = m_annotations (u_meta u) \<and> m_finalizers (u_meta u') = m_finalizers (u_meta u) \<and>
     m_deletion (u_meta u') = m_deletion (u_meta u) \<and> m_name (u_meta u') = m_name (u_meta u) \<and>
     m_namespace (u_meta u') = m_namespace (u_meta u)"
  by (auto simp: same_content_def)

context kube_api
begin

lemma wp_create_or_update_work:
  assumes "\<And>x. view w (Ref KManifestWork (m_namespace (mw_meta W)) (m_name (mw_meta W))) = Some x \<Longrightarrow> \<not> terminating x"
  shows "wp (create_or_update_work C W) (\<lambda>r w'.
      (\<forall>q. q \<noteq> Ref KManifestWork (m_namespace (mw_meta W)) (m_name (mw_meta W)) \<longrightarrow> view w' q = view w q) \<and>
      (r = Inr () \<longrightarrow> (\<exists>mw. view w' (Ref KManifestWork (m_namespace (mw_meta W)) (m_name (mw_meta W))) = Some (OManifestWork mw)
          \<and> delivers W mw))) w"
  unfolding create_or_update_work_def
  using assms
  by (auto simp: wp_simps same_content_def delivers_def terminating_def dest: name_of_view intro!: wp_intros)

lemma wp_remove_operation:
  assumes "view w (ref_of (OUnstr app)) = Some (OUnstr app)" "m_deletion (u_meta app) = None"
  shows "wp (remove_operation C app) (\<lambda>r w'.
      (\<forall>q. q \<noteq> ref_of (OUnstr app) \<longrightarrow> view w' q = view w q) \<and>
      (r = Inr () \<longrightarrow> (\<exists>app'. view w' (ref_of (OUnstr app)) = Some (OUnstr app') \<and>
         u_fields app' = AList.delete ''operation'' (u_fields app)))) w"
  unfolding remove_operation_def using assms
  by (auto simp: wp_simps same_content_def delete_notin_dom map_of_eq_None_iff image_iff
      intro!: wp_intros delete_id [symmetric] split: option.splits)

lemma wp_reconcile_live:
  assumes "view w (Ref application_gvk ns name) = Some (OUnstr app)" "m_deletion (u_meta app) = None"
    and "\<And>x. view w (Ref KManifestWork cluster mwName) = Some x \<Longrightarrow> \<not> terminating x"
  shows "wp (reconcile_live C app cluster mwName) (\<lambda>r w'.
      (\<forall>q. q \<noteq> Ref KManifestWork cluster mwName \<and> q \<noteq> Ref application_gvk ns name \<longrightarrow> view w' q = view w q) \<and>
      (r = Inr () \<longrightarrow>
        view w (Ref KManagedCluster '''' cluster) \<noteq> None \<and>
        (\<exists>mw. view w' (Ref KManifestWork cluster mwName) = Some (OManifestWork mw) \<and>
           delivers (generateManifestWork mwName cluster app) mw) \<and>
        (\<exists>app'. view w' (Ref application_gvk ns name) = Some (OUnstr app') \<and>
           u_fields app' = AList.delete ''operation'' (u_fields app)))) w" (is "wp _ ?Q w")
  unfolding reconcile_live_def
proof (rule wp_bindE_rule)
  show "wp (fetch as_managed_cluster C (Ref KManagedCluster '''' cluster))
      (\<lambda>r w'. view w' = view w \<and> (\<forall>x. r = Inr x \<longrightarrow> view w (Ref KManagedCluster '''' cluster) \<noteq> None)) w"
    by (rule wp_fetch) auto
next
  fix x w1
  assume w1: "view w1 = view w \<and> (\<forall>y. Inr x = Inr y \<longrightarrow> view w (Ref KManagedCluster '''' cluster) \<noteq> None)"
  let ?W = "generateManifestWork mwName cluster app"
  have ref: "ref_of (OUnstr app) = Ref application_gvk ns name"
    using assms(1) by (rule view_ref)
  show "wp (bindE (create_or_update_work C ?W) (\<lambda>_. remove_operation C app)) ?Q w1"
  proof (rule wp_bindE_rule [OF wp_create_or_update_work])
    fix y w2
    assume c: "(\<forall>q. q \<noteq> Ref KManifestWork (m_namespace (mw_meta ?W)) (m_name (mw_meta ?W)) \<longrightarrow> view w2 q = view w1 q) \<and>
       (Inr y = Inr () \<longrightarrow> (\<exists>mw. view w2 (Ref KManifestWork (m_namespace (mw_meta ?W)) (m_name (mw_meta ?W))) =
           Some (OManifestWork mw) \<and> delivers ?W mw))"
    then have "view w2 (ref_of (OUnstr app)) = Some (OUnstr app)"
      using assms(1) w1 ref by (simp add: application_gvk_def)
    from wp_mono [OF wp_remove_operation [OF this assms(2)]] c w1 ref
    show "wp (remove_operation C app) ?Q w2"
      by (auto simp: application_gvk_def)
  qed (use w1 assms(3) in auto)
qed auto

lemma wp_delete_step:
  "wp (delete_obj C x) (\<lambda>r w'.
     (\<forall>q. q \<noteq> ref_of x \<longrightarrow> view w' q = view w q) \<and>
     ((\<forall>e. r = Inl e \<longrightarrow> is_not_found e) \<longrightarrow> gone view w' (ref_of x) \<and> (\<forall>q. gone view w q \<longrightarrow> gone view w' q))) w"
  by (rule wp_delete_obj) (auto simp: gone_def; metis)+

lemma wp_delete_works:
  "wp (delete_works C ws) (\<lambda>r w'.
     (\<forall>q. q \<notin> (\<lambda>work. ref_of (OManifestWork work)) ` set ws \<longrightarrow> view w' q = view w q) \<and>
     (r = Inr () \<longrightarrow> (\<forall>q. gone view w q \<longrightarrow> gone view w' q) \<and>
        (\<forall>work \<in> set ws. gone view w' (ref_of (OManifestWork work))))) w"
proof (induction ws arbitrary: w)
  case Nil
  then show ?case by (simp add: wp_simps)
next
  case (Cons work ws)
  show ?case
    unfolding delete_works.simps
    by (rule wp_bind_rule [OF wp_delete_step])
      (auto simp: wp_simps split: sum.splits intro!: wp_mono [OF Cons.IH])
qed

lemma wp_cleanup_works:
  "wp (cleanupManifestWorksForDeletedApplication C ns name) (\<lambda>r w'.
     (\<forall>q. (\<nexists>work. view w q = Some (OManifestWork work) \<and> mget (m_labels (mw_meta work)) LabelKeyPull = ''true'' \<and>
              work_belongs_to ns name work) \<longrightarrow> view w' q = view w q) \<and>
     (r = Inr () \<longrightarrow> (\<forall>q work. view w q = Some (OManifestWork work) \<and>
         mget (m_labels (mw_meta work)) LabelKeyPull = ''true'' \<and> work_belongs_to ns name work \<longrightarrow> gone view w' q))) w"
  (is "wp _ ?Q w")
  unfolding cleanupManifestWorksForDeletedApplication_def wp_bindE
proof (rule wp_list_as)
  fix xs w1
  assume v: "view w1 = view w" and
    xs: "\<And>x. x \<in> set xs \<longleftrightarrow> view w (ref_of x) = Some x \<and> kind_of x = KManifestWork \<and>
       in_ns None (m_namespace (meta_of x)) \<and> labels_match [(LabelKeyPull, ''true'')] (m_labels (meta_of x))"
  let ?ws = "filter (work_belongs_to ns name) (List.map_filter as_work xs)"
  have ws: "work \<in> set ?ws \<longleftrightarrow> view w (ref_of (OManifestWork work)) = Some (OManifestWork work) \<and>
       map_of (m_labels (mw_meta work)) LabelKeyPull = Some ''true'' \<and> work_belongs_to ns name work" for work
    using xs [of "OManifestWork work"] by (auto simp: set_map_filter in_ns_def labels_match_def)
  have img: "q \<in> (\<lambda>work. ref_of (OManifestWork work)) ` set ?ws \<longleftrightarrow>
      (\<exists>work. view w q = Some (OManifestWork work) \<and>
         map_of (m_labels (mw_meta work)) LabelKeyPull = Some ''true'' \<and> work_belongs_to ns name work)" for q
    unfolding image_iff Bex_def ws by (metis view_ref)
  have label: "map_of l LabelKeyPull = Some ''true'' \<longleftrightarrow> mget l LabelKeyPull = ''true''" for l
    by (auto simp: mget_def split: option.splits)
  have deleted: "wp (delete_works C ?ws) ?Q w1"
  proof (rule wp_mono [OF wp_delete_works], unfold img v label, elim conjE, intro conjI impI allI)
    fix r w' q work
    assume "r = Inr () \<longrightarrow> (\<forall>q. gone view w1 q \<longrightarrow> gone view w' q) \<and>
        (\<forall>work \<in> set ?ws. gone view w' (ref_of (OManifestWork work)))" "r = Inr ()"
      "view w q = Some (OManifestWork work) \<and> mget (m_labels (mw_meta work)) LabelKeyPull = ''true'' \<and>
        work_belongs_to ns name work"
    then show "gone view w' q" using ws [of work] view_ref [of w q] label by metis
  qed metis
  show "case Inr (List.map_filter as_work xs) of Inl e \<Rightarrow> ?Q (Inl e) w1
      | Inr works \<Rightarrow> wp (let worksToDelete = filter (work_belongs_to ns name) works in
           if length worksToDelete = 0 then ret (Inr ()) else delete_works C worksToDelete) ?Q w1"
  proof (cases "?ws = []")
    case True
    with deleted show ?thesis by (simp add: Let_def wp_simps)
  next
    case False
    with deleted show ?thesis by (simp add: Let_def)
  qed
qed auto

text \<open>Deletion: what the step after the lookup of the work does to the two objects.\<close>

lemma wp_delete_work_and_commit:
  assumes "m_deletion (u_meta app) \<noteq> None" "ref_of (OUnstr app) \<noteq> r0"
  shows "wp (delete_work_and_commit C r0 app) (\<lambda>r w'.
     (\<forall>q. q \<noteq> r0 \<and> q \<noteq> ref_of (OUnstr app) \<longrightarrow> view w' q = view w q) \<and>
     (view w' (ref_of (OUnstr app)) \<noteq> view w (ref_of (OUnstr app)) \<longrightarrow> gone view w' r0) \<and>
     (r = Inr () \<longrightarrow> view w r0 \<noteq> None \<and> gone view w' r0 \<and>
        (\<forall>x. view w' (ref_of (OUnstr app)) = Some x \<longrightarrow>
           m_finalizers (u_meta app) \<noteq> [] \<and> m_finalizers (meta_of x) = m_finalizers (u_meta app)))) w"
  unfolding delete_work_and_commit_def wp_bindE
  by (rule wp_delete)
    (use assms in \<open>auto simp: gone_def same_content_def wp_simps intro!: wp_update_unit split: if_splits\<close>)

end

section \<open>Reconcile, branch by branch\<close>

lemma generated_work_belongs:
  assumes "delivers (generateManifestWork mwName cluster app) mw" "m_namespace (u_meta app) \<noteq> ''''" "m_name (u_meta app) \<noteq> ''''"
  shows "mget (m_labels (mw_meta mw)) LabelKeyPull = ''true''"
    "work_belongs_to (m_namespace (u_meta app)) (m_name (u_meta app)) mw"
  using assms generateManifestWork_labels [of mwName cluster app] generateManifestWork_annotations [of mwName cluster app]
  by (simp_all add: delivers_def work_belongs_to_def hub_annotations_iff mget_def)

context kube_api
begin

text \<open>The lookup of the Application: what the rest of \<open>Reconcile\<close> is given.\<close>

lemma wp_reconcile_found:
  assumes "view w (Ref application_gvk ns name) = Some (OUnstr app)"
    and "generateManifestWorkName name (m_uid (u_meta app)) = Inr mwName"
    and "\<And>w1. view w1 = view w \<Longrightarrow>
      wp (if m_deletion (u_meta app) \<noteq> None
          then reconcile_deleted C app (mget (m_annotations (u_meta app)) AnnotationKeyOCMManagedCluster) mwName
          else reconcile_live C app (mget (m_annotations (u_meta app)) AnnotationKeyOCMManagedCluster) mwName) Q w1"
    and "\<And>e w1. view w1 = view w \<Longrightarrow> Q (Inl e) w1"
  shows "wp (reconcile_application C ns name) Q w"
proof -
  have "m_name (u_meta app) = name"
    using view_ref [OF assms(1)] by simp
  with assms show ?thesis
    unfolding reconcile_application_def wp_bind by (intro wp_fetch) (auto simp: wp_simps)
qed

lemma wp_reconcile_absent:
  assumes "view w (Ref application_gvk ns name) = None"
    and "\<And>w1. view w1 = view w \<Longrightarrow> wp (cleanupManifestWorksForDeletedApplication C ns name) Q w1"
    and "\<And>e w1. view w1 = view w \<Longrightarrow> Q (Inl e) w1"
  shows "wp (reconcile_application C ns name) Q w"
  unfolding reconcile_application_def wp_bind using assms by (intro wp_fetch) (auto simp: wp_simps)

lemma wp_reconcile_deleted:
  fixes ns name cluster mwName :: string
  assumes app: "view w (Ref application_gvk ns name) = Some (OUnstr app)" and del: "m_deletion (u_meta app) \<noteq> None"
  defines "A \<equiv> Ref application_gvk ns name" and "W \<equiv> Ref KManifestWork cluster mwName"
  shows "wp (reconcile_deleted C app cluster mwName) (\<lambda>r w'.
     (\<forall>q. q \<noteq> W \<and> q \<noteq> A \<longrightarrow> view w' q = view w q) \<and>
     (view w' A \<noteq> view w A \<longrightarrow> gone view w' W) \<and>
     (view w W = None \<longrightarrow> (\<exists>e. r = Inl e)) \<and>
     (r = Inr () \<longrightarrow> gone view w' W \<and>
        (\<forall>x. view w' A = Some x \<longrightarrow> ResourcesFinalizerName \<notin> set (m_finalizers (meta_of x)) \<and> m_finalizers (meta_of x) \<noteq> []))) w"
    (is "wp _ ?Q w")
proof -
  let ?app = "without_finalizer app"
  have refA: "ref_of (OUnstr ?app) = A" and neq: "A \<noteq> W"
    using view_ref [OF app] by (simp_all add: A_def W_def without_finalizer_meta application_gvk_def)
  have delA: "m_deletion (u_meta ?app) \<noteq> None" using del by (simp add: without_finalizer_meta)
  have fin: "m_finalizers (u_meta ?app) \<noteq> [] \<Longrightarrow> ResourcesFinalizerName \<notin> set (m_finalizers (u_meta ?app))"
    by (simp add: without_finalizer_meta)
  have found: "wp (delete_work_and_commit C W ?app) ?Q w1" if "view w1 = view w" "view w W \<noteq> None" for w1
    by (rule wp_mono [OF wp_delete_work_and_commit [OF delA]])
      (use refA neq fin that in \<open>auto simp del: ref_of_simps\<close>)
  have missing: "wp (bindE (update_as as_unstr C (OUnstr ?app)) (delete_work_and_commit C (Ref KManifestWork '''' ''''))) ?Q w1"
    if "view w1 = view w" "view w W = None" for w1
  proof (rule wp_bindE_rule [where P = "\<lambda>r w'. \<forall>q. q \<noteq> A \<longrightarrow> view w' q = view w q"])
    show "wp (update_as as_unstr C (OUnstr ?app)) (\<lambda>r w'. \<forall>q. q \<noteq> A \<longrightarrow> view w' q = view w q) w1"
      by (rule wp_update_as) (use refA that in \<open>auto simp del: ref_of_simps\<close>)
  next
    fix app2 w2 assume w2: "\<forall>q. q \<noteq> A \<longrightarrow> view w2 q = view w q"
    show "wp (delete_work_and_commit C (Ref KManifestWork '''' '''') app2) ?Q w2"
      unfolding delete_work_and_commit_def wp_bindE
      by (rule wp_delete_noname) (use w2 that neq in \<open>auto simp: gone_def\<close>)
  qed (use that neq in \<open>auto simp: gone_def\<close>)
  show ?thesis
    unfolding reconcile_deleted_def wp_bind wp_Let Let_def
    by (rule wp_fetch) (use found missing in \<open>auto simp: wp_simps W_def gone_def\<close>)
qed

lemma wp_reconcile_application_deleted:
  assumes "view w (Ref application_gvk ns name) = Some (OUnstr app)" "m_deletion (u_meta app) \<noteq> None"
    and "generateManifestWorkName name (m_uid (u_meta app)) = Inr mwName"
    and "mget (m_annotations (u_meta app)) AnnotationKeyOCMManagedCluster = cluster"
  shows "wp (reconcile_application C ns name) (\<lambda>r w'.
     (\<forall>q. q \<noteq> Ref KManifestWork cluster mwName \<and> q \<noteq> Ref application_gvk ns name \<longrightarrow> view w' q = view w q) \<and>
     (view w' (Ref application_gvk ns name) \<noteq> view w (Ref application_gvk ns name) \<longrightarrow>
        gone view w' (Ref KManifestWork cluster mwName)) \<and>
     (view w (Ref KManifestWork cluster mwName) = None \<longrightarrow> (\<exists>e. r = Inl e)) \<and>
     (r = Inr () \<longrightarrow> gone view w' (Ref KManifestWork cluster mwName) \<and>
        (\<forall>x. view w' (Ref application_gvk ns name) = Some x \<longrightarrow>
           ResourcesFinalizerName \<notin> set (m_finalizers (meta_of x)) \<and> m_finalizers (meta_of x) \<noteq> []))) w" (is "wp _ ?Q w")
proof (rule wp_reconcile_found [OF assms(1,3)])
  fix w1 assume v: "view w1 = view w"
  with assms(1) have app: "view w1 (Ref application_gvk ns name) = Some (OUnstr app)" by simp
  show "wp (if m_deletion (u_meta app) \<noteq> None
       then reconcile_deleted C app (mget (m_annotations (u_meta app)) AnnotationKeyOCMManagedCluster) mwName
       else reconcile_live C app (mget (m_annotations (u_meta app)) AnnotationKeyOCMManagedCluster) mwName) ?Q w1"
    unfolding assms(4) if_P [OF assms(2)]
    by (rule wp_mono [OF wp_reconcile_deleted [OF app assms(2)]]) (simp only: v)
qed simp

end

section \<open>Properties of the Application controller\<close>

definition example_app :: unstructured where
  "example_app = \<lparr>u_api_version = ''argoproj.io/v1alpha1'', u_kind = ''Application'',
     u_meta = (new_meta ''app'' ''argocd'')\<lparr>m_uid := ''abcdef'', m_finalizers := [ResourcesFinalizerName],
       m_labels := [(LabelKeyPull, ''true'')], m_annotations := [(AnnotationKeyOCMManagedCluster, ''c1'')]\<rparr>,
     u_fields = [(''spec'', JObj [(''destination'', JObj [])]), (''operation'', JObj [])]\<rparr>"

definition example_deleted_app :: unstructured where
  "example_deleted_app = example_app\<lparr>u_meta := (u_meta example_app)\<lparr>m_deletion := Some ''now''\<rparr>\<rparr>"

definition example_cluster :: managed_cluster where
  "example_cluster = \<lparr>mc_meta = new_meta ''c1'' ''''\<rparr>"

definition example_world :: "unstructured \<Rightarrow> mem" where
  "example_world app = mem_of [OUnstr app, OManagedCluster example_cluster]"

definition example_work :: manifest_work where
  "example_work = generateManifestWork ''app-abcde'' ''c1'' example_app"

text \<open>
  C1: When Reconcile sees a live Application whose ManifestWork is not already being deleted, it
  touches no object but the Application and its ManifestWork; if it succeeds, the ManagedCluster
  exists, the ManifestWork in the cluster's namespace has the generated spec, labels and
  annotations, and the stored Application has the same fields as before without its operation.
\<close>

theorem live_application_delivered:
  assumes "kube_api C view"
    and "view w (Ref application_gvk ns name) = Some (OUnstr app)" and "m_deletion (u_meta app) = None"
    and "generateManifestWorkName name (m_uid (u_meta app)) = Inr mwName"
    and "mget (m_annotations (u_meta app)) AnnotationKeyOCMManagedCluster = cluster"
    and "\<forall>x. view w (Ref KManifestWork cluster mwName) = Some x \<longrightarrow> \<not> terminating x"
    and "run_state (reconcile_application C ns name) w = (r, w')"
  shows "(\<forall>q. q \<noteq> Ref KManifestWork cluster mwName \<and> q \<noteq> Ref application_gvk ns name \<longrightarrow> view w' q = view w q) \<and>
     (r = Inr () \<longrightarrow>
        view w (Ref KManagedCluster '''' cluster) \<noteq> None \<and>
        (\<exists>mw. view w' (Ref KManifestWork cluster mwName) = Some (OManifestWork mw) \<and>
           delivers (generateManifestWork mwName cluster app) mw) \<and>
        (\<exists>app'. view w' (Ref application_gvk ns name) = Some (OUnstr app') \<and>
           u_fields app' = AList.delete ''operation'' (u_fields app)))"
    (is "?P r w'")
proof -
  have "wp (reconcile_application C ns name) ?P w"
    by (rule kube_api.wp_reconcile_found [OF assms(1,2,4)])
      (use assms(2,3,5,6) in \<open>auto intro!: wp_mono [OF kube_api.wp_reconcile_live [OF assms(1)]]\<close>)
  then show ?thesis using assms(7) by (rule wp_run)
qed

theorem live_application_delivered_witness:
  "\<exists>mw. mem_view (snd (run_state (reconcile_application mem_client ''argocd'' ''app'') (example_world example_app)))
      (Ref KManifestWork ''c1'' ''app-abcde'') = Some (OManifestWork mw) \<and> delivers example_work mw"
proof -
  let ?w = "example_world example_app" and ?W = "Ref KManifestWork ''c1'' ''app-abcde''"
  let ?run = "run_state (reconcile_application mem_client ''argocd'' ''app'') ?w"
  have ok: "fst ?run = Inr ()" by code_simp
  have app: "mem_view ?w (Ref application_gvk ''argocd'' ''app'') = Some (OUnstr example_app)" by code_simp
  have no: "mem_view ?w ?W = None" by code_simp
  have name: "generateManifestWorkName ''app'' (m_uid (u_meta example_app)) = Inr ''app-abcde''" by code_simp
  have del: "m_deletion (u_meta example_app) = None" by code_simp
  have cl: "mget (m_annotations (u_meta example_app)) AnnotationKeyOCMManagedCluster = ''c1''" by code_simp
  have nt: "\<forall>x. mem_view ?w ?W = Some x \<longrightarrow> \<not> terminating x" using no by simp
  note live_application_delivered [OF mem_kube_api, OF app, OF del, OF name, OF cl, OF nt, of "fst ?run" "snd ?run"]
  then show ?thesis using ok unfolding example_work_def prod.collapse by blast
qed

text \<open>
  C11: For an Application that is being deleted, Reconcile changes the stored Application only
  when its ManifestWork is gone or on its way out, that is being deleted; after a success the work
  is gone or on its way out and the Argo CD finalizer is off the Application; no third object
  changes.
\<close>

theorem deleted_application_waits_for_work:
  assumes "kube_api C view"
    and "view w (Ref application_gvk ns name) = Some (OUnstr app)" and "m_deletion (u_meta app) \<noteq> None"
    and "generateManifestWorkName name (m_uid (u_meta app)) = Inr mwName"
    and "mget (m_annotations (u_meta app)) AnnotationKeyOCMManagedCluster = cluster"
    and "run_state (reconcile_application C ns name) w = (r, w')"
  shows "(view w' (Ref application_gvk ns name) \<noteq> view w (Ref application_gvk ns name) \<longrightarrow>
        gone view w' (Ref KManifestWork cluster mwName)) \<and>
     (r = Inr () \<longrightarrow> gone view w' (Ref KManifestWork cluster mwName) \<and>
        (\<forall>x. view w' (Ref application_gvk ns name) = Some x \<longrightarrow> ResourcesFinalizerName \<notin> set (m_finalizers (meta_of x)))) \<and>
     (\<forall>q. q \<noteq> Ref KManifestWork cluster mwName \<and> q \<noteq> Ref application_gvk ns name \<longrightarrow> view w' q = view w q)"
    (is "?P r w'")
proof -
  have "wp (reconcile_application C ns name) ?P w"
    by (rule wp_mono [OF kube_api.wp_reconcile_application_deleted [OF assms(1-5)]]) blast
  then show ?thesis using assms(6) by (rule wp_run)
qed

definition example_deletion_world :: mem where
  "example_deletion_world = mem_of [OUnstr example_deleted_app, OManifestWork example_work]"

theorem deleted_application_waits_for_work_witness:
  "gone mem_view (snd (run_state (reconcile_application mem_client ''argocd'' ''app'') example_deletion_world))
      (Ref KManifestWork ''c1'' ''app-abcde'')"
proof -
  let ?w = "example_deletion_world"
  let ?run = "run_state (reconcile_application mem_client ''argocd'' ''app'') ?w"
  have ok: "fst ?run = Inr ()" by code_simp
  have app: "mem_view ?w (Ref application_gvk ''argocd'' ''app'') = Some (OUnstr example_deleted_app)" by code_simp
  have name: "generateManifestWorkName ''app'' (m_uid (u_meta example_deleted_app)) = Inr ''app-abcde''" by code_simp
  have del: "m_deletion (u_meta example_deleted_app) \<noteq> None" by code_simp
  have cl: "mget (m_annotations (u_meta example_deleted_app)) AnnotationKeyOCMManagedCluster = ''c1''" by code_simp
  note deleted_application_waits_for_work
    [OF mem_kube_api, OF app, OF del, OF name, OF cl, of "fst ?run" "snd ?run"]
  then show ?thesis using ok unfolding prod.collapse by blast
qed

text \<open>
  C40: For an Application that is being deleted and whose ManifestWork does not exist, Reconcile
  always returns an error, on every client: after committing the finalizer removal it goes on to
  delete a ManifestWork without a name.
\<close>

theorem deleted_application_missing_work_fails:
  assumes "kube_api C view"
    and "view w (Ref application_gvk ns name) = Some (OUnstr app)" and "m_deletion (u_meta app) \<noteq> None"
    and "generateManifestWorkName name (m_uid (u_meta app)) = Inr mwName"
    and "mget (m_annotations (u_meta app)) AnnotationKeyOCMManagedCluster = cluster"
    and "view w (Ref KManifestWork cluster mwName) = None"
    and "run_state (reconcile_application C ns name) w = (r, w')"
  shows "\<exists>e. r = Inl e"
proof -
  have "wp (reconcile_application C ns name) (\<lambda>r w'. \<exists>e. r = Inl e) w"
    by (rule wp_mono [OF kube_api.wp_reconcile_application_deleted [OF assms(1-5)]]) (simp add: assms(6))
  then show ?thesis using assms(7) by (rule wp_run)
qed

definition example_missing_work_world :: mem where
  "example_missing_work_world = mem_of [OUnstr example_deleted_app]"

theorem deleted_application_missing_work_fails_witness:
  "\<exists>e. fst (run_state (reconcile_application mem_client ''argocd'' ''app'') example_missing_work_world) = Inl e"
proof -
  let ?w = "example_missing_work_world"
  let ?run = "run_state (reconcile_application mem_client ''argocd'' ''app'') ?w"
  have app: "mem_view ?w (Ref application_gvk ''argocd'' ''app'') = Some (OUnstr example_deleted_app)" by code_simp
  have name: "generateManifestWorkName ''app'' (m_uid (u_meta example_deleted_app)) = Inr ''app-abcde''" by code_simp
  have del: "m_deletion (u_meta example_deleted_app) \<noteq> None" by code_simp
  have cl: "mget (m_annotations (u_meta example_deleted_app)) AnnotationKeyOCMManagedCluster = ''c1''" by code_simp
  have no: "mem_view ?w (Ref KManifestWork ''c1'' ''app-abcde'') = None" by code_simp
  show ?thesis
    by (rule deleted_application_missing_work_fails
      [OF mem_kube_api, OF app, OF del, OF name, OF cl, OF no, of "fst ?run" "snd ?run"]) simp
qed

text \<open>The hub annotations of a work are there and name an Application.\<close>

definition names_application :: "string \<Rightarrow> string \<Rightarrow> manifest_work \<Rightarrow> bool" where
  "names_application ns name work = (ns \<noteq> '''' \<and> name \<noteq> '''' \<and>
     map_of (m_annotations (mw_meta work)) AnnotationKeyHubApplicationNamespace = Some ns \<and>
     map_of (m_annotations (mw_meta work)) AnnotationKeyHubApplicationName = Some name)"

lemma names_application_iff: "names_application ns name work = work_belongs_to ns name work"
  by (auto simp: names_application_def work_belongs_to_def containsValidManifestWorkHubApplicationAnnotations_def mget_def
      split: option.splits)

text \<open>
  C27: For an Application that does not exist, Reconcile leaves every object alone except the
  ManifestWorks with the pull label whose hub annotations name the Application, and after a
  success all of these are gone or on their way out, their deletion accepted.
\<close>

theorem absent_application_works_deleted:
  assumes "kube_api C view"
    and "view w (Ref application_gvk ns name) = None"
    and "run_state (reconcile_application C ns name) w = (r, w')"
  shows "(\<forall>q. (\<nexists>work. view w q = Some (OManifestWork work) \<and> mget (m_labels (mw_meta work)) LabelKeyPull = ''true'' \<and>
              names_application ns name work) \<longrightarrow> view w' q = view w q) \<and>
     (r = Inr () \<longrightarrow> (\<forall>q work. view w q = Some (OManifestWork work) \<and>
         mget (m_labels (mw_meta work)) LabelKeyPull = ''true'' \<and> names_application ns name work \<longrightarrow> gone view w' q))"
    (is "?P r w'")
proof -
  have "wp (reconcile_application C ns name) ?P w"
    by (rule kube_api.wp_reconcile_absent [OF assms(1,2)])
      (auto simp: names_application_iff intro!: wp_mono [OF kube_api.wp_cleanup_works [OF assms(1)]])
  then show ?thesis using assms(3) by (rule wp_run)
qed

definition example_orphan_world :: mem where
  "example_orphan_world = mem_of [OManifestWork example_work]"

theorem absent_application_works_deleted_witness:
  "gone mem_view (snd (run_state (reconcile_application mem_client ''argocd'' ''app'') example_orphan_world))
      (Ref KManifestWork ''c1'' ''app-abcde'')"
proof -
  let ?w = "example_orphan_world"
  let ?run = "run_state (reconcile_application mem_client ''argocd'' ''app'') ?w"
  have ok: "fst ?run = Inr ()" by code_simp
  have no: "mem_view ?w (Ref application_gvk ''argocd'' ''app'') = None" by code_simp
  have work: "mem_view ?w (Ref KManifestWork ''c1'' ''app-abcde'') = Some (OManifestWork example_work)"
    "mget (m_labels (mw_meta example_work)) LabelKeyPull = ''true''" "names_application ''argocd'' ''app'' example_work"
    by code_simp+
  note absent_application_works_deleted [OF mem_kube_api, OF no, of "fst ?run" "snd ?run"]
  then show ?thesis using ok work unfolding prod.collapse by blast
qed

text \<open>
  C8: The ManifestWork that a successful run leaves for a live Application of a named namespace is
  found again by the label and the annotations it carries: when the work was not being deleted
  before that run and is unchanged since, a successful run after the Application disappeared
  leaves it gone or on its way out, its deletion accepted.
\<close>

theorem delivered_work_is_cleaned_up:
  assumes "kube_api C view"
    and "view w (Ref application_gvk ns name) = Some (OUnstr app)" and "m_deletion (u_meta app) = None" and "ns \<noteq> ''''"
    and "generateManifestWorkName name (m_uid (u_meta app)) = Inr mwName"
    and "mget (m_annotations (u_meta app)) AnnotationKeyOCMManagedCluster = cluster"
    and "\<forall>x. view w (Ref KManifestWork cluster mwName) = Some x \<longrightarrow> \<not> terminating x"
    and "run_state (reconcile_application C ns name) w = (Inr (), w1)"
    and "view w2 (Ref KManifestWork cluster mwName) = view w1 (Ref KManifestWork cluster mwName)"
    and "view w2 (Ref application_gvk ns name) = None"
    and "run_state (reconcile_application C ns name) w2 = (Inr (), w3)"
  shows "gone view w3 (Ref KManifestWork cluster mwName)"
proof -
  let ?W = "Ref KManifestWork cluster mwName"
  have "wp (reconcile_application C ns name) (\<lambda>r w'. r = Inr () \<longrightarrow>
      (\<exists>mw. view w' ?W = Some (OManifestWork mw) \<and> delivers (generateManifestWork mwName cluster app) mw)) w"
    by (rule kube_api.wp_reconcile_found [OF assms(1,2,5)])
      (use assms(2,3,6,7) in \<open>auto intro!: wp_mono [OF kube_api.wp_reconcile_live [OF assms(1)]]\<close>)
  from wp_run [OF this assms(8)] assms(9) obtain mw where
    mw: "view w2 ?W = Some (OManifestWork mw)" "delivers (generateManifestWork mwName cluster app) mw" by auto
  have id: "m_namespace (u_meta app) = ns" "m_name (u_meta app) = name" "name \<noteq> ''''"
    using kube_api.view_ref [OF assms(1,2)] kube_api.view_noname [OF assms(1)] assms(2) by auto
  have "wp (reconcile_application C ns name) (\<lambda>r w'. r = Inr () \<longrightarrow> gone view w' ?W) w2"
    by (rule kube_api.wp_reconcile_absent [OF assms(1,10)])
      (use mw generated_work_belongs [OF mw(2)] id assms(4) in
        \<open>auto intro!: wp_mono [OF kube_api.wp_cleanup_works [OF assms(1)]]\<close>)
  from wp_run [OF this assms(11)] show ?thesis by simp
qed

definition example_ran_world :: mem where
  "example_ran_world = snd (run_state (reconcile_application mem_client ''argocd'' ''app'') (example_world example_app))"

definition example_app_removed_world :: mem where
  "example_app_removed_world = example_ran_world
     \<lparr>mem_objs := remove_ref (Ref application_gvk ''argocd'' ''app'') (mem_objs example_ran_world)\<rparr>"

theorem delivered_work_is_cleaned_up_witness:
  "gone mem_view (snd (run_state (reconcile_application mem_client ''argocd'' ''app'') example_app_removed_world))
      (Ref KManifestWork ''c1'' ''app-abcde'')"
proof -
  let ?w = "example_world example_app" and ?W = "Ref KManifestWork ''c1'' ''app-abcde''"
  let ?rec = "run_state (reconcile_application mem_client ''argocd'' ''app'')"
  have "fst (?rec ?w) = Inr ()" by code_simp
  then have r1: "?rec ?w = (Inr (), example_ran_world)"
    by (simp add: example_ran_world_def prod_eq_iff)
  have "fst (?rec example_app_removed_world) = Inr ()" by code_simp
  then have r2: "?rec example_app_removed_world = (Inr (), snd (?rec example_app_removed_world))"
    by (simp add: prod_eq_iff)
  have app: "mem_view ?w (Ref application_gvk ''argocd'' ''app'') = Some (OUnstr example_app)" by code_simp
  have name: "generateManifestWorkName ''app'' (m_uid (u_meta example_app)) = Inr ''app-abcde''" by code_simp
  have del: "m_deletion (u_meta example_app) = None" by code_simp
  have cl: "mget (m_annotations (u_meta example_app)) AnnotationKeyOCMManagedCluster = ''c1''" by code_simp
  have "mem_view ?w ?W = None" by code_simp
  then have nt: "\<forall>x. mem_view ?w ?W = Some x \<longrightarrow> \<not> terminating x" by simp
  have ne: "''argocd'' \<noteq> ''''" by simp
  have same: "mem_view example_app_removed_world ?W = mem_view example_ran_world ?W" by code_simp
  have no: "mem_view example_app_removed_world (Ref application_gvk ''argocd'' ''app'') = None" by code_simp
  show ?thesis
    by (rule delivered_work_is_cleaned_up
      [OF mem_kube_api, OF app, OF del, OF ne, OF name, OF cl, OF nt, OF r1, OF same, OF no, OF r2])
qed

text \<open>On a server that answers, nothing stops the reconciler.\<close>

context reliable_api
begin

lemma wp_create_or_update_work_healthy:
  assumes "healthy w" "m_name (mw_meta W) \<noteq> ''''"
    and "\<forall>x. view w (ref_of (OManifestWork W)) = Some x \<longrightarrow> \<not> terminating x"
    and "\<And>w'. healthy w' \<Longrightarrow> (\<And>q. q \<noteq> ref_of (OManifestWork W) \<Longrightarrow> view w' q = view w q) \<Longrightarrow>
      \<exists>mw. view w' (ref_of (OManifestWork W)) = Some (OManifestWork mw) \<and> delivers W mw \<Longrightarrow> Q (Inr ()) w'"
  shows "wp (create_or_update_work C W) Q w"
  unfolding create_or_update_work_def wp_bind
proof (rule wp_fetch_healthy [OF assms(1)])
  fix e w' assume "healthy w'" "view w' = view w" "view w (ref_of (OManifestWork W)) = None" "is_not_found e"
  with assms(2) show "wp (case Inl e of Inl e \<Rightarrow> if is_not_found e then create C (OManifestWork W) else ret (Inl e)
      | Inr mw \<Rightarrow> update C (OManifestWork (mw\<lparr>mw_spec := mw_spec W,
           mw_meta := (mw_meta mw)\<lparr>m_annotations := m_annotations (mw_meta W), m_labels := m_labels (mw_meta W)\<rparr>\<rparr>))) Q w'"
    by (auto intro!: wp_create_healthy assms(4) dest!: same_content_work)
next
  fix x mw w'
  assume h: "healthy w'" "view w' = view w" "view w (ref_of (OManifestWork W)) = Some x"
    "ref_of x = ref_of (OManifestWork W)" "as_work x = Some mw"
  with assms(3) have "m_deletion (mw_meta mw) = None" by (auto simp: terminating_def)
  with h show "wp (case Inr mw of Inl e \<Rightarrow> if is_not_found e then create C (OManifestWork W) else ret (Inl e)
      | Inr mw \<Rightarrow> update C (OManifestWork (mw\<lparr>mw_spec := mw_spec W,
           mw_meta := (mw_meta mw)\<lparr>m_annotations := m_annotations (mw_meta W), m_labels := m_labels (mw_meta W)\<rparr>\<rparr>))) Q w'"
    by (auto simp: delivers_def same_content_def intro!: wp_update_healthy assms(4))
next
  show "\<exists>y. as_work x = Some y" if "view w (ref_of (OManifestWork W)) = Some x" for x
    using view_ref [OF that] by (cases x) auto
qed

lemma wp_reconcile_live_healthy:
  assumes "healthy w" "view w (Ref application_gvk ns name) = Some (OUnstr app)" "m_deletion (u_meta app) = None"
    and "view w (Ref KManagedCluster '''' cluster) \<noteq> None" "mwName \<noteq> ''''"
    and "\<forall>x. view w (Ref KManifestWork cluster mwName) = Some x \<longrightarrow> \<not> terminating x"
  shows "wp (reconcile_live C app cluster mwName) (\<lambda>r w'. r = Inr () \<and> healthy w') w"
  unfolding reconcile_live_def wp_bindE
proof (rule wp_fetch_healthy [OF assms(1)])
  fix x c w1
  assume w1: "healthy w1" "view w1 = view w"
  let ?W = "generateManifestWork mwName cluster app"
  have A: "ref_of (OUnstr app) = Ref application_gvk ns name" using assms(2) by (rule view_ref)
  have "wp (create_or_update_work C ?W) (\<lambda>r w2. case r of
        Inl e \<Rightarrow> False | Inr _ \<Rightarrow> wp (remove_operation C app) (\<lambda>r w'. r = Inr () \<and> healthy w') w2) w1"
  proof (rule wp_create_or_update_work_healthy [OF w1(1)])
    fix w2 assume w2: "healthy w2" "\<And>q. q \<noteq> ref_of (OManifestWork ?W) \<Longrightarrow> view w2 q = view w1 q"
    then have "view w2 (ref_of (OUnstr app)) \<noteq> None" unfolding A using assms(2) w1 by (simp add: application_gvk_def)
    with w2(1) show "case Inr () of Inl e \<Rightarrow> False | Inr _ \<Rightarrow> wp (remove_operation C app) (\<lambda>r w'. r = Inr () \<and> healthy w') w2"
      by (auto simp: remove_operation_def wp_simps intro!: wp_update_healthy split: option.splits)
  qed (use assms(5,6) w1 in auto)
  then show "case Inr c of Inl e \<Rightarrow> Inl e = Inr () \<and> healthy w1
      | Inr _ \<Rightarrow> wp (create_or_update_work C ?W) (\<lambda>r w. case r of Inl e \<Rightarrow> Inl e = Inr () \<and> healthy w
          | Inr _ \<Rightarrow> wp (remove_operation C app) (\<lambda>r w'. r = Inr () \<and> healthy w') w) w1"
    by (simp add: wp_mono split: sum.splits)
next
  show "\<exists>y. as_managed_cluster x = Some y" if "view w (Ref KManagedCluster '''' cluster) = Some x" for x
    using view_ref [OF that] by (cases x) auto
qed (use assms(4) in auto)

end

text \<open>
  C9: On a reliable client, for a live Application whose ManagedCluster exists and whose work is
  not leaving, Reconcile returns without error and the work carries the generated spec, labels and
  annotations.
\<close>

theorem live_application_converges:
  assumes "reliable_api C view healthy" and "healthy w"
    and "view w (Ref application_gvk ns name) = Some (OUnstr app)" and "m_deletion (u_meta app) = None"
    and "generateManifestWorkName name (m_uid (u_meta app)) = Inr mwName"
    and "mget (m_annotations (u_meta app)) AnnotationKeyOCMManagedCluster = cluster"
    and "view w (Ref KManagedCluster '''' cluster) \<noteq> None"
    and "\<forall>x. view w (Ref KManifestWork cluster mwName) = Some x \<longrightarrow> \<not> terminating x"
  shows "\<exists>w'. run_state (reconcile_application C ns name) w = (Inr (), w') \<and> healthy w' \<and>
     (\<exists>mw. view w' (Ref KManifestWork cluster mwName) = Some (OManifestWork mw) \<and>
        delivers (generateManifestWork mwName cluster app) mw)"
proof -
  have K: "kube_api C view" using assms(1) by (simp add: reliable_api_def)
  have id: "m_name (u_meta app) = name"
    using kube_api.view_ref [OF K assms(3)] by simp
  have ne: "mwName \<noteq> ''''" using assms(5) by (auto simp: generateManifestWorkName_def split: if_splits)
  have ok: "wp (reconcile_application C ns name) (\<lambda>r w'. r = Inr () \<and> healthy w') w"
    unfolding reconcile_application_def wp_bind
  proof (rule reliable_api.wp_fetch_healthy [OF assms(1,2)])
    fix x a w1
    assume x: "healthy w1" "view w1 = view w" "view w (Ref application_gvk ns name) = Some x" "as_unstr x = Some a"
    with assms(3) have a: "a = app" by simp
    from x assms(3,7,8) have "wp (reconcile_live C app cluster mwName) (\<lambda>r w'. r = Inr () \<and> healthy w') w1"
      by (intro reliable_api.wp_reconcile_live_healthy [OF assms(1) x(1) _ assms(4) _ ne]) auto
    then show "wp (case Inr a of Inl e \<Rightarrow> if is_not_found e then cleanupManifestWorksForDeletedApplication C ns name
          else ret (Inl e)
        | Inr application \<Rightarrow>
          let managedClusterName = mget (m_annotations (u_meta application)) AnnotationKeyOCMManagedCluster in
          (case generateManifestWorkName (m_name (u_meta application)) (m_uid (u_meta application)) of
             Inl p \<Rightarrow> ret (Inl p)
           | Inr mwName \<Rightarrow>
               if m_deletion (u_meta application) \<noteq> None
               then reconcile_deleted C application managedClusterName mwName
               else reconcile_live C application managedClusterName mwName)) (\<lambda>r w'. r = Inr () \<and> healthy w') w1"
      by (simp add: a id assms(4,5,6))
  qed (use assms(3) in auto)
  obtain r w' where run: "run_state (reconcile_application C ns name) w = (r, w')" by (cases "run_state (reconcile_application C ns name) w")
  have "wp (reconcile_application C ns name) (\<lambda>r w'. r = Inr () \<longrightarrow>
      (\<exists>mw. view w' (Ref KManifestWork cluster mwName) = Some (OManifestWork mw) \<and>
         delivers (generateManifestWork mwName cluster app) mw)) w"
    by (rule kube_api.wp_reconcile_found [OF K assms(3,5)])
      (use assms(3,4,6,8) in \<open>auto intro!: wp_mono [OF kube_api.wp_reconcile_live [OF K]]\<close>)
  from wp_run [OF this run] wp_run [OF ok run] run show ?thesis by blast
qed

theorem live_application_converges_witness:
  "fst (run_state (reconcile_application mem_client ''argocd'' ''app'') (example_world example_app)) = Inr ()"
proof -
  let ?w = "example_world example_app" and ?W = "Ref KManifestWork ''c1'' ''app-abcde''"
  have h: "mem_healthy ?w" by code_simp
  have app: "mem_view ?w (Ref application_gvk ''argocd'' ''app'') = Some (OUnstr example_app)" by code_simp
  have name: "generateManifestWorkName ''app'' (m_uid (u_meta example_app)) = Inr ''app-abcde''" by code_simp
  have del: "m_deletion (u_meta example_app) = None" by code_simp
  have cl: "mget (m_annotations (u_meta example_app)) AnnotationKeyOCMManagedCluster = ''c1''" by code_simp
  have mc: "mem_view ?w (Ref KManagedCluster '''' ''c1'') \<noteq> None" by code_simp
  have "mem_view ?w ?W = None" by code_simp
  then have nt: "\<forall>x. mem_view ?w ?W = Some x \<longrightarrow> \<not> terminating x" by simp
  from live_application_converges [OF mem_reliable_api, OF h, OF app, OF del, OF name, OF cl, OF mc, OF nt]
  show ?thesis by auto
qed

end
