(* ===== verification/Api_Machinery.thy ===== *)
theory Api_Machinery
  imports Mem_Client "HOL-Library.Sublist"
begin

text \<open>
  Functions of the Kubernetes libraries the controllers call, each an argument of the definitions
  that use it, with its documented behaviour as a locale: \<open>unstructured.SetNestedField\<close>,
  \<open>retry.RetryOnConflict\<close>, and \<open>meta.SetStatusCondition\<close> with \<open>meta.FindStatusCondition\<close>. An
  instance of each shows that its laws can be met.
\<close>

section \<open>SetNestedField\<close>

locale nested_fields =
  fixes set_nested :: "json \<Rightarrow> string list \<Rightarrow> fields \<Rightarrow> fields result"
  assumes set_same: "set_nested v ks m = Inr m' \<Longrightarrow> get_nested ks (JObj m') = Some v"
    and set_other: "set_nested v ks m = Inr m' \<Longrightarrow> parallel ks ks' \<Longrightarrow> get_nested ks' (JObj m') = get_nested ks' (JObj m)"
    and set_total: "ks \<noteq> [] \<Longrightarrow>
        (\<And>ks1 j. strict_prefix ks1 ks \<Longrightarrow> get_nested ks1 (JObj m) = Some j \<Longrightarrow> \<exists>x. j = JObj x) \<Longrightarrow>
        \<exists>m'. set_nested v ks m = Inr m'"
begin

lemma set_top:
  assumes "set_nested v (k # ks) m = Inr m'" "k' \<noteq> k"
  shows "map_of m' k' = map_of m k'"
  using set_other [OF assms(1), of "[k']"] assms(2) by (auto simp: parallel_def split: option.splits)

end

text \<open>Several fields set one after the other; the first failure ends the sequence.\<close>

fun set_fields :: "(json \<Rightarrow> string list \<Rightarrow> fields \<Rightarrow> fields result) \<Rightarrow> (json \<times> string list) list \<Rightarrow> fields \<Rightarrow> fields result" where
  "set_fields sn [] m = Inr m"
| "set_fields sn ((v, ks) # rest) m = (case sn v ks m of Inl e \<Rightarrow> Inl e | Inr m' \<Rightarrow> set_fields sn rest m')"

context nested_fields
begin

lemma set_fields_other:
  "set_fields set_nested vs m = Inr m' \<Longrightarrow> \<forall>(v, ks) \<in> set vs. parallel ks ks' \<Longrightarrow>
     get_nested ks' (JObj m') = get_nested ks' (JObj m)"
  by (induction vs arbitrary: m) (auto split: sum.splits dest: set_other)

lemma set_fields_get:
  assumes "set_fields set_nested (as @ (v, ks) # bs) m = Inr m'" "\<forall>(v', ks') \<in> set bs. parallel ks' ks"
  shows "get_nested ks (JObj m') = Some v"
  using assms(1)
proof (induction as arbitrary: m)
  case Nil
  then obtain m1 where m1: "set_nested v ks m = Inr m1" "set_fields set_nested bs m1 = Inr m'"
    by (auto split: sum.splits)
  from set_fields_other [OF m1(2) assms(2)] set_same [OF m1(1)] show ?case by simp
qed (auto split: sum.splits)

lemma set_fields_top:
  "set_fields set_nested vs m = Inr m' \<Longrightarrow> \<forall>(v, ks) \<in> set vs. ks \<noteq> [] \<and> hd ks \<noteq> k \<Longrightarrow> map_of m' k = map_of m k"
proof (induction vs arbitrary: m)
  case (Cons p vs)
  obtain v k1 ks1 where p: "p = (v, k1 # ks1)" "k1 \<noteq> k" using Cons.prems(2) by (cases p; cases "snd p") auto
  with Cons.prems(1) obtain m1 where "set_nested v (k1 # ks1) m = Inr m1" "set_fields set_nested vs m1 = Inr m'"
    by (auto split: sum.splits)
  with Cons.IH [of m1] Cons.prems(2) p(2) set_top [of v k1 ks1 m m1 k] show ?case by simp
qed simp

end

fun set_path :: "json \<Rightarrow> string list \<Rightarrow> fields \<Rightarrow> fields result" where
  "set_path v [] m = Inl (Plain ''no field'')"
| "set_path v [k] m = Inr (put k v m)"
| "set_path v (k # k' # ks) m =
     (case map_of m k of
        None \<Rightarrow> (case set_path v (k' # ks) [] of Inl e \<Rightarrow> Inl e | Inr x \<Rightarrow> Inr (put k (JObj x) m))
      | Some (JObj y) \<Rightarrow> (case set_path v (k' # ks) y of Inl e \<Rightarrow> Inl e | Inr x \<Rightarrow> Inr (put k (JObj x) m))
      | Some _ \<Rightarrow> Inl (Plain ''value cannot be set because it is not a map''))"

lemma set_path_same: "set_path v ks m = Inr m' \<Longrightarrow> get_nested ks (JObj m') = Some v"
  by (induction v ks m arbitrary: m' rule: set_path.induct)
    (auto simp: gomap_simps split: option.splits json.splits sum.splits)

lemma get_nested_Nil_map: "ks \<noteq> [] \<Longrightarrow> get_nested ks (JObj []) = None"
  by (cases ks) auto

lemma set_path_other:
  "set_path v ks m = Inr m' \<Longrightarrow> parallel ks ks' \<Longrightarrow> get_nested ks' (JObj m') = get_nested ks' (JObj m)"
proof (induction v ks m arbitrary: m' ks' rule: set_path.induct)
  case (2 v k m)
  then show ?case by (cases ks') (auto simp: gomap_simps parallel_def)
next
  case (3 v k k' ks m)
  show ?case
  proof (cases ks')
    case (Cons a as)
    show ?thesis
    proof (cases "a = k")
      case True
      with 3 Cons have par: "parallel (k' # ks) as" by (auto simp: parallel_def)
      then have "as \<noteq> []" by (auto simp: parallel_def)
      with 3 Cons True par show ?thesis
        by (auto simp: gomap_simps get_nested_Nil_map split: option.splits json.splits sum.splits)
    next
      case False
      with 3 Cons show ?thesis by (auto simp: gomap_simps split: option.splits json.splits sum.splits)
    qed
  qed (use 3 in \<open>auto simp: parallel_def\<close>)
qed simp

lemma set_path_total:
  "ks \<noteq> [] \<Longrightarrow> (\<And>ks1 j. strict_prefix ks1 ks \<Longrightarrow> get_nested ks1 (JObj m) = Some j \<Longrightarrow> \<exists>x. j = JObj x) \<Longrightarrow>
   \<exists>m'. set_path v ks m = Inr m'"
proof (induction v ks m rule: set_path.induct)
  case (3 v k k' ks m)
  have sub: "\<exists>x. j = JObj x" if "strict_prefix ks1 (k' # ks)" "map_of m k = Some (JObj y)" "get_nested ks1 (JObj y) = Some j"
    for ks1 j y
    using "3.prems"(2) [of "k # ks1" j] that by simp
  have empty: "\<exists>m'. set_path v (k' # ks) [] = Inr m'" if "map_of m k = None"
    using "3.IH"(1) [OF that] by (metis get_nested.simps(1) get_nested_Nil_map list.discI option.distinct(1) option.inject)
  show ?case
  proof (cases "map_of m k")
    case None
    with empty show ?thesis by auto
  next
    case (Some j)
    then obtain y where y: "j = JObj y" using "3.prems"(2) [of "[k]" j] by auto
    with Some sub "3.IH"(2) [OF Some y] show ?thesis by fastforce
  qed
qed auto

interpretation path: nested_fields set_path
  by unfold_locales (auto intro: set_path_same set_path_other set_path_total)

lemma path_nested_fields: "nested_fields set_path"
  by (rule path.nested_fields_axioms)

section \<open>RetryOnConflict\<close>

text \<open>
  \<open>RetryOnConflict\<close> runs the function again, a bounded number of times and after a pause, as long as
  it returns a conflict; its result is that of the last run. A pause leaves the objects alone.
\<close>

inductive attempts :: "('w \<Rightarrow> objref \<Rightarrow> kobj option) \<Rightarrow> ('w, 'a result) state \<Rightarrow> 'w \<Rightarrow> 'a result \<Rightarrow> 'w \<Rightarrow> bool"
  for view m where
  last: "view w1 = view w \<Longrightarrow> run_state m w1 = (r, w') \<Longrightarrow> view w2 = view w' \<Longrightarrow> attempts view m w r w2"
| again: "view w1 = view w \<Longrightarrow> run_state m w1 = (Inl e, w2) \<Longrightarrow> is_conflict e \<Longrightarrow> attempts view m w2 r w' \<Longrightarrow>
    attempts view m w r w'"

locale retrying =
  fixes retry :: "('w, 'a result) state \<Rightarrow> ('w, 'a result) state" and view :: "'w \<Rightarrow> objref \<Rightarrow> kobj option"
  assumes retry_attempts: "run_state (retry m) w = (r, w') \<Longrightarrow> attempts view m w r w'"
begin

lemma wp_retry:
  assumes "\<And>w1. view w1 = view w \<Longrightarrow> wp m (\<lambda>r w'. P r (view w') \<and> ((\<exists>e. r = Inl e \<and> is_conflict e) \<longrightarrow> view w' = view w)) w1"
  shows "wp (retry m) (\<lambda>r w'. P r (view w')) w"
proof (rule wpI)
  fix r w' assume "run_state (retry m) w = (r, w')"
  then have "attempts view m w r w'" by (rule retry_attempts)
  then show "P r (view w')" using assms
  proof (induction rule: attempts.induct)
    case (last w1 w r w' w2)
    from wp_run [OF last(4) [OF last(1)] last(2)] last(3) show ?case by simp
  next
    case (again w1 w e w2 r w')
    from wp_run [OF again(6) [OF again(1)] again(2)] again(3) have v: "view w2 = view w" by simp
    show ?case by (rule again.IH, unfold v) (rule again.prems)
  qed
qed

end

fun retry_n :: "nat \<Rightarrow> ('w, 'a result) state \<Rightarrow> ('w, 'a result) state" where
  "retry_n 0 m = m"
| "retry_n (Suc n) m = do { r \<leftarrow> m; (case r of Inl e \<Rightarrow> if is_conflict e then retry_n n m else ret (Inl e) | Inr x \<Rightarrow> ret (Inr x)) }"

lemma retry_n_attempts: "run_state (retry_n n m) w = (r, w') \<Longrightarrow> attempts view m w r w'"
proof (induction n arbitrary: w)
  case 0
  then show ?case by (auto intro: attempts.last)
next
  case (Suc n)
  then show ?case
    by (auto split: prod.splits sum.splits if_splits intro: attempts.intros)
qed

interpretation four: retrying "retry_n 3" view for view :: "'w \<Rightarrow> objref \<Rightarrow> kobj option"
  by unfold_locales (rule retry_n_attempts)

lemma retry_n_retrying: "retrying (retry_n n) view"
  by unfold_locales (rule retry_n_attempts)

section \<open>Status conditions\<close>

text \<open>
  \<open>SetStatusCondition\<close> adds or replaces the condition of a type; a changed status moves the transition
  time. \<open>FindStatusCondition\<close> finds the condition of a type.
\<close>

definition same_verdict :: "condition \<Rightarrow> condition \<Rightarrow> bool" where
  "same_verdict c d = (cond_type c = cond_type d \<and> cond_status c = cond_status d \<and> cond_reason c = cond_reason d \<and>
     cond_message c = cond_message d \<and> cond_observed_generation c = cond_observed_generation d)"

locale status_conditions =
  fixes find_condition :: "condition list \<Rightarrow> string \<Rightarrow> condition option"
    and set_condition :: "condition list \<Rightarrow> condition \<Rightarrow> condition list"
  assumes find_type: "find_condition cs t = Some c \<Longrightarrow> cond_type c = t \<and> c \<in> set cs"
    and find_none: "find_condition cs t = None \<longleftrightarrow> (\<forall>c \<in> set cs. cond_type c \<noteq> t)"
    and set_find_same: "\<exists>d. find_condition (set_condition cs c) (cond_type c) = Some d \<and> same_verdict c d"
    and set_find_other: "t \<noteq> cond_type c \<Longrightarrow> find_condition (set_condition cs c) t = find_condition cs t"

fun upsert_condition :: "condition list \<Rightarrow> condition \<Rightarrow> condition list" where
  "upsert_condition [] c = [c]"
| "upsert_condition (d # ds) c =
     (if cond_type d = cond_type c
      then (if cond_status d = cond_status c then c\<lparr>cond_transition_time := cond_transition_time d\<rparr> else c) # ds
      else d # upsert_condition ds c)"

definition lookup_condition :: "condition list \<Rightarrow> string \<Rightarrow> condition option" where
  "lookup_condition cs t = find (\<lambda>c. cond_type c = t) cs"

interpretation upsert: status_conditions lookup_condition upsert_condition
proof (unfold_locales, goal_cases)
  case (1 cs t c)
  then show ?case by (auto simp: lookup_condition_def find_Some_iff)
next
  case (2 cs t)
  then show ?case by (auto simp: lookup_condition_def find_None_iff)
next
  case (3 cs c)
  then show ?case by (induction cs) (auto simp: lookup_condition_def same_verdict_def)
next
  case (4 t c cs)
  then show ?case by (induction cs) (auto simp: lookup_condition_def)
qed

lemma upsert_status_conditions: "status_conditions lookup_condition upsert_condition"
  by (rule upsert.status_conditions_axioms)

end
