(* ===== verification/App_Status.thy ===== *)
theory App_Status
  imports App_Helper Api_Machinery
begin

text \<open>
  \<open>internal/basic/application/application_status_controller.go\<close>: the controller that copies the
  status feedback of a ManifestWork into the status of its Application. \<open>reconcile_status\<close> is the
  method \<open>Reconcile\<close> of \<open>ApplicationStatusReconciler\<close>; \<open>SetNestedField\<close> and \<open>RetryOnConflict\<close> are the
  arguments \<open>sn\<close> and \<open>retry\<close>.
\<close>

datatype 'o work_event = WorkCreated 'o | WorkUpdated 'o 'o | WorkDeleted 'o

fun manifest_work_predicate :: "manifest_work work_event \<Rightarrow> bool" where
  "manifest_work_predicate (WorkUpdated _ newManifestWork) =
     (containsValidPullLabel (m_labels (mw_meta newManifestWork)) \<and>
      containsValidManifestWorkHubApplicationAnnotations newManifestWork)"
| "manifest_work_predicate (WorkCreated manifestWork) =
     (containsValidPullLabel (m_labels (mw_meta manifestWork)) \<and>
      containsValidManifestWorkHubApplicationAnnotations manifestWork)"
| "manifest_work_predicate (WorkDeleted _) = False"

section \<open>Reading the feedback\<close>

record app_feedback =
  healthStatus :: string
  syncStatus :: string
  operationStatePhase :: string
  operationStateStartedAt :: string
  syncRevision :: string

definition no_feedback :: app_feedback where
  "no_feedback = \<lparr>healthStatus = '''', syncStatus = '''', operationStatePhase = '''',
     operationStateStartedAt = '''', syncRevision = ''''\<rparr>"

text \<open>
  The loop over the feedback values. A value of another type than String has a nil pointer, and
  dereferencing it panics; values with other names are not dereferenced.
\<close>

definition known_feedback :: "string set" where
  "known_feedback = {''healthStatus'', ''syncStatus'', ''operationStatePhase'', ''operationStateStartedAt'', ''syncRevision''}"

definition store_feedback :: "string \<Rightarrow> string \<Rightarrow> app_feedback \<Rightarrow> app_feedback" where
  "store_feedback name v fb =
     (if name = ''healthStatus'' then fb\<lparr>healthStatus := v\<rparr>
      else if name = ''syncStatus'' then fb\<lparr>syncStatus := v\<rparr>
      else if name = ''operationStatePhase'' then fb\<lparr>operationStatePhase := v\<rparr>
      else if name = ''operationStateStartedAt'' then fb\<lparr>operationStateStartedAt := v\<rparr>
      else if name = ''syncRevision'' then fb\<lparr>syncRevision := v\<rparr>
      else fb)"

fun read_feedback :: "feedback_value list \<Rightarrow> app_feedback \<Rightarrow> app_feedback result" where
  "read_feedback [] fb = Inr fb"
| "read_feedback (v # vs) fb =
     (if fv_name v \<in> set [''healthStatus'', ''syncStatus'', ''operationStatePhase'', ''operationStateStartedAt'', ''syncRevision''] then
        (case fv_string v of
           None \<Rightarrow> Inl (Panic ''nil pointer dereference'')
         | Some s \<Rightarrow> read_feedback vs (store_feedback (fv_name v) s fb))
      else read_feedback vs fb)"

definition work_feedback :: "manifest_work \<Rightarrow> app_feedback result" where
  "work_feedback manifestWork =
     (case mw_feedback manifestWork of
        [] \<Rightarrow> Inr no_feedback
      | statusFeedbacks # _ \<Rightarrow> read_feedback statusFeedbacks no_feedback)"

section \<open>Writing the status\<close>

type_synonym set_nested_field = "json \<Rightarrow> string list \<Rightarrow> fields \<Rightarrow> fields result"

definition status_fields :: "app_feedback \<Rightarrow> (json \<times> string list) list" where
  "status_fields fb =
     [(JStr (healthStatus fb), [''status'', ''health'', ''status'']),
      (JStr (syncStatus fb), [''status'', ''sync'', ''status'']),
      (JStr (operationStatePhase fb), [''status'', ''operationState'', ''phase'']),
      (JStr (operationStateStartedAt fb), [''status'', ''operationState'', ''startedAt'']),
      (JObj [], [''status'', ''operationState'', ''operation'']),
      (JStr (syncRevision fb), [''status'', ''sync'', ''revision''])]"

definition set_app_fields :: "set_nested_field \<Rightarrow> (json \<times> string list) list \<Rightarrow> unstructured \<Rightarrow> unstructured result" where
  "set_app_fields sn vs app = (case set_fields sn vs (u_fields app) of
     Inl e \<Rightarrow> Inl e | Inr m \<Rightarrow> Inr (app\<lparr>u_fields := m\<rparr>))"

definition retry_update :: "(('w, unstructured result) state \<Rightarrow> ('w, unstructured result) state) \<Rightarrow> 'w client \<Rightarrow>
    unstructured \<Rightarrow> ('w, unstructured result) state" where
  "retry_update retry C app = retry (update_as as_unstr C (OUnstr app))"

text \<open>A Healthy Application is shown as Progressing first, for the ApplicationSet controller.\<close>

definition simulate_progressing :: "set_nested_field \<Rightarrow> (('w, unstructured result) state \<Rightarrow> ('w, unstructured result) state) \<Rightarrow>
    'w client \<Rightarrow> app_feedback \<Rightarrow> unstructured \<Rightarrow> ('w, unstructured result) state" where
  "simulate_progressing sn retry C fb application =
     (if healthStatus fb = ''Healthy'' then
        bindE (ret (set_app_fields sn [(JStr ''Progressing'', [''status'', ''health'', ''status''])] application)) (\<lambda>application.
        retry_update retry C application)
      else ret (Inr application))"

definition write_status :: "set_nested_field \<Rightarrow> (('w, unstructured result) state \<Rightarrow> ('w, unstructured result) state) \<Rightarrow>
    'w client \<Rightarrow> app_feedback \<Rightarrow> unstructured \<Rightarrow> ('w, unit result) state" where
  "write_status sn retry C fb application =
     bindE (simulate_progressing sn retry C fb application) (\<lambda>application.
     bindE (ret (set_app_fields sn (status_fields fb) application)) (\<lambda>application.
     bindE (retry_update retry C application) (\<lambda>_. ret (Inr ()))))"

definition copy_status :: "set_nested_field \<Rightarrow> (('w, unstructured result) state \<Rightarrow> ('w, unstructured result) state) \<Rightarrow>
    'w client \<Rightarrow> manifest_work \<Rightarrow> app_feedback \<Rightarrow> ('w, unit result) state" where
  "copy_status sn retry C manifestWork fb =
     (let applicationNamespace = mget (m_annotations (mw_meta manifestWork)) AnnotationKeyHubApplicationNamespace;
          applicationName = mget (m_annotations (mw_meta manifestWork)) AnnotationKeyHubApplicationName
      in bindE (fetch as_unstr C (Ref application_gvk applicationNamespace applicationName)) (write_status sn retry C fb))"

definition reconcile_status :: "set_nested_field \<Rightarrow> (('w, unstructured result) state \<Rightarrow> ('w, unstructured result) state) \<Rightarrow>
    'w client \<Rightarrow> string \<Rightarrow> string \<Rightarrow> ('w, unit result) state" where
  "reconcile_status sn retry C ns name = do {
     r \<leftarrow> fetch as_work C (Ref KManifestWork ns name);
     (case r of
        Inl e \<Rightarrow> if is_not_found e then ret (Inr ()) else ret (Inl e)
      | Inr manifestWork \<Rightarrow>
          if m_deletion (mw_meta manifestWork) \<noteq> None then ret (Inr ())
          else bindE (ret (work_feedback manifestWork)) (\<lambda>fb. do {
            fb \<leftarrow> (if operationStateStartedAt fb = '''' then do { now \<leftarrow> c_now_text C; ret (fb\<lparr>operationStateStartedAt := now\<rparr>) }
                  else ret fb);
            (if length (healthStatus fb) = 0 \<or> length (syncStatus fb) = 0 then ret (Inr ())
             else copy_status sn retry C manifestWork fb) })) }"

section \<open>Lemmas\<close>

text \<open>What a feedback list says under a name: its last value, or the default.\<close>

definition feedback_of :: "string \<Rightarrow> feedback_value list \<Rightarrow> string \<Rightarrow> string" where
  "feedback_of n vs = fold (\<lambda>v d. if fv_name v = n then (case fv_string v of None \<Rightarrow> d | Some s \<Rightarrow> s) else d) vs"

lemma feedback_of_simps [simp]:
  "feedback_of n [] d = d"
  "feedback_of n (v # vs) d =
     feedback_of n vs (if fv_name v = n then (case fv_string v of None \<Rightarrow> d | Some s \<Rightarrow> s) else d)"
  by (simp_all add: feedback_of_def)

lemma read_feedback_panics:
  "read_feedback vs fb = Inl (Panic ''nil pointer dereference'') \<longleftrightarrow> (\<exists>v \<in> set vs. fv_name v \<in> known_feedback \<and> fv_string v = None)"
  by (induction vs arbitrary: fb) (auto simp: known_feedback_def split: option.splits)

lemma read_feedback_Cons:
  assumes "read_feedback (v # vs) fb = Inr fb'"
  shows "read_feedback vs (case fv_string v of None \<Rightarrow> fb | Some s \<Rightarrow> store_feedback (fv_name v) s fb) = Inr fb'"
  using assms by (auto simp: store_feedback_def split: if_splits option.splits)

lemma read_feedback_values:
  "read_feedback vs fb = Inr fb' \<Longrightarrow>
     healthStatus fb' = feedback_of ''healthStatus'' vs (healthStatus fb) \<and>
     syncStatus fb' = feedback_of ''syncStatus'' vs (syncStatus fb) \<and>
     operationStatePhase fb' = feedback_of ''operationStatePhase'' vs (operationStatePhase fb) \<and>
     operationStateStartedAt fb' = feedback_of ''operationStateStartedAt'' vs (operationStateStartedAt fb) \<and>
     syncRevision fb' = feedback_of ''syncRevision'' vs (syncRevision fb)"
proof (induction vs arbitrary: fb)
  case (Cons v vs)
  from Cons.IH [OF read_feedback_Cons [OF Cons.prems]] show ?case
    by (cases "fv_string v") (simp_all add: store_feedback_def)
qed simp

lemma set_app_fields_Inr:
  "set_app_fields sn vs app = Inr app' \<longleftrightarrow> (\<exists>m. set_fields sn vs (u_fields app) = Inr m \<and> app' = app\<lparr>u_fields := m\<rparr>)"
  by (auto simp: set_app_fields_def split: sum.splits)

text \<open>The six writes do not disturb one another, and touch nothing outside \<open>status\<close>.\<close>

lemma status_fields_written:
  assumes "nested_fields sn" "set_fields sn (status_fields fb) m = Inr m'"
  shows "get_nested [''status'', ''health'', ''status''] (JObj m') = Some (JStr (healthStatus fb))"
    "get_nested [''status'', ''sync'', ''status''] (JObj m') = Some (JStr (syncStatus fb))"
    "get_nested [''status'', ''sync'', ''revision''] (JObj m') = Some (JStr (syncRevision fb))"
    "get_nested [''status'', ''operationState'', ''phase''] (JObj m') = Some (JStr (operationStatePhase fb))"
    "get_nested [''status'', ''operationState'', ''startedAt''] (JObj m') = Some (JStr (operationStateStartedAt fb))"
    "k \<noteq> ''status'' \<Longrightarrow> map_of m' k = map_of m k"
proof -
  note set = nested_fields.set_fields_get [OF assms(1)]
  from assms(2) have eqs: "set_fields sn ([] @ (JStr (healthStatus fb), [''status'', ''health'', ''status'']) # tl (status_fields fb)) m = Inr m'"
    "set_fields sn (take 1 (status_fields fb) @ (JStr (syncStatus fb), [''status'', ''sync'', ''status'']) # drop 2 (status_fields fb)) m = Inr m'"
    "set_fields sn (take 5 (status_fields fb) @ (JStr (syncRevision fb), [''status'', ''sync'', ''revision'']) # []) m = Inr m'"
    "set_fields sn (take 2 (status_fields fb) @ (JStr (operationStatePhase fb), [''status'', ''operationState'', ''phase'']) # drop 3 (status_fields fb)) m = Inr m'"
    "set_fields sn (take 3 (status_fields fb) @ (JStr (operationStateStartedAt fb), [''status'', ''operationState'', ''startedAt'']) # drop 4 (status_fields fb)) m = Inr m'"
    by (simp_all add: status_fields_def)
  show "get_nested [''status'', ''health'', ''status''] (JObj m') = Some (JStr (healthStatus fb))"
    by (rule set [OF eqs(1)]) (simp add: status_fields_def parallel_def)
  show "get_nested [''status'', ''sync'', ''status''] (JObj m') = Some (JStr (syncStatus fb))"
    by (rule set [OF eqs(2)]) (simp add: status_fields_def parallel_def)
  show "get_nested [''status'', ''sync'', ''revision''] (JObj m') = Some (JStr (syncRevision fb))"
    by (rule set [OF eqs(3)]) simp
  show "get_nested [''status'', ''operationState'', ''phase''] (JObj m') = Some (JStr (operationStatePhase fb))"
    by (rule set [OF eqs(4)]) (simp add: status_fields_def parallel_def)
  show "get_nested [''status'', ''operationState'', ''startedAt''] (JObj m') = Some (JStr (operationStateStartedAt fb))"
    by (rule set [OF eqs(5)]) (simp add: status_fields_def parallel_def)
  show "map_of m' k = map_of m k" if "k \<noteq> ''status''"
    by (rule nested_fields.set_fields_top [OF assms]) (use that in \<open>auto simp: status_fields_def\<close>)
qed

section \<open>The whole handler\<close>

text \<open>An Application that differs from another in its fields and server-owned metadata only.\<close>

definition same_app :: "unstructured \<Rightarrow> unstructured \<Rightarrow> bool" where
  "same_app app app' = (u_api_version app' = u_api_version app \<and> u_kind app' = u_kind app \<and>
     m_name (u_meta app') = m_name (u_meta app) \<and> m_namespace (u_meta app') = m_namespace (u_meta app) \<and>
     m_labels (u_meta app') = m_labels (u_meta app) \<and> m_annotations (u_meta app') = m_annotations (u_meta app) \<and>
     m_finalizers (u_meta app') = m_finalizers (u_meta app) \<and> m_deletion (u_meta app') = m_deletion (u_meta app) \<and>
     (\<forall>k. k \<noteq> ''status'' \<longrightarrow> map_of (u_fields app') k = map_of (u_fields app) k))"

lemma same_app_refl [simp]: "same_app app app"
  by (simp add: same_app_def)

lemma same_app_trans: "same_app a b \<Longrightarrow> same_app b c \<Longrightarrow> same_app a c"
  by (simp add: same_app_def)

lemma same_app_ref: "same_app app app' \<Longrightarrow> ref_of (OUnstr app') = ref_of (OUnstr app)"
  by (simp add: same_app_def)

text \<open>An Application that an update does not remove: one that is being deleted goes with its last finalizer.\<close>

definition outlives_update :: "unstructured \<Rightarrow> bool" where
  "outlives_update app = (m_deletion (u_meta app) = None \<or> m_finalizers (u_meta app) \<noteq> [])"

lemma same_app_outlives: "same_app app app' \<Longrightarrow> outlives_update app' = outlives_update app"
  by (simp add: same_app_def outlives_update_def)

context kube_api
begin

lemma wp_retry_update:
  assumes "retrying retry view"
  shows "wp (retry_update retry C app) (\<lambda>r w'.
     (\<forall>q. q \<noteq> ref_of (OUnstr app) \<longrightarrow> view w' q = view w q) \<and>
     (\<forall>app'. r = Inr app' \<longrightarrow> (outlives_update app \<longrightarrow> view w' (ref_of (OUnstr app)) = Some (OUnstr app')) \<and> same_app app app' \<and>
        u_fields app' = u_fields app)) w"
  unfolding retry_update_def
proof (rule retrying.wp_retry [OF assms(1)])
  fix w1 assume v: "view w1 = view w"
  show "wp (update_as as_unstr C (OUnstr app)) (\<lambda>r w'.
     ((\<forall>q. q \<noteq> ref_of (OUnstr app) \<longrightarrow> view w' q = view w q) \<and>
      (\<forall>app'. r = Inr app' \<longrightarrow> (outlives_update app \<longrightarrow> view w' (ref_of (OUnstr app)) = Some (OUnstr app')) \<and> same_app app app' \<and>
         u_fields app' = u_fields app)) \<and>
     ((\<exists>e. r = Inl e \<and> is_conflict e) \<longrightarrow> view w' = view w)) w1"
    by (rule wp_update_as) (use v in \<open>auto simp: same_content_def same_app_def outlives_update_def\<close>)
qed

lemma wp_write_status:
  assumes "retrying retry view" "nested_fields sn"
  shows "wp (write_status sn retry C fb app) (\<lambda>r w'.
     (\<forall>q. q \<noteq> ref_of (OUnstr app) \<longrightarrow> view w' q = view w q) \<and>
     (r = Inr () \<and> outlives_update app \<longrightarrow> (\<exists>app' m. view w' (ref_of (OUnstr app)) = Some (OUnstr app') \<and> same_app app app' \<and>
        set_fields sn (status_fields fb) m = Inr (u_fields app')))) w" (is "wp _ ?Q w")
  unfolding write_status_def
proof (rule wp_bindE_rule)
  show "wp (simulate_progressing sn retry C fb app) (\<lambda>r w'.
     (\<forall>q. q \<noteq> ref_of (OUnstr app) \<longrightarrow> view w' q = view w q) \<and> (\<forall>app'. r = Inr app' \<longrightarrow> same_app app app')) w"
  proof (cases "healthStatus fb = ''Healthy''")
    case True
    have "same_app app (app\<lparr>u_fields := m\<rparr>)"
      if "set_fields sn [(JStr ''Progressing'', [''status'', ''health'', ''status''])] (u_fields app) = Inr m" for m
      using nested_fields.set_fields_top [OF assms(2) that] by (simp add: same_app_def)
    with True show ?thesis
      unfolding simulate_progressing_def
      by (auto simp: wp_simps set_app_fields_def dest: same_app_trans split: sum.splits
          intro!: wp_mono [OF wp_retry_update [OF assms(1)]])
  next
    case False
    then show ?thesis by (simp add: simulate_progressing_def wp_simps)
  qed
next
  fix app1 w1
  assume w1: "(\<forall>q. q \<noteq> ref_of (OUnstr app) \<longrightarrow> view w1 q = view w q) \<and> (\<forall>app'. Inr app1 = Inr app' \<longrightarrow> same_app app app')"
  then have s1: "same_app app app1" by blast
  show "wp (bindE (ret (set_app_fields sn (status_fields fb) app1)) (\<lambda>application.
      bindE (retry_update retry C application) (\<lambda>_. ret (Inr ())))) ?Q w1"
  proof (cases "set_app_fields sn (status_fields fb) app1")
    case (Inl e)
    with w1 show ?thesis by (simp add: wp_simps)
  next
    case (Inr app2)
    then obtain m where m: "set_fields sn (status_fields fb) (u_fields app1) = Inr m" "app2 = app1\<lparr>u_fields := m\<rparr>"
      by (auto simp: set_app_fields_Inr)
    have "same_app app1 app2"
      using status_fields_written(6) [OF assms(2) m(1)] by (simp add: same_app_def m(2))
    with s1 have s2: "same_app app app2" by (rule same_app_trans)
    then have st: "outlives_update app2 = outlives_update app" and ref: "ref_of (OUnstr app2) = ref_of (OUnstr app)"
      using same_app_ref same_app_outlives by blast+
    show ?thesis
      unfolding Inr wp_bindE wp_ret sum.case
      by (rule wp_mono [OF wp_retry_update [OF assms(1), of app2], unfolded ref st])
        (use w1 s2 m in \<open>auto split: sum.splits dest: same_app_trans simp del: ref_of_simps; metis same_app_trans unstructured.select_convs(4) unstructured.surjective unstructured.update_convs(4)\<close>)
  qed
qed auto

end

text \<open>The feedback the handler reads of a work: the values of the first manifest.\<close>

definition feedback_value_of :: "string \<Rightarrow> manifest_work \<Rightarrow> string" where
  "feedback_value_of n mw = (case mw_feedback mw of [] \<Rightarrow> '''' | vs # _ \<Rightarrow> feedback_of n vs '''')"

lemma work_feedback_values:
  assumes "work_feedback mw = Inr fb"
  shows "healthStatus fb = feedback_value_of ''healthStatus'' mw" "syncStatus fb = feedback_value_of ''syncStatus'' mw"
    "operationStatePhase fb = feedback_value_of ''operationStatePhase'' mw"
    "operationStateStartedAt fb = feedback_value_of ''operationStateStartedAt'' mw"
    "syncRevision fb = feedback_value_of ''syncRevision'' mw"
  using assms by (auto simp: work_feedback_def feedback_value_of_def no_feedback_def
      dest!: read_feedback_values split: list.splits)

text \<open>The status an Application shows for a feedback.\<close>

definition shows_status :: "app_feedback \<Rightarrow> unstructured \<Rightarrow> bool" where
  "shows_status fb app = (
     get_nested [''status'', ''health'', ''status''] (JObj (u_fields app)) = Some (JStr (healthStatus fb)) \<and>
     get_nested [''status'', ''sync'', ''status''] (JObj (u_fields app)) = Some (JStr (syncStatus fb)) \<and>
     get_nested [''status'', ''sync'', ''revision''] (JObj (u_fields app)) = Some (JStr (syncRevision fb)) \<and>
     get_nested [''status'', ''operationState'', ''phase''] (JObj (u_fields app)) = Some (JStr (operationStatePhase fb)) \<and>
     get_nested [''status'', ''operationState'', ''startedAt''] (JObj (u_fields app)) = Some (JStr (operationStateStartedAt fb)))"

lemma shows_status_written:
  "nested_fields sn \<Longrightarrow> set_fields sn (status_fields fb) m = Inr (u_fields app) \<Longrightarrow> shows_status fb app"
  unfolding shows_status_def by (intro conjI status_fields_written(1-5))

text \<open>Feedback that only lacks the start time, for which the handler takes the current one.\<close>

definition completes :: "manifest_work \<Rightarrow> app_feedback \<Rightarrow> bool" where
  "completes mw fb = (healthStatus fb = feedback_value_of ''healthStatus'' mw \<and>
     syncStatus fb = feedback_value_of ''syncStatus'' mw \<and>
     operationStatePhase fb = feedback_value_of ''operationStatePhase'' mw \<and>
     syncRevision fb = feedback_value_of ''syncRevision'' mw \<and>
     (feedback_value_of ''operationStateStartedAt'' mw \<noteq> '''' \<longrightarrow>
        operationStateStartedAt fb = feedback_value_of ''operationStateStartedAt'' mw))"

context kube_api
begin

lemma wp_reconcile_status:
  assumes "retrying retry view" "nested_fields sn"
    and mw: "view w (Ref KManifestWork ns name) = Some (OManifestWork mw)"
    and named: "A = Ref application_gvk (mget (m_annotations (mw_meta mw)) AnnotationKeyHubApplicationNamespace)
         (mget (m_annotations (mw_meta mw)) AnnotationKeyHubApplicationName)"
  shows "wp (reconcile_status sn retry C ns name) (\<lambda>r w'.
     (\<forall>q. q \<noteq> A \<longrightarrow> view w' q = view w q) \<and>
     (m_deletion (mw_meta mw) \<noteq> None \<or> feedback_value_of ''healthStatus'' mw = '''' \<or>
        feedback_value_of ''syncStatus'' mw = '''' \<longrightarrow> view w' = view w) \<and>
     (r = Inr () \<and> m_deletion (mw_meta mw) = None \<and> feedback_value_of ''healthStatus'' mw \<noteq> '''' \<and>
        feedback_value_of ''syncStatus'' mw \<noteq> '''' \<longrightarrow>
        (\<exists>app. view w A = Some (OUnstr app) \<and> (outlives_update app \<longrightarrow>
           (\<exists>app' fb. view w' A = Some (OUnstr app') \<and> same_app app app' \<and> completes mw fb \<and> shows_status fb app'))))) w"
    (is "wp _ ?Q w")
proof -
  define Q where "Q = ?Q"
  have err: "Q (Inl e) w1" if "view w1 = view w" for e w1 using that by (simp add: Q_def)
  have skip: "Q (Inr ()) w1" if "view w1 = view w"
    "m_deletion (mw_meta mw) \<noteq> None \<or> feedback_value_of ''healthStatus'' mw = '''' \<or> feedback_value_of ''syncStatus'' mw = ''''"
    for w1 using that by (auto simp: Q_def)
  have copy: "wp (copy_status sn retry C mw fb) Q w1"
    if v: "view w1 = view w" and fb: "completes mw fb" "healthStatus fb \<noteq> ''''" "syncStatus fb \<noteq> ''''"
      "m_deletion (mw_meta mw) = None" for fb w1
    unfolding copy_status_def Let_def wp_bindE named [symmetric]
  proof (rule wp_fetch)
    have nonempty: "feedback_value_of ''healthStatus'' mw \<noteq> ''''" "feedback_value_of ''syncStatus'' mw \<noteq> ''''"
      using fb by (simp_all add: completes_def)
    fix x app w2 assume x: "view w2 = view w1" "view w1 A = Some x" "as_unstr x = Some app"
    then have app: "view w A = Some (OUnstr app)" using v by auto
    then have ref: "ref_of (OUnstr app) = A" by (rule view_ref)
    have "wp (write_status sn retry C fb app) Q w2"
      unfolding Q_def
      by (rule wp_mono [OF wp_write_status [OF assms(1,2), where app = app, unfolded ref]])
        (use fb v x(1) app nonempty in \<open>auto simp del: ref_of_simps intro: shows_status_written [OF assms(2)]\<close>)
    then show "case Inr app of Inl e \<Rightarrow> Q (Inl e) w2 | Inr x \<Rightarrow> wp (write_status sn retry C fb x) Q w2"
      by simp
  qed (use v err in auto)
  have "wp (reconcile_status sn retry C ns name) Q w"
    unfolding reconcile_status_def wp_bind
    by (rule wp_fetch)
      (use mw in \<open>auto simp: wp_simps completes_def work_feedback_values intro!: err skip copy wp_now_text split: sum.splits\<close>)
  then show ?thesis unfolding Q_def .
qed

end


definition example_reporting_work :: manifest_work where
  "example_reporting_work = (generateManifestWork ''app-abcde'' ''c1''
       \<lparr>u_api_version = ''argoproj.io/v1alpha1'', u_kind = ''Application'', u_meta = new_meta ''app'' ''argocd'', u_fields = []\<rparr>)
     \<lparr>mw_feedback := [[\<lparr>fv_name = ''healthStatus'', fv_string = Some ''Healthy''\<rparr>,
        \<lparr>fv_name = ''syncStatus'', fv_string = Some ''Synced''\<rparr>, \<lparr>fv_name = ''syncRevision'', fv_string = Some ''r1''\<rparr>]]\<rparr>"

definition example_hub_app :: unstructured where
  "example_hub_app = \<lparr>u_api_version = ''argoproj.io/v1alpha1'', u_kind = ''Application'',
     u_meta = new_meta ''app'' ''argocd'', u_fields = [(''spec'', JObj [])]\<rparr>"

definition example_status_world :: mem where
  "example_status_world = mem_of [OManifestWork example_reporting_work, OUnstr example_hub_app]"


text \<open>
  A feedback value with one of the five known names whose value is not a string makes the
  status controller panic, whatever the Application is.
\<close>

theorem non_string_feedback_panics:
  assumes "reliable_api C view healthy" and "healthy w"
    and "view w (Ref KManifestWork ns name) = Some (OManifestWork mw)" and "m_deletion (mw_meta mw) = None"
    and "mw_feedback mw = vs # rest" and "v \<in> set vs" and "fv_name v \<in> known_feedback" and "fv_string v = None"
    and "run_state (reconcile_status sn retry C ns name) w = (r, w')"
  shows "r = Inl (Panic ''nil pointer dereference'') \<and> view w' = view w"
proof -
  have "work_feedback mw = Inl (Panic ''nil pointer dereference'')"
    using read_feedback_panics [of vs no_feedback] assms(5-8) by (auto simp: work_feedback_def)
  then have "wp (reconcile_status sn retry C ns name)
      (\<lambda>r w'. r = Inl (Panic ''nil pointer dereference'') \<and> view w' = view w) w"
    unfolding reconcile_status_def wp_bind
    by (intro reliable_api.wp_fetch_healthy [OF assms(1,2)]) (use assms(3,4) in \<open>auto simp: wp_simps\<close>)
  then show ?thesis using assms(9) by (rule wp_run)
qed

definition example_typed_feedback_work :: manifest_work where
  "example_typed_feedback_work = example_reporting_work
     \<lparr>mw_feedback := [[\<lparr>fv_name = ''syncRevision'', fv_string = None\<rparr>]]\<rparr>"

definition example_typed_feedback_world :: mem where
  "example_typed_feedback_world = mem_of [OManifestWork example_typed_feedback_work]"

theorem non_string_feedback_panics_witness:
  "fst (run_state (reconcile_status set_path (retry_n 3) mem_client ''c1'' ''app-abcde'') example_typed_feedback_world) =
     Inl (Panic ''nil pointer dereference'')"
proof -
  let ?v = "\<lparr>fv_name = ''syncRevision'', fv_string = None\<rparr>"
  let ?run = "run_state (reconcile_status set_path (retry_n 3) mem_client ''c1'' ''app-abcde'') example_typed_feedback_world"
  have mw: "mem_view example_typed_feedback_world (Ref KManifestWork ''c1'' ''app-abcde'') =
      Some (OManifestWork example_typed_feedback_work)" by code_simp
  have del: "m_deletion (mw_meta example_typed_feedback_work) = None" by code_simp
  have vs: "mw_feedback example_typed_feedback_work = [?v] # []" by (simp add: example_typed_feedback_work_def)
  have v: "?v \<in> set [?v]" "fv_name ?v \<in> known_feedback" "fv_string ?v = None" by (simp_all add: known_feedback_def)
  have h: "mem_healthy example_typed_feedback_world" by code_simp
  from non_string_feedback_panics [OF mem_reliable_api, OF h, OF mw, OF del, OF vs, OF v(1), OF v(2), OF v(3),
      of set_path "retry_n 3" "fst ?run" "snd ?run"] show ?thesis unfolding prod.collapse by simp
qed

end
