(* ===== verification/Ensure.thy ===== *)
theory Ensure
  imports Mem_Client
begin

text \<open>
  The get-or-create pattern of the controllers: look an object up, create it when it is not found,
  take \<open>AlreadyExists\<close> from the creation for success. \<open>ensure_object\<close> is the pattern;
  the locales \<open>ensures\<close> and \<open>ensures_once\<close> are what an operation built on it promises, for every client that obeys
  \<open>kube_api\<close>. The components interpret them on their own operations.
\<close>

section \<open>The pattern\<close>

text \<open>
  \<open>found\<close> is what the code does with an existing object, \<open>build\<close> how it prepares a new one, \<open>check_msg\<close>
  and \<open>create_msg\<close> what it wraps errors of the lookup and of the creation with.
\<close>

definition create_unless_exists :: "'w client \<Rightarrow> string \<Rightarrow> kobj \<Rightarrow> ('w, unit result) state" where
  "create_unless_exists C create_msg x = do {
     c \<leftarrow> create C x;
     (case c of
        Inl e \<Rightarrow> if is_already_exists e then ret (Inr ()) else ret (Inl (Wrapped create_msg e))
      | Inr _ \<Rightarrow> ret (Inr ())) }"

definition ensure_object :: "'w client \<Rightarrow> (kobj \<Rightarrow> 'o option) \<Rightarrow> objref \<Rightarrow> string \<Rightarrow> string \<Rightarrow>
    ('o \<Rightarrow> ('w, unit result) state) \<Rightarrow> ('w, kobj result) state \<Rightarrow> ('w, unit result) state" where
  "ensure_object C as_o r check_msg create_msg found build = do {
     g \<leftarrow> fetch as_o C r;
     (case g of
        Inl e \<Rightarrow>
          if is_not_found e then bindE build (create_unless_exists C create_msg)
          else ret (Inl (Wrapped check_msg e))
      | Inr x \<Rightarrow> found x) }"

context kube_api
begin

lemma wp_create_unless_exists [wp_intros]:
  assumes "\<And>y w'. view w (ref_of x) = None \<Longrightarrow> same_content (admit x) y \<Longrightarrow>
      view w' = (view w)(ref_of x := Some y) \<Longrightarrow> Q (Inr ()) w'"
    and "\<And>w'. view w' = view w \<Longrightarrow> view w (ref_of x) \<noteq> None \<Longrightarrow> Q (Inr ()) w'"
    and "\<And>e w'. (\<And>r. r \<noteq> ref_of x \<Longrightarrow> view w' r = view w r) \<Longrightarrow> Q (Inl e) w'"
  shows "wp (create_unless_exists C msg x) Q w"
  unfolding create_unless_exists_def wp_bind
proof (rule wp_create_unit)
  fix y w' assume "view w (ref_of x) = None" "same_content (admit x) y" "view w' = (view w)(ref_of x := Some y)"
  then show "wp (case Inr () of Inl e \<Rightarrow> if is_already_exists e then ret (Inr ()) else ret (Inl (Wrapped msg e))
      | Inr _ \<Rightarrow> ret (Inr ())) Q w'" by (simp add: wp_simps assms(1))
next
  fix e w' assume e: "\<And>r. r \<noteq> ref_of x \<Longrightarrow> view w' r = view w r"
    "is_already_exists e \<Longrightarrow> view w' = view w \<and> view w (ref_of x) \<noteq> None"
  show "wp (case Inl e of Inl e \<Rightarrow> if is_already_exists e then ret (Inr ()) else ret (Inl (Wrapped msg e))
      | Inr _ \<Rightarrow> ret (Inr ())) Q w'"
    using e by (cases "is_already_exists e") (auto simp: wp_simps assms(2,3) simp del: not_None_eq)
qed

lemma wp_ensure_object:
  assumes "\<And>x w1. view w1 = view w \<Longrightarrow> view w r \<noteq> None \<Longrightarrow> (\<And>y. view w r = Some y \<Longrightarrow> as_o y = Some x) \<Longrightarrow> wp (found x) Q w1"
    and "\<And>w1. view w1 = view w \<Longrightarrow> view w r = None \<Longrightarrow> wp (bindE build (create_unless_exists C create_msg)) Q w1"
    and "\<And>e w1. view w1 = view w \<Longrightarrow> Q (Inl e) w1"
  shows "wp (ensure_object C as_o r check_msg create_msg found build) Q w"
  unfolding ensure_object_def wp_bind
  by (rule wp_fetch) (use assms in \<open>auto simp: wp_simps\<close>)

end

section \<open>Looking after one object\<close>

text \<open>
  What a run that looks after the object \<open>t\<close> does: no other object changes, an existing object makes it do nothing, and after
  a success the object exists and satisfies \<open>good\<close> if it is new.
\<close>

definition ensured :: "('w \<Rightarrow> objref \<Rightarrow> kobj option) \<Rightarrow> objref \<Rightarrow> (kobj \<Rightarrow> bool) \<Rightarrow> 'w \<Rightarrow> unit result \<Rightarrow> 'w \<Rightarrow> bool" where
  "ensured view t good w r w' = ((\<forall>q. q \<noteq> t \<longrightarrow> view w' q = view w q) \<and>
     (view w t \<noteq> None \<longrightarrow> view w' = view w) \<and>
     (r = Inr () \<longrightarrow> (\<exists>x. view w' t = Some x \<and> (view w t = None \<longrightarrow> good x))))"

text \<open>Two such runs in a row, for different objects.\<close>

lemma wp_ensured_two:
  assumes m: "wp m (ensured view t g w) w" and n: "\<And>w1. wp n (ensured view u h w1) w1" and tu: "t \<noteq> u"
  shows "wp (bindE (wrapE a m) (\<lambda>_. bindE (wrapE b n) (\<lambda>_. ret (Inr ())))) (\<lambda>r w'.
     (\<forall>q. q \<notin> {t, u} \<longrightarrow> view w' q = view w q) \<and> (\<forall>q. view w q \<noteq> None \<longrightarrow> view w' q = view w q) \<and>
     (r = Inr () \<longrightarrow> (\<exists>x. view w' t = Some x \<and> (view w t = None \<longrightarrow> g x)) \<and>
        (\<exists>x. view w' u = Some x \<and> (view w u = None \<longrightarrow> h x)))) w" (is "wp _ ?Q w")
proof (rule wp_bindE_rule [where P = "\<lambda>r w1. ensured view t g w (case r of Inl e \<Rightarrow> Inl e | Inr _ \<Rightarrow> Inr ()) w1"])
  show "wp (wrapE a m) (\<lambda>r w1. ensured view t g w (case r of Inl e \<Rightarrow> Inl e | Inr _ \<Rightarrow> Inr ()) w1) w"
    unfolding wp_wrapE by (rule wp_mono [OF m]) (auto simp: ensured_def wrap_result_def split: sum.splits)
next
  fix e w1 assume "ensured view t g w (case Inl e of Inl e \<Rightarrow> Inl e | Inr _ \<Rightarrow> Inr ()) w1"
  then have "\<forall>q. q \<noteq> t \<longrightarrow> view w1 q = view w q" "view w t \<noteq> None \<longrightarrow> view w1 = view w"
    by (simp_all add: ensured_def)
  moreover then have "view w q \<noteq> None \<longrightarrow> view w1 q = view w q" for q by (cases "q = t") auto
  ultimately show "?Q (Inl e) w1" by simp
next
  fix x :: unit and w1 assume e1: "ensured view t g w (case Inr x of Inl e \<Rightarrow> Inl e | Inr _ \<Rightarrow> Inr ()) w1"
  then have f1: "\<forall>q. q \<noteq> t \<longrightarrow> view w1 q = view w q" and k1: "view w t \<noteq> None \<longrightarrow> view w1 = view w"
    and x1: "\<exists>x. view w1 t = Some x \<and> (view w t = None \<longrightarrow> g x)"
    by (simp_all add: ensured_def)
  from f1 k1 have keep1: "view w q \<noteq> None \<longrightarrow> view w1 q = view w q" for q by (cases "q = t") auto
  show "wp (bindE (wrapE b n) (\<lambda>_. ret (Inr ()))) ?Q w1"
    unfolding wp_bindE wp_wrapE
  proof (rule wp_mono [OF n])
    fix r :: "unit result" and w2 assume e2: "ensured view u h w1 r w2"
    then have f2: "\<forall>q. q \<noteq> u \<longrightarrow> view w2 q = view w1 q" and k2: "view w1 u \<noteq> None \<longrightarrow> view w2 = view w1"
      by (simp_all add: ensured_def)
    have keep2: "view w q \<noteq> None \<longrightarrow> view w2 q = view w q" for q
      using f2 k2 keep1 [of q] by (cases "q = u") auto
    have frame2: "\<forall>q. q \<notin> {t, u} \<longrightarrow> view w2 q = view w q" using f1 f2 by simp
    have xu: "view w1 u = view w u" using f1 tu by simp
    have xt: "view w2 t = view w1 t" using f2 tu by simp
    show "case wrap_result b r of Inl e \<Rightarrow> ?Q (Inl e) w2 | Inr _ \<Rightarrow> wp (ret (Inr ())) ?Q w2"
    proof (cases r)
      case (Inl e)
      with frame2 keep2 show ?thesis by simp
    next
      case (Inr _)
      with e2 have "\<exists>x. view w2 u = Some x \<and> (view w u = None \<longrightarrow> h x)" by (simp add: ensured_def xu)
      with Inr frame2 keep2 x1 xt show ?thesis by (simp add: wp_simps)
    qed
  qed
qed

section \<open>Storing a ManifestWork\<close>

text \<open>What is stored of a work that is written: all but its status and the metadata of the server.\<close>

definition work_like :: "manifest_work \<Rightarrow> manifest_work \<Rightarrow> bool" where
  "work_like x y = (mw_spec y = mw_spec x \<and> m_name (mw_meta y) = m_name (mw_meta x) \<and>
     m_namespace (mw_meta y) = m_namespace (mw_meta x) \<and> m_labels (mw_meta y) = m_labels (mw_meta x) \<and>
     m_annotations (mw_meta y) = m_annotations (mw_meta x) \<and> m_finalizers (mw_meta y) = m_finalizers (mw_meta x) \<and>
     m_owners (mw_meta y) = m_owners (mw_meta x) \<and> m_deletion (mw_meta y) = m_deletion (mw_meta x))"

lemma work_like_create: "same_content (admit (OManifestWork x)) z \<Longrightarrow> \<exists>y. z = OManifestWork y \<and> work_like x y"
  by (auto simp: same_content_def work_like_def)

lemma work_like_update: "same_content (keep_status old (admit (OManifestWork x))) z \<Longrightarrow> \<exists>y. z = OManifestWork y \<and> work_like x y"
  by (cases old) (auto simp: same_content_def work_like_def)

context kube_api
begin

lemma wp_create_work:
  assumes "\<And>y w'. work_like x y \<Longrightarrow> view w (ref_of (OManifestWork x)) = None \<Longrightarrow>
      view w' = (view w)(ref_of (OManifestWork x) := Some (OManifestWork y)) \<Longrightarrow> Q (Inr ()) w'"
    and "\<And>e w'. (\<And>q. q \<noteq> ref_of (OManifestWork x) \<Longrightarrow> view w' q = view w q) \<Longrightarrow> Q (Inl e) w'"
  shows "wp (create C (OManifestWork x)) Q w"
proof (rule wp_create_unit)
  fix z w' assume z: "view w (ref_of (OManifestWork x)) = None" "same_content (admit (OManifestWork x)) z"
    "view w' = (view w)(ref_of (OManifestWork x) := Some z)"
  from work_like_create [OF z(2)] obtain y where "z = OManifestWork y" "work_like x y" by blast
  with z show "Q (Inr ()) w'" by (intro assms(1)) auto
qed (rule assms(2))

lemma wp_update_work:
  assumes "m_deletion (mw_meta x) = None"
    and "\<And>y w'. work_like x y \<Longrightarrow> view w' = (view w)(ref_of (OManifestWork x) := Some (OManifestWork y)) \<Longrightarrow> Q (Inr ()) w'"
    and "\<And>e w'. (\<And>q. q \<noteq> ref_of (OManifestWork x) \<Longrightarrow> view w' q = view w q) \<Longrightarrow> Q (Inl e) w'"
  shows "wp (update C (OManifestWork x)) Q w"
proof (rule wp_update_unit)
  fix z w' old assume z: "same_content (keep_status old (admit (OManifestWork x))) z"
    "view w' = (view w)(ref_of (OManifestWork x) := if m_deletion (meta_of (OManifestWork x)) \<noteq> None \<and>
       m_finalizers (meta_of (OManifestWork x)) = [] then None else Some z)"
  from work_like_update [OF z(1)] obtain y where "z = OManifestWork y" "work_like x y" by blast
  with z assms(1) show "Q (Inr ()) w'" by (intro assms(2)) auto
qed (rule assms(3))

end

section \<open>The contract\<close>

text \<open>
  An operation \<open>prog\<close> with argument \<open>p\<close> looks after one object, \<open>target p\<close>: it touches no other, after a success the object exists,
  and one it creates satisfies \<open>good p\<close>.
\<close>

locale ensures =
  fixes prog :: "'w client \<Rightarrow> 'p \<Rightarrow> ('w, unit result) state"
    and target :: "'p \<Rightarrow> objref" and good :: "'p \<Rightarrow> kobj \<Rightarrow> bool"
  assumes frame: "kube_api C view \<Longrightarrow> q \<noteq> target p \<Longrightarrow> wp (prog C p) (\<lambda>_ w'. view w' q = view w q) w"
    and present: "kube_api C view \<Longrightarrow> wp (prog C p) (\<lambda>r w'. r = Inr () \<longrightarrow> view w' (target p) \<noteq> None) w"
    and created: "kube_api C view \<Longrightarrow> view w (target p) = None \<Longrightarrow>
        wp (prog C p) (\<lambda>r w'. r = Inr () \<longrightarrow> (\<exists>x. view w' (target p) = Some x \<and> good p x)) w"

text \<open>An operation that leaves an object that exists as it is.\<close>

locale ensures_once = ensures +
  assumes keeps: "kube_api C view \<Longrightarrow> view w (target p) \<noteq> None \<Longrightarrow> wp (prog C p) (\<lambda>_ w'. view w' = view w) w"
begin

lemma existing_kept:
  assumes "kube_api C view" "view w (target p) = Some x" "run_state (prog C p) w = (r, w')"
  shows "view w' = view w"
  by (rule wp_run [OF keeps [OF assms(1)] assms(3)]) (simp add: assms(2))

lemma success:
  assumes "kube_api C view" "run_state (prog C p) w = (Inr (), w')"
  shows "\<exists>x. view w' (target p) = Some x \<and> (view w (target p) = Some x \<or> view w (target p) = None \<and> good p x)"
proof (cases "view w (target p)")
  case None
  from wp_run [OF created [OF assms(1) None] assms(2)] None show ?thesis by auto
next
  case (Some x)
  with existing_kept [OF assms(1) Some assms(2)] show ?thesis by simp
qed

text \<open>All of it in one rule.\<close>

lemma wp_summary:
  assumes "kube_api C view"
  shows "wp (prog C p) (ensured view (target p) (good p) w) w"
  unfolding ensured_def
proof (rule wpI, intro conjI impI allI)
  fix r w' q assume run: "run_state (prog C p) w = (r, w')"
  show "view w' q = view w q" if "q \<noteq> target p"
    using wp_run [OF frame [OF assms that] run] .
  show "view w' = view w" if "view w (target p) \<noteq> None"
    using existing_kept [OF assms _ run] that by auto
  show "\<exists>x. view w' (target p) = Some x \<and> (view w (target p) = None \<longrightarrow> good p x)" if "r = Inr ()"
    using success [OF assms run [unfolded that]] by auto
qed

text \<open>Running it again after a success changes nothing.\<close>

lemma idempotent:
  assumes "kube_api C view" "run_state (prog C p) w = (Inr (), w1)" "run_state (prog C p) w1 = (r, w2)"
  shows "view w2 = view w1"
  using success [OF assms(1,2)] existing_kept [OF assms(1) _ assms(3)] by blast

end

end
