(* ===== verification/Cluster_Controller.thy ===== *)
theory Cluster_Controller
  imports Ensure
begin

text \<open>
  \<open>internal/basic/application/cluster_controller.go\<close>: the controller that keeps one Argo CD cluster
  Secret per ManagedCluster. The field \<open>ArgoCDNamespace\<close> of the reconciler is the argument \<open>argocd_ns\<close>.
\<close>

definition cluster_secret_name :: "string \<Rightarrow> string" where
  "cluster_secret_name clusterName = clusterName @ ''-secret''"

definition cluster_secret :: "string \<Rightarrow> managed_cluster \<Rightarrow> secret" where
  "cluster_secret argocd_ns cluster =
     \<lparr>sec_meta = (new_meta (cluster_secret_name (m_name (mc_meta cluster))) argocd_ns)
        \<lparr>m_labels := [(''argocd.argoproj.io/secret-type'', ''cluster'')]\<rparr>,
      sec_type = ''Opaque'', sec_data = [],
      sec_string_data = [(''name'', m_name (mc_meta cluster)),
        (''server'', ''https://'' @ m_name (mc_meta cluster) @ ''-control-plane:6443'')]\<rparr>"

definition createSecret :: "'w client \<Rightarrow> string \<times> managed_cluster \<Rightarrow> ('w, unit result) state" where
  "createSecret C = (\<lambda>(argocd_ns, cluster). do {
     let secret = cluster_secret argocd_ns cluster;
     r \<leftarrow> fetch as_secret C (ref_of (OSecret secret));
     (case r of
        Inr _ \<Rightarrow> ret (Inr ())
      | Inl e \<Rightarrow> if \<not> is_not_found e then ret (Inl e) else create C (OSecret secret)) })"

definition deleteSecret :: "'w client \<Rightarrow> string \<Rightarrow> string \<Rightarrow> ('w, unit result) state" where
  "deleteSecret C argocd_ns clusterName = do {
     r \<leftarrow> fetch as_secret C (Ref KSecret argocd_ns (cluster_secret_name clusterName));
     (case r of
        Inl e \<Rightarrow> if is_not_found e then ret (Inr ()) else ret (Inl e)
      | Inr secret \<Rightarrow> delete_obj C (OSecret secret)) }"

definition reconcile_cluster :: "'w client \<Rightarrow> string \<Rightarrow> string \<Rightarrow> ('w, unit result) state" where
  "reconcile_cluster C argocd_ns name = do {
     r \<leftarrow> fetch as_managed_cluster C (Ref KManagedCluster '''' name);
     (case r of
        Inl e \<Rightarrow> if \<not> is_not_found e then ret (Inl e) else deleteSecret C argocd_ns name
      | Inr managedCluster \<Rightarrow>
          if m_deletion (mc_meta managedCluster) \<noteq> None then deleteSecret C argocd_ns name
          else createSecret C (argocd_ns, managedCluster)) }"

section \<open>Lemmas\<close>

definition secret_ref :: "string \<Rightarrow> string \<Rightarrow> objref" where
  "secret_ref argocd_ns name = Ref KSecret argocd_ns (cluster_secret_name name)"

text \<open>What the Secret of a cluster tells Argo CD.\<close>

definition registers_cluster :: "string \<Rightarrow> kobj \<Rightarrow> bool" where
  "registers_cluster name x = (\<exists>s. x = OSecret s \<and> sec_type s = ''Opaque'' \<and>
     mget (m_labels (sec_meta s)) ''argocd.argoproj.io/secret-type'' = ''cluster'' \<and>
     map_of (sec_data s) ''name'' = Some name \<and>
     map_of (sec_data s) ''server'' = Some (''https://'' @ name @ ''-control-plane:6443''))"

lemma cluster_secret_registers:
  assumes "same_content (admit (OSecret (cluster_secret ns cluster))) y"
  shows "registers_cluster (m_name (mc_meta cluster)) y"
proof -
  have "mget [(''argocd.argoproj.io/secret-type'', ''cluster'')] ''argocd.argoproj.io/secret-type'' = ''cluster''"
    by (simp add: mget_def)
  with assms show ?thesis
    by (auto simp: same_content_def registers_cluster_def cluster_secret_def put_all_def gomap_simps)
qed

interpretation cluster_secret: ensures_once createSecret
  "\<lambda>(ns, cluster). secret_ref ns (m_name (mc_meta cluster))" "\<lambda>(ns, cluster). registers_cluster (m_name (mc_meta cluster))"
proof (unfold_locales, goal_cases)
  case (1 C view q p w)
  then show ?case
    by (cases p) (auto simp: createSecret_def wp_simps cluster_secret_def secret_ref_def
        intro!: kube_api.wp_fetch [OF 1(1)] kube_api.wp_create_unit [OF 1(1)] split: sum.splits)
next
  case (2 C view p w)
  then show ?case
    by (cases p) (auto simp: createSecret_def wp_simps cluster_secret_def secret_ref_def
        intro!: kube_api.wp_fetch [OF 2] kube_api.wp_create_unit [OF 2] split: sum.splits)
next
  case (3 C view w p)
  obtain ns cluster where p: "p = (ns, cluster)" by (cases p)
  have ref: "ref_of (OSecret (cluster_secret ns cluster)) = secret_ref ns (m_name (mc_meta cluster))"
    by (simp add: cluster_secret_def secret_ref_def)
  show ?case
    unfolding createSecret_def p prod.case Let_def wp_bind
    by (rule kube_api.wp_fetch [OF 3(1)])
      (use 3(2) in \<open>auto simp: wp_simps ref p simp del: ref_of_simps admit.simps dest: cluster_secret_registers
         intro!: kube_api.wp_create_unit [OF 3(1)]\<close>)
next
  case (4 C view w p)
  then show ?case
    by (cases p) (auto simp: createSecret_def wp_simps cluster_secret_def secret_ref_def
        intro!: kube_api.wp_fetch [OF 4(1)] split: sum.splits)
qed

context kube_api
begin

lemma wp_deleteSecret:
  "wp (deleteSecret C ns name) (\<lambda>r w'. (\<forall>q. q \<noteq> secret_ref ns name \<longrightarrow> view w' q = view w q) \<and>
     (r = Inr () \<longrightarrow> gone view w' (secret_ref ns name))) w"
  unfolding deleteSecret_def wp_bind
  by (rule wp_fetch) (auto simp: wp_simps secret_ref_def gone_def intro!: wp_delete_obj)

end

text \<open>
  C28: The cluster controller touches no object but the Secret of the cluster. When the
  ManagedCluster is gone or leaving, a success means the Secret is gone or leaving; else an
  existing Secret is kept, and a success means the Secret exists, a new one with the name and
  server of the cluster.
\<close>

theorem cluster_secret_follows_cluster:
  assumes "kube_api C view" and "run_state (reconcile_cluster C ns name) w = (r, w')"
  shows "(\<forall>q. q \<noteq> secret_ref ns name \<longrightarrow> view w' q = view w q) \<and>
     (if gone view w (Ref KManagedCluster '''' name)
      then r = Inr () \<longrightarrow> gone view w' (secret_ref ns name)
      else (view w (secret_ref ns name) \<noteq> None \<longrightarrow> view w' = view w) \<and>
        (r = Inr () \<longrightarrow> (\<exists>x. view w' (secret_ref ns name) = Some x \<and>
            (view w (secret_ref ns name) = None \<longrightarrow> registers_cluster name x))))"
    (is "?P r w'")
proof -
  have "wp (reconcile_cluster C ns name) ?P w"
    unfolding reconcile_cluster_def wp_bind
  proof (rule kube_api.wp_fetch [OF assms(1)])
    fix x c w1
    assume x: "view w1 = view w" "view w (Ref KManagedCluster '''' name) = Some x"
      "ref_of x = Ref KManagedCluster '''' name" "as_managed_cluster x = Some c"
    then have c: "x = OManagedCluster c" "m_name (mc_meta c) = name" by auto
    show "wp (case Inr c of Inl e \<Rightarrow> if \<not> is_not_found e then ret (Inl e) else deleteSecret C ns name
      | Inr managedCluster \<Rightarrow>
          if m_deletion (mc_meta managedCluster) \<noteq> None then deleteSecret C ns name
          else createSecret C (ns, managedCluster)) ?P w1"
    proof (cases "m_deletion (mc_meta c) \<noteq> None")
      case True
      then have "gone view w (Ref KManagedCluster '''' name)" using x c by (simp add: gone_def terminating_def)
      with True x(1) show ?thesis
        by (auto intro!: wp_mono [OF kube_api.wp_deleteSecret [OF assms(1)]])
    next
      case False
      then have live: "\<not> gone view w (Ref KManagedCluster '''' name)" using x c by (simp add: gone_def terminating_def)
      have "wp (createSecret C (ns, c)) ?P w1"
      proof (rule wpI)
        fix r w' assume run: "run_state (createSecret C (ns, c)) w1 = (r, w')"
        have "view w' q = view w q" if "q \<noteq> secret_ref ns name" for q
          using wp_run [OF cluster_secret.frame [OF assms(1), of q "(ns, c)"] run] that c x by simp
        moreover have "view w' = view w" if "view w (secret_ref ns name) \<noteq> None"
          using cluster_secret.existing_kept [OF assms(1) _ run] that c x by auto
        moreover have "\<exists>x. view w' (secret_ref ns name) = Some x \<and> (view w (secret_ref ns name) = None \<longrightarrow> registers_cluster name x)"
          if "r = Inr ()"
          using cluster_secret.success [OF assms(1) run [unfolded that]] c x by auto
        ultimately show "?P r w'" using live by simp
      qed
      with False show ?thesis by simp
    qed
  next
    fix e w1 assume "view w1 = view w" "is_not_found e \<Longrightarrow> view w (Ref KManagedCluster '''' name) = None"
    then show "wp (case Inl e of Inl e \<Rightarrow> if \<not> is_not_found e then ret (Inl e) else deleteSecret C ns name
      | Inr managedCluster \<Rightarrow>
          if m_deletion (mc_meta managedCluster) \<noteq> None then deleteSecret C ns name
          else createSecret C (ns, managedCluster)) ?P w1"
      by (cases "is_not_found e")
        (auto simp: wp_simps gone_def [where r = "Ref KManagedCluster '''' name"]
          intro!: wp_mono [OF kube_api.wp_deleteSecret [OF assms(1)]])
  qed
  then show ?thesis using assms(2) by (rule wp_run)
qed

theorem cluster_secret_follows_cluster_witness:
  "\<exists>x. mem_view (snd (run_state (reconcile_cluster mem_client ''argocd'' ''c1'')
       (mem_of [OManagedCluster \<lparr>mc_meta = new_meta ''c1'' ''''\<rparr>]))) (secret_ref ''argocd'' ''c1'') = Some x \<and>
     registers_cluster ''c1'' x"
proof -
  let ?w = "mem_of [OManagedCluster \<lparr>mc_meta = new_meta ''c1'' ''''\<rparr>]"
  let ?run = "run_state (reconcile_cluster mem_client ''argocd'' ''c1'') ?w"
  have ok: "fst ?run = Inr ()" by code_simp
  have none: "mem_view ?w (secret_ref ''argocd'' ''c1'') = None" by code_simp
  have "mem_view ?w (Ref KManagedCluster '''' ''c1'') = Some (OManagedCluster \<lparr>mc_meta = new_meta ''c1'' ''''\<rparr>)" by code_simp
  then have live: "\<not> gone mem_view ?w (Ref KManagedCluster '''' ''c1'')" by (simp add: gone_def terminating_def)
  from cluster_secret_follows_cluster [OF mem_kube_api, of "''argocd''" "''c1''" ?w "fst ?run" "snd ?run"] ok none live
  show ?thesis unfolding prod.collapse by auto
qed

end
