(* ===== verification/Work_Cleanup.thy ===== *)
theory Work_Cleanup
  imports App_Helper Mem_Client
begin

text \<open>
  \<open>internal/basic/application/manifestwork_cleanup_controller.go\<close>: the periodic sweep that deletes
  ManifestWorks whose Application no longer exists. The loop of \<open>Start\<close> waits for a tick or the end of the
  context; the sequence of these events is the argument \<open>events\<close> of \<open>start_cleanup\<close>.
\<close>

text \<open>One iteration of the loop: the counts are the numbers of orphaned and of deleted works.\<close>

definition check_work :: "'w client \<Rightarrow> manifest_work \<Rightarrow> nat \<times> nat \<Rightarrow> ('w, nat \<times> nat) state" where
  "check_work C work = (\<lambda>(orphanedCount, deletedCount).
     if \<not> containsValidManifestWorkHubApplicationAnnotations work then ret (orphanedCount, deletedCount)
     else do {
       let annos = m_annotations (mw_meta work);
       let appNamespace = mget annos AnnotationKeyHubApplicationNamespace;
       let appName = mget annos AnnotationKeyHubApplicationName;
       r \<leftarrow> fetch as_unstr C (Ref application_gvk appNamespace appName);
       (case r of
          Inl e \<Rightarrow>
            if is_not_found e then do {
              d \<leftarrow> delete_obj C (OManifestWork work);
              (case d of
                 Inl e \<Rightarrow> if is_not_found e then ret (orphanedCount + 1, deletedCount + 1)
                         else ret (orphanedCount + 1, deletedCount)
               | Inr _ \<Rightarrow> ret (orphanedCount + 1, deletedCount + 1)) }
            else ret (orphanedCount, deletedCount)
        | Inr _ \<Rightarrow> ret (orphanedCount, deletedCount)) })"

fun check_works :: "'w client \<Rightarrow> manifest_work list \<Rightarrow> nat \<times> nat \<Rightarrow> ('w, nat \<times> nat) state" where
  "check_works C [] counts = ret counts"
| "check_works C (work # rest) counts = do { counts \<leftarrow> check_work C work counts; check_works C rest counts }"

definition cleanup :: "'w client \<Rightarrow> ('w, (nat \<times> nat) result) state" where
  "cleanup C =
     bindE (list_as as_work C KManifestWork None [(LabelKeyPull, ''true'')]) (\<lambda>works. do {
       counts \<leftarrow> check_works C works (0, 0);
       ret (Inr counts) })"

datatype cleanup_event = Tick | Done

fun cleanup_loop :: "'w client \<Rightarrow> cleanup_event list \<Rightarrow> ('w, unit result) state" where
  "cleanup_loop C [] = ret (Inr ())"
| "cleanup_loop C (Done # _) = ret (Inr ())"
| "cleanup_loop C (Tick # events) = do { _ \<leftarrow> log_error (cleanup C); cleanup_loop C events }"

definition start_cleanup :: "'w client \<Rightarrow> cleanup_event list \<Rightarrow> ('w, unit result) state" where
  "start_cleanup C events = do { _ \<leftarrow> log_error (cleanup C); cleanup_loop C events }"

section \<open>Lemmas\<close>

text \<open>A work the sweep may delete: it has the pull label, and names an Application that is not stored.\<close>

definition names_app :: "manifest_work \<Rightarrow> objref" where
  "names_app work = Ref application_gvk (mget (m_annotations (mw_meta work)) AnnotationKeyHubApplicationNamespace)
     (mget (m_annotations (mw_meta work)) AnnotationKeyHubApplicationName)"

definition orphan :: "('w \<Rightarrow> objref \<Rightarrow> kobj option) \<Rightarrow> 'w \<Rightarrow> manifest_work \<Rightarrow> bool" where
  "orphan view w work = (containsValidManifestWorkHubApplicationAnnotations work \<and>
     mget (m_labels (mw_meta work)) LabelKeyPull = ''true'' \<and> view w (names_app work) = None)"

lemma names_app_kind: "names_app work \<noteq> ref_of (OManifestWork work')"
  by (simp add: names_app_def application_gvk_def)

text \<open>What a sweep may do to the objects: nothing but taking away orphans of the world it started in.\<close>

definition only_orphans_go :: "('w \<Rightarrow> objref \<Rightarrow> kobj option) \<Rightarrow> 'w \<Rightarrow> 'w \<Rightarrow> bool" where
  "only_orphans_go view w w' = (\<forall>q. view w' q = view w q \<or> (\<exists>work. view w q = Some (OManifestWork work) \<and> orphan view w work))"

lemma only_orphans_go_refl [simp]: "only_orphans_go view w w"
  by (simp add: only_orphans_go_def)

lemma only_orphans_go_cong: "view w1 = view w \<Longrightarrow> only_orphans_go view w w1"
  by (simp add: only_orphans_go_def)

lemma only_orphans_go_app:
  "only_orphans_go view w w' \<Longrightarrow> (\<And>q work. view w q = Some (OManifestWork work) \<Longrightarrow> ref_of (OManifestWork work) = q) \<Longrightarrow>
   view w' (names_app work) = view w (names_app work)"
  unfolding only_orphans_go_def using names_app_kind by metis

context kube_api
begin

lemma wp_check_work:
  assumes "view w (ref_of (OManifestWork work)) = Some (OManifestWork work)"
    and "mget (m_labels (mw_meta work)) LabelKeyPull = ''true''"
  shows "wp (check_work C work n) (\<lambda>n' w'. (\<forall>q. q \<noteq> ref_of (OManifestWork work) \<longrightarrow> view w' q = view w q) \<and>
     (view w' (ref_of (OManifestWork work)) \<noteq> view w (ref_of (OManifestWork work)) \<longrightarrow> orphan view w work) \<and>
     (snd n \<le> fst n \<longrightarrow> snd n' \<le> fst n')) w"
  unfolding check_work_def
  using assms by (cases n)
    (auto simp: wp_simps orphan_def names_app_def Let_def split: sum.splits intro!: wp_fetch wp_delete_obj
      simp del: ref_of_simps)

lemma wp_check_works:
  assumes "only_orphans_go view w0 w" "distinct (map (\<lambda>work. ref_of (OManifestWork work)) ws)"
    and "\<forall>work \<in> set ws. view w (ref_of (OManifestWork work)) = Some (OManifestWork work) \<and>
      view w0 (ref_of (OManifestWork work)) = Some (OManifestWork work) \<and> mget (m_labels (mw_meta work)) LabelKeyPull = ''true''"
  shows "wp (check_works C ws n) (\<lambda>n' w'. only_orphans_go view w0 w' \<and> (snd n \<le> fst n \<longrightarrow> snd n' \<le> fst n')) w"
  using assms
proof (induction ws arbitrary: w n)
  case Nil
  then show ?case by (simp add: wp_simps)
next
  case (Cons work ws)
  let ?r = "ref_of (OManifestWork work)"
  have work: "view w ?r = Some (OManifestWork work)" "view w0 ?r = Some (OManifestWork work)"
    "mget (m_labels (mw_meta work)) LabelKeyPull = ''true''"
    using Cons.prems(3) by simp_all
  have app: "view w (names_app work) = view w0 (names_app work)"
    by (rule only_orphans_go_app [OF Cons.prems(1)]) (rule view_ref)
  show ?case
    unfolding check_works.simps
  proof (rule wp_bind_rule [OF wp_check_work [OF work(1,3)]])
    fix n1 :: "nat \<times> nat" and w1
    assume step: "(\<forall>q. q \<noteq> ?r \<longrightarrow> view w1 q = view w q) \<and> (view w1 ?r \<noteq> view w ?r \<longrightarrow> orphan view w work) \<and>
      (snd n \<le> fst n \<longrightarrow> snd n1 \<le> fst n1)"
    have orphan: "orphan view w work \<Longrightarrow> orphan view w0 work" using app by (simp add: orphan_def)
    have "only_orphans_go view w0 w1"
      unfolding only_orphans_go_def
    proof
      fix q
      show "view w1 q = view w0 q \<or> (\<exists>work. view w0 q = Some (OManifestWork work) \<and> orphan view w0 work)"
      proof (cases "q = ?r")
        case True
        then show ?thesis using step work(1,2) orphan by (metis (no_types))
      next
        case False
        then have "view w1 q = view w q" using step by blast
        then show ?thesis using Cons.prems(1) by (simp add: only_orphans_go_def)
      qed
    qed
    moreover have "view w1 (ref_of (OManifestWork work')) = view w (ref_of (OManifestWork work'))" if "work' \<in> set ws" for work'
    proof -
      have "ref_of (OManifestWork work') \<noteq> ?r" using Cons.prems(2) that by (simp del: ref_of_simps add: image_iff) metis
      with step show ?thesis by blast
    qed
    ultimately show "wp (check_works C ws n1) (\<lambda>n' w'. only_orphans_go view w0 w' \<and> (snd n \<le> fst n \<longrightarrow> snd n' \<le> fst n')) w1"
      using Cons.prems(2,3) step by (intro wp_mono [OF Cons.IH]) (auto simp del: ref_of_simps)
  qed
qed

text \<open>What the sweep works on: the listed works, each once.\<close>

lemma wp_list_works:
  assumes "\<And>ws w1. view w1 = view w \<Longrightarrow> distinct (map (\<lambda>work. ref_of (OManifestWork work)) ws) \<Longrightarrow>
      (\<And>work. work \<in> set ws \<longleftrightarrow> view w (ref_of (OManifestWork work)) = Some (OManifestWork work) \<and>
         mget (m_labels (mw_meta work)) LabelKeyPull = ''true'') \<Longrightarrow> Q (Inr ws) w1"
    and "\<And>e w1. view w1 = view w \<Longrightarrow> Q (Inl e) w1"
  shows "wp (list_as as_work C KManifestWork None [(LabelKeyPull, ''true'')]) Q w"
proof (rule wp_list_as)
  fix xs w1
  assume v: "view w1 = view w" and d: "distinct (map ref_of xs)" and
    xs: "\<And>x. x \<in> set xs \<longleftrightarrow> view w (ref_of x) = Some x \<and> kind_of x = KManifestWork \<and>
       in_ns None (m_namespace (meta_of x)) \<and> labels_match [(LabelKeyPull, ''true'')] (m_labels (meta_of x))"
  have "distinct (map (\<lambda>work. ref_of (OManifestWork work)) (List.map_filter as_work xs))"
    using d by (induction xs) (auto simp: List.map_filter_simps set_map_filter simp del: ref_of_simps split: option.splits)
  then show "Q (Inr (List.map_filter as_work xs)) w1"
  proof (rule assms(1) [OF v])
    fix work
    show "work \<in> set (List.map_filter as_work xs) \<longleftrightarrow> view w (ref_of (OManifestWork work)) = Some (OManifestWork work) \<and>
         mget (m_labels (mw_meta work)) LabelKeyPull = ''true''"
      using xs [of "OManifestWork work"]
      by (auto simp: set_map_filter in_ns_def labels_match_def mget_def split: option.splits)
  qed
qed (rule assms(2))

lemma wp_cleanup:
  "wp (cleanup C) (\<lambda>r w'. only_orphans_go view w w' \<and>
     (\<forall>orphaned deleted. r = Inr (orphaned, deleted) \<longrightarrow> deleted \<le> orphaned)) w" (is "wp _ ?Q w")
  unfolding cleanup_def wp_bindE
proof (rule wp_list_works)
  fix ws w1
  assume v: "view w1 = view w" and d: "distinct (map (\<lambda>work. ref_of (OManifestWork work)) ws)"
    and ws: "\<And>work. work \<in> set ws \<longleftrightarrow> view w (ref_of (OManifestWork work)) = Some (OManifestWork work) \<and>
         mget (m_labels (mw_meta work)) LabelKeyPull = ''true''"
  have "wp (check_works C ws (0, 0)) (\<lambda>n' w'. only_orphans_go view w w' \<and> (snd (0::nat, 0::nat) \<le> fst (0::nat, 0::nat) \<longrightarrow> snd n' \<le> fst n')) w1"
    by (rule wp_check_works) (use v d ws in \<open>auto simp: only_orphans_go_cong simp del: ref_of_simps\<close>)
  then have "wp (check_works C ws (0, 0)) (\<lambda>n' w'. only_orphans_go view w w' \<and> snd n' \<le> fst n') w1" by simp
  then show "case Inr ws of Inl e \<Rightarrow> ?Q (Inl e) w1
      | Inr works \<Rightarrow> wp (do { counts \<leftarrow> check_works C works (0, 0); ret (Inr counts) }) ?Q w1"
    by (auto simp: wp_simps elim!: wp_mono)
qed (simp add: only_orphans_go_cong)

end

context reliable_api
begin

lemma wp_check_work_healthy:
  assumes "healthy w"
    and "view w (ref_of (OManifestWork work)) = Some (OManifestWork work)"
  shows "wp (check_work C work n) (\<lambda>n' w'. healthy w' \<and> (orphan view w work \<longrightarrow> gone view w' (ref_of (OManifestWork work)))) w"
proof -
  have app: "\<exists>u. as_unstr x = Some u" if "view w (names_app work) = Some x" for x
    using view_ref [OF that] by (cases x) (auto simp: names_app_def application_gvk_def)
  show ?thesis
    unfolding check_work_def delete_obj_def names_app_def [symmetric]
    using assms app
    by (cases n) (auto simp: wp_simps orphan_def names_app_def [symmetric] Let_def simp del: ref_of_simps
        intro!: wp_fetch_healthy wp_delete_healthy)
qed

lemma wp_check_works_healthy:
  assumes "healthy w" "distinct (map (\<lambda>work. ref_of (OManifestWork work)) ws)"
    and "\<forall>work \<in> set ws. view w (ref_of (OManifestWork work)) = Some (OManifestWork work) \<and>
      mget (m_labels (mw_meta work)) LabelKeyPull = ''true''"
  shows "wp (check_works C ws n) (\<lambda>n' w'. healthy w' \<and>
     (\<forall>q. q \<notin> (\<lambda>work. ref_of (OManifestWork work)) ` set ws \<longrightarrow> view w' q = view w q) \<and>
     (\<forall>work \<in> set ws. orphan view w work \<longrightarrow> gone view w' (ref_of (OManifestWork work)))) w"
  using assms
proof (induction ws arbitrary: w n)
  case Nil
  then show ?case by (simp add: wp_simps)
next
  case (Cons work ws)
  let ?r = "ref_of (OManifestWork work)"
  have work: "view w ?r = Some (OManifestWork work)" "mget (m_labels (mw_meta work)) LabelKeyPull = ''true''"
    using Cons.prems(3) by simp_all
  have other: "ref_of (OManifestWork work') \<noteq> ?r" if "work' \<in> set ws" for work'
    using Cons.prems(2) that by (simp del: ref_of_simps add: image_iff) metis
  show ?case
    unfolding check_works.simps
  proof (rule wp_bind_rule [OF wp_conj [OF wp_check_work [OF work] wp_check_work_healthy [OF Cons.prems(1) work(1)]]])
    fix n1 :: "nat \<times> nat" and w1
    assume step: "((\<forall>q. q \<noteq> ?r \<longrightarrow> view w1 q = view w q) \<and> (view w1 ?r \<noteq> view w ?r \<longrightarrow> orphan view w work) \<and>
      (snd n \<le> fst n \<longrightarrow> snd n1 \<le> fst n1)) \<and> healthy w1 \<and> (orphan view w work \<longrightarrow> gone view w1 ?r)"
    have same: "orphan view w1 work' = orphan view w work'" for work'
      using step names_app_kind [of work' work] by (simp add: orphan_def del: ref_of_simps)
    have "wp (check_works C ws n1) (\<lambda>n' w'. healthy w' \<and>
       (\<forall>q. q \<notin> (\<lambda>work. ref_of (OManifestWork work)) ` set ws \<longrightarrow> view w' q = view w1 q) \<and>
       (\<forall>work \<in> set ws. orphan view w1 work \<longrightarrow> gone view w' (ref_of (OManifestWork work)))) w1"
      by (rule Cons.IH) (use Cons.prems(2,3) step other in \<open>auto simp del: ref_of_simps\<close>)
    then show "wp (check_works C ws n1) (\<lambda>n' w'. healthy w' \<and>
       (\<forall>q. q \<notin> (\<lambda>work. ref_of (OManifestWork work)) ` set (work # ws) \<longrightarrow> view w' q = view w q) \<and>
       (\<forall>work \<in> set (work # ws). orphan view w work \<longrightarrow> gone view w' (ref_of (OManifestWork work)))) w1"
    proof (rule wp_mono, elim conjE, intro conjI ballI impI allI)
      fix n2 w2 q assume "\<forall>q. q \<notin> (\<lambda>work. ref_of (OManifestWork work)) ` set ws \<longrightarrow> view w2 q = view w1 q"
        "q \<notin> (\<lambda>work. ref_of (OManifestWork work)) ` set (work # ws)"
      with step show "view w2 q = view w q" by (auto simp del: ref_of_simps)
    next
      fix n2 w2 work' assume w2: "\<forall>q. q \<notin> (\<lambda>work. ref_of (OManifestWork work)) ` set ws \<longrightarrow> view w2 q = view w1 q"
        "\<forall>work \<in> set ws. orphan view w1 work \<longrightarrow> gone view w2 (ref_of (OManifestWork work))"
        "work' \<in> set (work # ws)" "orphan view w work'"
      show "gone view w2 (ref_of (OManifestWork work'))"
      proof (cases "work' \<in> set ws")
        case True
        with w2(2,4) same show ?thesis by blast
      next
        case False
        with w2(3) have eq: "work' = work" by simp
        have "?r \<notin> (\<lambda>work. ref_of (OManifestWork work)) ` set ws"
          using other by (simp del: ref_of_simps add: image_iff) metis
        with w2(1) have "view w2 ?r = view w1 ?r" by blast
        with step w2(4) eq show ?thesis by (simp add: gone_def del: ref_of_simps)
      qed
    qed simp
  qed
qed

lemma wp_cleanup_healthy:
  assumes "healthy w"
  shows "wp (cleanup C) (\<lambda>r w'. healthy w' \<and> (\<exists>n. r = Inr n) \<and>
     (\<forall>q work. view w q = Some (OManifestWork work) \<and> orphan view w work \<longrightarrow> gone view w' q)) w" (is "wp _ ?Q w")
proof -
  have ok: "wp (list_as as_work C KManifestWork None [(LabelKeyPull, ''true'')]) (\<lambda>r w1. healthy w1 \<and> (\<exists>ws. r = Inr ws)) w"
    unfolding list_as_def wp_bindE
  proof (rule wpI)
    fix a w1 assume "run_state (c_list C KManifestWork None [(LabelKeyPull, ''true'')]) w = (a, w1)"
    from list_healthy [OF assms this] show "case a of Inl e \<Rightarrow> healthy w1 \<and> (\<exists>ws. Inl e = Inr ws)
        | Inr xs \<Rightarrow> wp (ret (Inr (List.map_filter as_work xs))) (\<lambda>r w1. healthy w1 \<and> (\<exists>ws. r = Inr ws)) w1"
      by (auto simp: wp_simps)
  qed
  let ?listed = "\<lambda>r w1. view w1 = view w \<and> (\<forall>ws. r = Inr ws \<longrightarrow> distinct (map (\<lambda>work. ref_of (OManifestWork work)) ws) \<and>
      (\<forall>work. work \<in> set ws \<longleftrightarrow> view w (ref_of (OManifestWork work)) = Some (OManifestWork work) \<and>
         mget (m_labels (mw_meta work)) LabelKeyPull = ''true''))"
  have listed: "wp (list_as as_work C KManifestWork None [(LabelKeyPull, ''true'')]) ?listed w"
    by (rule wp_list_works) (auto simp del: ref_of_simps)
  show ?thesis
    unfolding cleanup_def
  proof (rule wp_bindE_rule [OF wp_conj [OF ok listed]])
    fix ws w1 assume l: "(healthy w1 \<and> (\<exists>ws'. Inr ws = Inr ws')) \<and> ?listed (Inr ws) w1"
    have "wp (check_works C ws (0, 0)) (\<lambda>n' w'. healthy w' \<and>
     (\<forall>q. q \<notin> (\<lambda>work. ref_of (OManifestWork work)) ` set ws \<longrightarrow> view w' q = view w1 q) \<and>
     (\<forall>work \<in> set ws. orphan view w1 work \<longrightarrow> gone view w' (ref_of (OManifestWork work)))) w1"
      by (rule wp_check_works_healthy) (use l in \<open>auto simp del: ref_of_simps\<close>)
    moreover have "q = ref_of (OManifestWork work) \<and> work \<in> set ws \<and> orphan view w1 work"
      if "view w q = Some (OManifestWork work)" "orphan view w work" for q work
      using l that view_ref [OF that(1)] by (auto simp: orphan_def simp del: ref_of_simps)
    ultimately show "wp (do { counts \<leftarrow> check_works C ws (0, 0); ret (Inr counts) }) ?Q w1"
      by (auto simp: wp_simps simp del: ref_of_simps elim!: wp_mono)
  qed auto
qed

end

context kube_api
begin

lemma only_orphans_go_trans:
  assumes "only_orphans_go view w w1" "only_orphans_go view w1 w2"
  shows "only_orphans_go view w w2"
  unfolding only_orphans_go_def
proof
  fix q
  have app: "view w1 (names_app work) = view w (names_app work)" for work
    by (rule only_orphans_go_app [OF assms(1)]) (rule view_ref)
  show "view w2 q = view w q \<or> (\<exists>work. view w q = Some (OManifestWork work) \<and> orphan view w work)"
  proof (cases "view w1 q = view w q")
    case True
    from assms(2) have "view w2 q = view w1 q \<or> (\<exists>work. view w1 q = Some (OManifestWork work) \<and> orphan view w1 work)"
      by (simp add: only_orphans_go_def)
    with True app show ?thesis by (auto simp: orphan_def)
  next
    case False
    with assms(1) show ?thesis unfolding only_orphans_go_def by blast
  qed
qed

lemma wp_log_cleanup: "wp (log_error (cleanup C)) (\<lambda>_. only_orphans_go view w) w"
  unfolding wp_log_error by (rule wp_mono [OF wp_cleanup]) simp

lemma wp_cleanup_loop: "wp (cleanup_loop C events) (\<lambda>r w'. r = Inr () \<and> only_orphans_go view w w') w"
proof (induction events arbitrary: w)
  case (Cons ev events)
  show ?case
  proof (cases ev)
    case Tick
    show ?thesis
      unfolding Tick cleanup_loop.simps
      by (rule wp_bind_rule [OF wp_log_cleanup])
        (rule wp_mono [OF Cons.IH], auto intro: only_orphans_go_trans)
  qed (simp add: wp_simps)
qed (simp add: wp_simps)

end

text \<open>
  C12: Whatever ticks the cleanup loop receives, the only objects that go are ManifestWorks with
  the pull label whose hub Application does not exist; nothing else changes.
\<close>

theorem cleanup_deletes_only_orphans:
  assumes "kube_api C view" and "run_state (start_cleanup C events) w = (r, w')"
  shows "r = Inr () \<and> (\<forall>q. view w' q \<noteq> view w q \<longrightarrow>
     (\<exists>work. view w q = Some (OManifestWork work) \<and> mget (m_labels (mw_meta work)) LabelKeyPull = ''true'' \<and>
        containsValidManifestWorkHubApplicationAnnotations work \<and> view w (names_app work) = None))"
proof -
  have "wp (start_cleanup C events) (\<lambda>r w'. r = Inr () \<and> only_orphans_go view w w') w"
    unfolding start_cleanup_def
    by (rule wp_bind_rule [OF kube_api.wp_log_cleanup [OF assms(1)]])
      (rule wp_mono [OF kube_api.wp_cleanup_loop [OF assms(1)]],
       auto intro: kube_api.only_orphans_go_trans [OF assms(1)])
  from wp_run [OF this assms(2)] show ?thesis unfolding only_orphans_go_def orphan_def by blast
qed

definition example_stray_work :: manifest_work where
  "example_stray_work = generateManifestWork ''gone-abcde'' ''c1''
     \<lparr>u_api_version = ''argoproj.io/v1alpha1'', u_kind = ''Application'', u_meta = new_meta ''gone'' ''argocd'', u_fields = []\<rparr>"

definition example_sweep_world :: mem where
  "example_sweep_world = mem_of [OManifestWork example_stray_work]"

theorem cleanup_deletes_only_orphans_witness:
  "mem_view (snd (run_state (start_cleanup mem_client [Tick, Done]) example_sweep_world))
      (Ref KManifestWork ''c1'' ''gone-abcde'') = None \<and>
   mem_view example_sweep_world (names_app example_stray_work) = None"
proof -
  let ?w = example_sweep_world and ?W = "Ref KManifestWork ''c1'' ''gone-abcde''"
  let ?run = "run_state (start_cleanup mem_client [Tick, Done]) ?w"
  have gone: "mem_view (snd ?run) ?W = None" by code_simp
  have work: "mem_view ?w ?W = Some (OManifestWork example_stray_work)" by code_simp
  from cleanup_deletes_only_orphans [OF mem_kube_api, of "[Tick, Done]" ?w "fst ?run" "snd ?run"] gone work
  show ?thesis unfolding prod.collapse by (metis kobj.inject(13) option.distinct(1) option.inject)
qed

text \<open>
  On a reliable client one sweep succeeds and takes away a ManifestWork with the pull label
  whose hub Application does not exist.
\<close>

theorem cleanup_finds_every_orphan:
  assumes "reliable_api C view healthy" and "healthy w"
    and "view w q = Some (OManifestWork work)" and "mget (m_labels (mw_meta work)) LabelKeyPull = ''true''"
    and "containsValidManifestWorkHubApplicationAnnotations work" and "view w (names_app work) = None"
  shows "\<exists>n w'. run_state (cleanup C) w = (Inr n, w') \<and> healthy w' \<and> gone view w' q"
proof -
  obtain r w' where run: "run_state (cleanup C) w = (r, w')" by (cases "run_state (cleanup C) w")
  from wp_run [OF reliable_api.wp_cleanup_healthy [OF assms(1,2)] run] assms(3-6) run show ?thesis
    by (auto simp: orphan_def)
qed

theorem cleanup_finds_every_orphan_witness:
  "gone mem_view (snd (run_state (cleanup mem_client) example_sweep_world)) (Ref KManifestWork ''c1'' ''gone-abcde'')"
proof -
  let ?w = example_sweep_world and ?W = "Ref KManifestWork ''c1'' ''gone-abcde''"
  have h: "mem_healthy ?w" by code_simp
  have work: "mem_view ?w ?W = Some (OManifestWork example_stray_work)" by code_simp
  have lab: "mget (m_labels (mw_meta example_stray_work)) LabelKeyPull = ''true''" by code_simp
  have ann: "containsValidManifestWorkHubApplicationAnnotations example_stray_work" by code_simp
  have no: "mem_view ?w (names_app example_stray_work) = None" by code_simp
  from cleanup_finds_every_orphan [OF mem_reliable_api, OF h, OF work, OF lab, OF ann, OF no] show ?thesis by auto
qed

end
