(* ===== verification/Rbac_Secrets.thy ===== *)
theory Rbac_Secrets
  imports Ensure
begin

text \<open>
  \<open>internal/controller/rbac_management.go\<close> and \<open>internal/controller/secret_management.go\<close>: the Role and
  RoleBinding that let the addon manager read Secrets, and the Redis and JWT Secrets of Argo CD. Each is an
  instance of the contract \<open>ensures_once\<close>. The generated RSA key, or the error of the generation, is the
  argument \<open>gen_key\<close>.
\<close>

section \<open>RBAC\<close>

definition AddonManagerRoleName :: string where
  "AddonManagerRoleName = ''addon-manager-controller-role''"
definition AddonManagerRoleBindingName :: string where
  "AddonManagerRoleBindingName = ''addon-manager-controller-rolebinding''"
definition AddonManagerServiceAccount :: string where
  "AddonManagerServiceAccount = ''addon-manager-controller-sa''"
definition AddonManagerNamespace :: string where
  "AddonManagerNamespace = ''open-cluster-management-hub''"

text \<open>The labels the controller puts on what it creates.\<close>

definition managed_labels :: "string \<Rightarrow> string gomap" where
  "managed_labels component = [(''app.kubernetes.io/managed-by'', ''argocd-pull-integration''),
     (''app.kubernetes.io/component'', component)]"

definition addon_manager_role :: "string \<Rightarrow> role" where
  "addon_manager_role namespace =
     \<lparr>role_meta = (new_meta AddonManagerRoleName namespace)\<lparr>m_labels := managed_labels ''rbac''\<rparr>,
      role_rules = [\<lparr>pr_api_groups = [''''], pr_resources = [''secrets''], pr_verbs = [''get'', ''list'', ''watch'']\<rparr>]\<rparr>"

definition ensureAddonManagerRole :: "'w client \<Rightarrow> string \<Rightarrow> ('w, unit result) state" where
  "ensureAddonManagerRole C namespace =
     ensure_object C as_role (Ref KRole namespace AddonManagerRoleName)
       ''failed to check addon-manager-controller-role'' ''failed to create addon-manager-controller-role''
       (\<lambda>_. ret (Inr ())) (ret (Inr (ORole (addon_manager_role namespace))))"

definition addon_manager_role_binding :: "string \<Rightarrow> role_binding" where
  "addon_manager_role_binding namespace =
     \<lparr>rb_meta = (new_meta AddonManagerRoleBindingName namespace)\<lparr>m_labels := managed_labels ''rbac''\<rparr>,
      rb_subjects = [\<lparr>sub_kind = ''ServiceAccount'', sub_name = AddonManagerServiceAccount,
        sub_namespace = AddonManagerNamespace\<rparr>],
      rb_role_ref = \<lparr>rr_kind = ''Role'', rr_name = AddonManagerRoleName, rr_api_group = ''rbac.authorization.k8s.io''\<rparr>\<rparr>"

definition ensureAddonManagerRoleBinding :: "'w client \<Rightarrow> string \<Rightarrow> ('w, unit result) state" where
  "ensureAddonManagerRoleBinding C namespace =
     ensure_object C as_role_binding (Ref KRoleBinding namespace AddonManagerRoleBindingName)
       ''failed to check addon-manager-controller-rolebinding'' ''failed to create addon-manager-controller-rolebinding''
       (\<lambda>_. ret (Inr ())) (ret (Inr (ORoleBinding (addon_manager_role_binding namespace))))"

definition EnsureAddonManagerRBAC :: "'w client \<Rightarrow> string \<Rightarrow> ('w, unit result) state" where
  "EnsureAddonManagerRBAC C namespace =
     bindE (wrapE ''failed to ensure addon-manager-controller role'' (ensureAddonManagerRole C namespace)) (\<lambda>_.
     bindE (wrapE ''failed to ensure addon-manager-controller rolebinding'' (ensureAddonManagerRoleBinding C namespace)) (\<lambda>_.
     ret (Inr ())))"

section \<open>Secrets\<close>

definition ArgoCDRedisSecretName :: string where
  "ArgoCDRedisSecretName = ''argocd-redis''"
definition ArgoCDAgentJWTSecretName :: string where
  "ArgoCDAgentJWTSecretName = ''argocd-agent-jwt''"

definition findRedisInitialPasswordSecret :: "'w client \<Rightarrow> string \<Rightarrow> ('w, secret result) state" where
  "findRedisInitialPasswordSecret C namespace =
     bindE (wrapE (''failed to list secrets in namespace '' @ namespace) (list_as as_secret C KSecret (Some namespace) [])) (\<lambda>secrets.
       case find (\<lambda>s. has_suffix (m_name (sec_meta s)) ''redis-initial-password'') secrets of
         Some s \<Rightarrow> ret (Inr s)
       | None \<Rightarrow> ret (Inl (Plain (''no secret found ending with 'redis-initial-password' in namespace '' @ namespace))))"

definition opaque_secret :: "string \<Rightarrow> string \<Rightarrow> string \<Rightarrow> string gomap \<Rightarrow> secret" where
  "opaque_secret name namespace component data =
     \<lparr>sec_meta = (new_meta name namespace)\<lparr>m_labels := managed_labels component\<rparr>,
      sec_type = ''Opaque'', sec_data = data, sec_string_data = []\<rparr>"

definition redis_secret :: "'w client \<Rightarrow> string \<Rightarrow> ('w, kobj result) state" where
  "redis_secret C namespace =
     bindE (wrapE ''failed to find Redis initial password secret'' (findRedisInitialPasswordSecret C namespace)) (\<lambda>s.
       case map_of (sec_data s) ''admin.password'' of
         None \<Rightarrow> ret (Inl (Plain (''admin.password not found in secret '' @ m_name (sec_meta s))))
       | Some adminPassword \<Rightarrow>
           ret (Inr (OSecret (opaque_secret ArgoCDRedisSecretName namespace ''redis'' [(''auth'', adminPassword)]))))"

definition EnsureArgoCDRedisSecret :: "'w client \<Rightarrow> string \<Rightarrow> ('w, unit result) state" where
  "EnsureArgoCDRedisSecret C namespace =
     ensure_object C as_secret (Ref KSecret namespace ArgoCDRedisSecretName)
       ''failed to check ArgoCD Redis secret'' ''failed to create ArgoCD Redis secret''
       (\<lambda>_. ret (Inr ())) (redis_secret C namespace)"

text \<open>\<open>gen_key\<close> is the outcome of generating an RSA key and encoding it; either step may fail.\<close>

definition jwt_secret :: "string result \<Rightarrow> string \<Rightarrow> ('w, kobj result) state" where
  "jwt_secret gen_key namespace = bindE (ret gen_key) (\<lambda>keyPEM.
     ret (Inr (OSecret (opaque_secret ArgoCDAgentJWTSecretName namespace ''jwt'' [(''jwt.key'', keyPEM)]))))"

definition EnsureArgoCDAgentJWTSecret :: "string result \<Rightarrow> 'w client \<Rightarrow> string \<Rightarrow> ('w, unit result) state" where
  "EnsureArgoCDAgentJWTSecret gen_key C namespace =
     ensure_object C as_secret (Ref KSecret namespace ArgoCDAgentJWTSecretName)
       ''failed to check ArgoCD Agent JWT secret'' ''failed to create ArgoCD Agent JWT secret''
       (\<lambda>_. ret (Inr ())) (jwt_secret gen_key namespace)"

section \<open>Lemmas\<close>

text \<open>An operation built on \<open>ensure_object\<close> that leaves an existing object alone obeys the contract.\<close>

lemma ensures_onceI:
  assumes prog: "\<And>C p. prog C p = ensure_object C as_o (target p) check_msg create_msg (\<lambda>_. ret (Inr ())) (prep C p)"
    and prep: "\<And>C view p w. kube_api C view \<Longrightarrow> wp (prep C p) (\<lambda>r w'. view w' = view w \<and>
        (\<forall>x. r = Inr x \<longrightarrow> ref_of x = target p \<and> (\<forall>y. same_content (admit x) y \<longrightarrow> good p y))) w"
  shows "ensures_once prog target good"
proof (unfold_locales, goal_cases)
  case (1 C view q p w)
  then show ?case
    unfolding prog
    by (intro kube_api.wp_ensure_object [OF 1(1)])
      (auto simp: wp_simps split: sum.splits intro!: wp_mono [OF prep [OF 1(1)]] kube_api.wp_create_unless_exists [OF 1(1)])
next
  case (2 C view p w)
  then show ?case
    unfolding prog
    by (intro kube_api.wp_ensure_object [OF 2])
      (auto simp: wp_simps split: sum.splits intro!: wp_mono [OF prep [OF 2]] kube_api.wp_create_unless_exists [OF 2])
next
  case (3 C view w p)
  then show ?case
    unfolding prog
    by (intro kube_api.wp_ensure_object [OF 3(1)])
      (auto simp: wp_simps split: sum.splits intro!: wp_mono [OF prep [OF 3(1)]] kube_api.wp_create_unless_exists [OF 3(1)])
next
  case (4 C view w p)
  then show ?case
    unfolding prog
    by (intro kube_api.wp_ensure_object [OF 4(1)]) (auto simp: wp_simps)
qed

lemma same_content_admit_eq:
  "same_content (admit x) y \<Longrightarrow> kind_of x \<noteq> KSecret \<Longrightarrow> same_content x y"
  by (cases x) auto

interpretation addon_role: ensures_once ensureAddonManagerRole "\<lambda>ns. Ref KRole ns AddonManagerRoleName"
  "\<lambda>ns. same_content (ORole (addon_manager_role ns))"
  by (rule ensures_onceI [where as_o = as_role and prep = "\<lambda>_ ns. ret (Inr (ORole (addon_manager_role ns)))"])
    (auto simp: ensureAddonManagerRole_def wp_simps addon_manager_role_def)

interpretation addon_role_binding: ensures_once ensureAddonManagerRoleBinding
  "\<lambda>ns. Ref KRoleBinding ns AddonManagerRoleBindingName" "\<lambda>ns. same_content (ORoleBinding (addon_manager_role_binding ns))"
  by (rule ensures_onceI [where as_o = as_role_binding and
        prep = "\<lambda>_ ns. ret (Inr (ORoleBinding (addon_manager_role_binding ns)))"])
    (auto simp: ensureAddonManagerRoleBinding_def wp_simps addon_manager_role_binding_def)

text \<open>The Secrets: one entry under a key.\<close>

definition holds_key :: "string \<Rightarrow> kobj \<Rightarrow> bool" where
  "holds_key k x = (\<exists>s. x = OSecret s \<and> sec_type s = ''Opaque'' \<and> map_of (sec_data s) k \<noteq> None)"

lemma opaque_secret_holds:
  "same_content (admit (OSecret (opaque_secret n ns c [(k, v)]))) y \<Longrightarrow> holds_key k y"
  by (auto simp: same_content_def opaque_secret_def holds_key_def put_all_def)

lemma opaque_secret_ref: "ref_of (OSecret (opaque_secret n ns c d)) = Ref KSecret ns n"
  by (simp add: opaque_secret_def)

context kube_api
begin

lemma wp_find_redis:
  "wp (findRedisInitialPasswordSecret C ns) (\<lambda>r w'. view w' = view w \<and> (\<forall>s. r = Inr s \<longrightarrow>
     view w (Ref KSecret ns (m_name (sec_meta s))) = Some (OSecret s) \<and> has_suffix (m_name (sec_meta s)) ''redis-initial-password'')) w"
  unfolding findRedisInitialPasswordSecret_def wp_bindE wp_wrapE
proof (rule wp_list_as)
  fix xs w1
  assume v: "view w1 = view w" and
    xs: "\<And>x. x \<in> set xs \<longleftrightarrow> view w (ref_of x) = Some x \<and> kind_of x = KSecret \<and>
       in_ns (Some ns) (m_namespace (meta_of x)) \<and> labels_match [] (m_labels (meta_of x))"
  have "view w (Ref KSecret ns (m_name (sec_meta s))) = Some (OSecret s)" if "s \<in> set (List.map_filter as_secret xs)" for s
    using that xs [of "OSecret s"] by (auto simp: set_map_filter in_ns_def)
  with v show "case wrap_result (''failed to list secrets in namespace '' @ ns) (Inr (List.map_filter as_secret xs)) of
       Inl e \<Rightarrow> view w1 = view w \<and> (\<forall>s. Inl e = Inr s \<longrightarrow> view w (Ref KSecret ns (m_name (sec_meta s))) = Some (OSecret s) \<and>
          has_suffix (m_name (sec_meta s)) ''redis-initial-password'')
     | Inr secrets \<Rightarrow> wp (case find (\<lambda>s. has_suffix (m_name (sec_meta s)) ''redis-initial-password'') secrets of
         Some s \<Rightarrow> ret (Inr s)
       | None \<Rightarrow> ret (Inl (Plain (''no secret found ending with 'redis-initial-password' in namespace '' @ ns))))
        (\<lambda>r w'. view w' = view w \<and> (\<forall>s. r = Inr s \<longrightarrow> view w (Ref KSecret ns (m_name (sec_meta s))) = Some (OSecret s) \<and>
          has_suffix (m_name (sec_meta s)) ''redis-initial-password'')) w1"
    by (auto simp: wp_simps find_Some_iff split: option.splits)
qed auto

lemma wp_redis_secret:
  "wp (redis_secret C ns) (\<lambda>r w'. view w' = view w \<and>
     (\<forall>x. r = Inr x \<longrightarrow> (\<exists>pw s. x = OSecret (opaque_secret ArgoCDRedisSecretName ns ''redis'' [(''auth'', pw)]) \<and>
        view w (Ref KSecret ns (m_name (sec_meta s))) = Some (OSecret s) \<and>
        has_suffix (m_name (sec_meta s)) ''redis-initial-password'' \<and> map_of (sec_data s) ''admin.password'' = Some pw))) w"
  unfolding redis_secret_def wp_bindE wp_wrapE
  by (rule wp_mono [OF wp_find_redis]) (auto simp: wp_simps wrap_result_def split: sum.splits option.splits)

end

interpretation redis: ensures_once EnsureArgoCDRedisSecret "\<lambda>ns. Ref KSecret ns ArgoCDRedisSecretName" "\<lambda>ns. holds_key ''auth''"
  by (rule ensures_onceI [where as_o = as_secret and prep = redis_secret], simp add: EnsureArgoCDRedisSecret_def)
    (rule wp_mono [OF kube_api.wp_redis_secret], auto simp: opaque_secret_ref simp del: ref_of_simps dest: opaque_secret_holds)

interpretation jwt: ensures_once "EnsureArgoCDAgentJWTSecret gen_key" "\<lambda>ns. Ref KSecret ns ArgoCDAgentJWTSecretName"
  "\<lambda>ns. holds_key ''jwt.key''" for gen_key
  by (rule ensures_onceI [where as_o = as_secret and prep = "\<lambda>_. jwt_secret gen_key"], simp add: EnsureArgoCDAgentJWTSecret_def)
    (auto simp: jwt_secret_def wp_simps opaque_secret_ref simp del: ref_of_simps admit.simps dest: opaque_secret_holds split: sum.splits)

section \<open>Properties\<close>

text \<open>
  EnsureAddonManagerRBAC changes nothing that exists and touches only the Role and the
  RoleBinding; after a success both exist, and one that was missing has the rules, subjects and
  labels of the code.
\<close>

theorem addon_manager_rbac_ensured:
  assumes "kube_api C view" and "run_state (EnsureAddonManagerRBAC C ns) w = (r, w')"
  shows "(\<forall>q. q \<notin> {Ref KRole ns AddonManagerRoleName, Ref KRoleBinding ns AddonManagerRoleBindingName} \<longrightarrow> view w' q = view w q) \<and>
     (\<forall>q. view w q \<noteq> None \<longrightarrow> view w' q = view w q) \<and>
     (r = Inr () \<longrightarrow>
        (\<exists>x. view w' (Ref KRole ns AddonManagerRoleName) = Some x \<and>
           (view w (Ref KRole ns AddonManagerRoleName) = None \<longrightarrow> same_content (ORole (addon_manager_role ns)) x)) \<and>
        (\<exists>x. view w' (Ref KRoleBinding ns AddonManagerRoleBindingName) = Some x \<and>
           (view w (Ref KRoleBinding ns AddonManagerRoleBindingName) = None \<longrightarrow>
              same_content (ORoleBinding (addon_manager_role_binding ns)) x)))"
    (is "?P r w'")
proof -
  have "wp (EnsureAddonManagerRBAC C ns) ?P w"
    unfolding EnsureAddonManagerRBAC_def
    by (rule wp_ensured_two [OF addon_role.wp_summary [OF assms(1)] addon_role_binding.wp_summary [OF assms(1)]]) simp
  then show ?thesis using assms(2) by (rule wp_run)
qed

theorem addon_manager_rbac_ensured_witness:
  "mem_view (snd (run_state (EnsureAddonManagerRBAC mem_client ''argocd'') (mem_of []))) (Ref KRole ''argocd'' AddonManagerRoleName) \<noteq> None"
proof -
  let ?run = "run_state (EnsureAddonManagerRBAC mem_client ''argocd'') (mem_of [])"
  have ok: "fst ?run = Inr ()" by code_simp
  from addon_manager_rbac_ensured [OF mem_kube_api, of "''argocd''" "mem_of []" "fst ?run" "snd ?run"] ok
  show ?thesis unfolding prod.collapse by auto
qed

text \<open>
  When no Redis Secret exists, a successful EnsureArgoCDRedisSecret leaves one whose only
  entry is the admin.password of a Secret of the namespace whose name ends with
  redis-initial-password.
\<close>

theorem redis_secret_from_initial_password:
  assumes "kube_api C view" and "view w (Ref KSecret ns ArgoCDRedisSecretName) = None"
    and "run_state (EnsureArgoCDRedisSecret C ns) w = (Inr (), w')"
  shows "\<exists>source s pw. view w (Ref KSecret ns (m_name (sec_meta source))) = Some (OSecret source) \<and>
     has_suffix (m_name (sec_meta source)) ''redis-initial-password'' \<and> map_of (sec_data source) ''admin.password'' = Some pw \<and>
     view w' (Ref KSecret ns ArgoCDRedisSecretName) = Some (OSecret s) \<and> sec_data s = [(''auth'', pw)]"
proof -
  let ?T = "Ref KSecret ns ArgoCDRedisSecretName"
  let ?P = "\<lambda>r w'. r = Inr () \<longrightarrow> (\<exists>source s pw. view w (Ref KSecret ns (m_name (sec_meta source))) = Some (OSecret source) \<and>
     has_suffix (m_name (sec_meta source)) ''redis-initial-password'' \<and> map_of (sec_data source) ''admin.password'' = Some pw \<and>
     view w' ?T = Some (OSecret s) \<and> sec_data s = [(''auth'', pw)])"
  have "wp (EnsureArgoCDRedisSecret C ns) ?P w"
    unfolding EnsureArgoCDRedisSecret_def
  proof (rule kube_api.wp_ensure_object [OF assms(1)])
    fix w1 assume v: "view w1 = view w"
    show "wp (bindE (redis_secret C ns) (create_unless_exists C ''failed to create ArgoCD Redis secret'')) ?P w1"
    proof (rule wp_bindE_rule [OF kube_api.wp_redis_secret [OF assms(1)]])
      fix x w2 assume "view w2 = view w1 \<and> (\<forall>y. Inr x = Inr y \<longrightarrow> (\<exists>pw s.
          y = OSecret (opaque_secret ArgoCDRedisSecretName ns ''redis'' [(''auth'', pw)]) \<and>
          view w1 (Ref KSecret ns (m_name (sec_meta s))) = Some (OSecret s) \<and>
          has_suffix (m_name (sec_meta s)) ''redis-initial-password'' \<and> map_of (sec_data s) ''admin.password'' = Some pw))"
      then obtain pw s where x: "x = OSecret (opaque_secret ArgoCDRedisSecretName ns ''redis'' [(''auth'', pw)])"
        and s: "view w (Ref KSecret ns (m_name (sec_meta s))) = Some (OSecret s)"
          "has_suffix (m_name (sec_meta s)) ''redis-initial-password''" "map_of (sec_data s) ''admin.password'' = Some pw"
        and v2: "view w2 = view w" using v by auto
      have ref: "ref_of x = ?T" by (simp only: x opaque_secret_ref)
      have data: "\<exists>t. y = OSecret t \<and> sec_data t = [(''auth'', pw)]" if "same_content (admit x) y" for y
        using that by (auto simp: x same_content_def opaque_secret_def put_all_def)
      show "wp (create_unless_exists C ''failed to create ArgoCD Redis secret'' x) ?P w2"
      proof (rule kube_api.wp_create_unless_exists [OF assms(1)])
        fix y w3 assume "same_content (admit x) y" "view w3 = (view w2)(ref_of x := Some y)"
        with data [of y] s ref show "?P (Inr ()) w3" by auto
      qed (simp_all add: v2 ref assms(2))
    qed simp
  qed (use assms(2) in auto)
  from wp_run [OF this assms(3)] show ?thesis by simp
qed

definition example_redis_world :: mem where
  "example_redis_world = mem_of [OSecret \<lparr>sec_meta = new_meta ''acme-redis-initial-password'' ''argocd'', sec_type = ''Opaque'',
     sec_data = [(''admin.password'', ''s3cret'')], sec_string_data = []\<rparr>]"

theorem redis_secret_from_initial_password_witness:
  "\<exists>s pw. mem_view (snd (run_state (EnsureArgoCDRedisSecret mem_client ''argocd'') example_redis_world))
     (Ref KSecret ''argocd'' ArgoCDRedisSecretName) = Some (OSecret s) \<and> sec_data s = [(''auth'', pw)]"
proof -
  let ?run = "run_state (EnsureArgoCDRedisSecret mem_client ''argocd'') example_redis_world"
  have none: "mem_view example_redis_world (Ref KSecret ''argocd'' ArgoCDRedisSecretName) = None" by code_simp
  have "fst ?run = Inr ()" by code_simp
  then have run: "?run = (Inr (), snd ?run)" by (metis prod.collapse)
  from redis_secret_from_initial_password [OF mem_kube_api, OF none, OF run] show ?thesis by blast
qed

end
