(* ===== verification/Addon_Management.thy ===== *)
theory Addon_Management
  imports Rbac_Secrets
begin

text \<open>
  \<open>internal/controller/addon_management.go\<close>: the ManagedClusterAddOn of a cluster, with its references
  to the AddOnTemplate and the AddOnDeploymentConfig, and the AddOnDeploymentConfig with its variables.
  The configuration variables are a Go map; its iteration order is the order of the list.
\<close>

definition ArgoCDAgentAddonName :: string where
  "ArgoCDAgentAddonName = ''argocd-agent-addon''"
definition ArgoCDAgentAddonConfigName :: string where
  "ArgoCDAgentAddonConfigName = ''argocd-agent-addon-config''"

section \<open>The addon\<close>

definition addon_template_name :: "gitops_cluster \<Rightarrow> string" where
  "addon_template_name gitOpsCluster =
     ''argocd-agent-addon-'' @ m_namespace (gc_meta gitOpsCluster) @ ''-'' @ m_name (gc_meta gitOpsCluster)"

definition expected_configs :: "string \<Rightarrow> string \<Rightarrow> addon_config_ref list" where
  "expected_configs templateName clusterNamespace =
     [\<lparr>ac_group = ''addon.open-cluster-management.io'', ac_resource = ''addontemplates'',
       ac_name = templateName, ac_namespace = ''''\<rparr>,
      \<lparr>ac_group = ''addon.open-cluster-management.io'', ac_resource = ''addondeploymentconfigs'',
       ac_name = ArgoCDAgentAddonConfigName, ac_namespace = clusterNamespace\<rparr>]"

definition config_found :: "addon_config_ref list \<Rightarrow> addon_config_ref \<Rightarrow> bool" where
  "config_found configs expectedConfig = list_ex (\<lambda>config.
     ac_group config = ac_group expectedConfig \<and> ac_resource config = ac_resource expectedConfig \<and>
     ac_name config = ac_name expectedConfig \<and>
     (ac_namespace expectedConfig = '''' \<or> ac_namespace config = ac_namespace expectedConfig)) configs"

fun add_missing_configs :: "addon_config_ref list \<Rightarrow> addon_config_ref list \<times> bool \<Rightarrow> addon_config_ref list \<times> bool" where
  "add_missing_configs [] acc = acc"
| "add_missing_configs (expectedConfig # rest) (configs, needsUpdate) =
     (if config_found configs expectedConfig then add_missing_configs rest (configs, needsUpdate)
      else add_missing_configs rest (configs @ [expectedConfig], True))"

definition ensureAddonConfig :: "'w client \<Rightarrow> managed_cluster_addon \<Rightarrow> string \<Rightarrow> string \<Rightarrow> ('w, unit result) state" where
  "ensureAddonConfig C addon templateName clusterNamespace =
     (case add_missing_configs (expected_configs templateName clusterNamespace) (mca_configs addon, False) of
        (configs, needsUpdate) \<Rightarrow>
          if \<not> needsUpdate then ret (Inr ())
          else wrapE ''failed to update ManagedClusterAddOn config''
            (update C (OManagedClusterAddOn (addon\<lparr>mca_configs := configs\<rparr>))))"

definition new_addon :: "string \<Rightarrow> string \<Rightarrow> managed_cluster_addon" where
  "new_addon templateName clusterNamespace =
     \<lparr>mca_meta = (new_meta ArgoCDAgentAddonName clusterNamespace)\<lparr>m_labels := managed_labels ''addon''\<rparr>,
      mca_configs = expected_configs templateName clusterNamespace\<rparr>"

definition EnsureManagedClusterAddon :: "'w client \<Rightarrow> string \<times> gitops_cluster \<Rightarrow> ('w, unit result) state" where
  "EnsureManagedClusterAddon C = (\<lambda>(clusterNamespace, gitOpsCluster).
     let templateName = addon_template_name gitOpsCluster in
     ensure_object C as_addon (Ref KManagedClusterAddOn clusterNamespace ArgoCDAgentAddonName)
       ''failed to get ManagedClusterAddOn'' ''failed to create ManagedClusterAddOn''
       (\<lambda>existing. ensureAddonConfig C existing templateName clusterNamespace)
       (ret (Inr (OManagedClusterAddOn (new_addon templateName clusterNamespace)))))"

section \<open>The deployment configuration\<close>

text \<open>The map of existing variables is built before the loop that appends the missing ones.\<close>

definition merge_variables :: "string gomap \<Rightarrow> (string \<times> string) list \<Rightarrow> (string \<times> string) list" where
  "merge_variables variables existing =
     existing @ filter (\<lambda>(name, value). name \<notin> fst ` set existing) variables"

definition updateAddOnDeploymentConfig :: "'w client \<Rightarrow> addon_deployment_config \<Rightarrow> string gomap \<Rightarrow> ('w, unit result) state" where
  "updateAddOnDeploymentConfig C config variables =
     (let needsUpdate = list_ex (\<lambda>(name, value). name \<notin> fst ` set (adc_variables config)) variables in
      if \<not> needsUpdate then ret (Inr ())
      else wrapE ''failed to update AddOnDeploymentConfig''
        (update C (OAddOnDeploymentConfig (config\<lparr>adc_variables := merge_variables variables (adc_variables config)\<rparr>))))"

definition new_addon_config :: "string \<Rightarrow> string gomap \<Rightarrow> addon_deployment_config" where
  "new_addon_config clusterNamespace variables =
     \<lparr>adc_meta = (new_meta ArgoCDAgentAddonConfigName clusterNamespace)\<lparr>m_labels := managed_labels ''addon-config''\<rparr>,
      adc_variables = variables\<rparr>"

definition EnsureAddOnDeploymentConfig :: "'w client \<Rightarrow> string \<times> string gomap \<Rightarrow> ('w, unit result) state" where
  "EnsureAddOnDeploymentConfig C = (\<lambda>(clusterNamespace, variables).
     ensure_object C as_addon_config (Ref KAddOnDeploymentConfig clusterNamespace ArgoCDAgentAddonConfigName)
       ''failed to get AddOnDeploymentConfig'' ''failed to create AddOnDeploymentConfig''
       (\<lambda>existing. updateAddOnDeploymentConfig C existing variables)
       (ret (Inr (OAddOnDeploymentConfig (new_addon_config clusterNamespace variables)))))"

section \<open>Lemmas\<close>

lemma config_found_append: "config_found configs c \<Longrightarrow> config_found (configs @ cs) c"
  by (auto simp: config_found_def)

lemma config_found_self: "c \<in> set configs \<Longrightarrow> config_found configs c"
  by (auto simp: config_found_def list_ex_iff)

lemma add_missing_configs_appends:
  "add_missing_configs es (cs, b) = (cs', b') \<Longrightarrow>
     (\<exists>more. cs' = cs @ more \<and> set more \<subseteq> set es \<and> (more = [] \<longrightarrow> b' = b) \<and> (more \<noteq> [] \<longrightarrow> b')) \<and> (\<forall>e \<in> set es. config_found cs' e)"
proof (induction es arbitrary: cs b)
  case (Cons e es)
  show ?case
  proof (cases "config_found cs e")
    case True
    with Cons.prems have run: "add_missing_configs es (cs, b) = (cs', b')" by simp
    with Cons.IH [OF run] True show ?thesis by (auto intro: config_found_append)
  next
    case False
    with Cons.prems have "add_missing_configs es (cs @ [e], True) = (cs', b')" by simp
    from Cons.IH [OF this] obtain more where "cs' = (cs @ [e]) @ more" "set more \<subseteq> set es" "b'"
      "\<forall>e \<in> set es. config_found cs' e" by auto
    then show ?thesis by (auto intro!: config_found_self exI [of _ "e # more"])
  qed
qed simp

lemma add_missing_configs_idem:
  "\<forall>e \<in> set es. config_found cs e \<Longrightarrow> add_missing_configs es (cs, b) = (cs, b)"
  by (induction es) auto

text \<open>An addon that refers to its template and its configuration.\<close>

definition refers_to :: "string \<Rightarrow> string \<Rightarrow> kobj \<Rightarrow> bool" where
  "refers_to templateName clusterNamespace x = (\<exists>a. x = OManagedClusterAddOn a \<and>
     (\<forall>e \<in> set (expected_configs templateName clusterNamespace). config_found (mca_configs a) e))"

lemma new_addon_refers: "same_content (OManagedClusterAddOn (new_addon t ns)) y \<Longrightarrow> refers_to t ns y"
  by (auto simp: same_content_def refers_to_def new_addon_def config_found_self)

abbreviation addon_ref :: "string \<Rightarrow> objref" where
  "addon_ref clusterNamespace \<equiv> Ref KManagedClusterAddOn clusterNamespace ArgoCDAgentAddonName"

abbreviation addon_config_ref_of :: "string \<Rightarrow> objref" where
  "addon_config_ref_of clusterNamespace \<equiv> Ref KAddOnDeploymentConfig clusterNamespace ArgoCDAgentAddonConfigName"

context kube_api
begin

lemma wp_ensureAddonConfig:
  assumes "view w (ref_of (OManagedClusterAddOn addon)) = Some (OManagedClusterAddOn addon)"
    and "m_deletion (mca_meta addon) = None"
  shows "wp (ensureAddonConfig C addon t ns) (\<lambda>r w'.
     (\<forall>q. q \<noteq> ref_of (OManagedClusterAddOn addon) \<longrightarrow> view w' q = view w q) \<and>
     (refers_to t ns (OManagedClusterAddOn addon) \<longrightarrow> view w' = view w) \<and>
     (r = Inr () \<longrightarrow> (\<exists>a more. view w' (ref_of (OManagedClusterAddOn addon)) = Some (OManagedClusterAddOn a) \<and>
        refers_to t ns (OManagedClusterAddOn a) \<and> mca_configs a = mca_configs addon @ more \<and>
        set more \<subseteq> set (expected_configs t ns)))) w"
proof -
  obtain cs b where run: "add_missing_configs (expected_configs t ns) (mca_configs addon, False) = (cs, b)"
    by (cases "add_missing_configs (expected_configs t ns) (mca_configs addon, False)")
  from add_missing_configs_appends [OF run] obtain more where more: "cs = mca_configs addon @ more"
    "set more \<subseteq> set (expected_configs t ns)" "more = [] \<longrightarrow> b = False" "more \<noteq> [] \<longrightarrow> b"
    "\<forall>e \<in> set (expected_configs t ns). config_found cs e" by auto
  have idem: "\<not> b" if "refers_to t ns (OManagedClusterAddOn addon)"
    using that run add_missing_configs_idem [of "expected_configs t ns" "mca_configs addon" False]
    by (simp add: refers_to_def)
  show ?thesis
  proof (cases b)
    case False
    then have "more = []" using more(4) by blast
    with False assms more show ?thesis
      by (simp add: ensureAddonConfig_def run wp_simps refers_to_def)
  next
    case True
    with idem have no: "\<not> refers_to t ns (OManagedClusterAddOn addon)" by blast
    show ?thesis
      unfolding ensureAddonConfig_def run prod.case wp_if wp_wrapE
      using True no assms more
      by (auto simp: wp_simps same_content_def refers_to_def intro!: wp_update_unit)
  qed
qed

end

lemma merge_variables_lookup:
  "map_of (merge_variables variables old) k = (case map_of old k of Some v \<Rightarrow> Some v | None \<Rightarrow> map_of variables k)"
proof -
  have "map_of (filter (\<lambda>(name, value). name \<notin> fst ` set old) variables) k = map_of variables k" if "k \<notin> fst ` set old"
    using that by (induction variables) (auto simp: image_iff)
  then show ?thesis
    unfolding merge_variables_def map_of_append map_add_def map_of_eq_None_iff [symmetric]
    by (simp split: option.split)
qed

lemma merge_variables_none:
  "\<not> list_ex (\<lambda>(name, value). name \<notin> fst ` set old) variables \<Longrightarrow> merge_variables variables old = old"
  by (auto simp: merge_variables_def list_ex_iff filter_empty_conv)

context kube_api
begin

lemma wp_EnsureManagedClusterAddon:
  assumes "\<forall>x. view w (addon_ref ns) = Some x \<longrightarrow> \<not> terminating x"
  shows "wp (EnsureManagedClusterAddon C (ns, g)) (\<lambda>r w'.
     (\<forall>q. q \<noteq> addon_ref ns \<longrightarrow> view w' q = view w q) \<and>
     (\<forall>x. view w (addon_ref ns) = Some x \<and> refers_to (addon_template_name g) ns x \<longrightarrow> view w' = view w) \<and>
     (r = Inr () \<longrightarrow> (\<exists>a. view w' (addon_ref ns) = Some (OManagedClusterAddOn a) \<and>
        refers_to (addon_template_name g) ns (OManagedClusterAddOn a) \<and>
        (\<forall>old. view w (addon_ref ns) = Some (OManagedClusterAddOn old) \<longrightarrow>
           (\<exists>added. mca_configs a = mca_configs old @ added))))) w"
  unfolding EnsureManagedClusterAddon_def prod.case Let_def
proof (rule wp_ensure_object)
  fix a w1 assume v: "view w1 = view w" "view w (addon_ref ns) \<noteq> None"
    "\<And>y. view w (addon_ref ns) = Some y \<Longrightarrow> as_addon y = Some a"
  then have a: "view w (addon_ref ns) = Some (OManagedClusterAddOn a)" by auto
  have ref: "ref_of (OManagedClusterAddOn a) = addon_ref ns" using a by (rule view_ref)
  have "m_deletion (mca_meta a) = None" using assms a by (auto simp: terminating_def)
  from wp_ensureAddonConfig [of w1 a "addon_template_name g" ns, OF _ this] a v(1) ref
  show "wp (ensureAddonConfig C a (addon_template_name g) ns) (\<lambda>r w'.
     (\<forall>q. q \<noteq> addon_ref ns \<longrightarrow> view w' q = view w q) \<and>
     (\<forall>x. view w (addon_ref ns) = Some x \<and> refers_to (addon_template_name g) ns x \<longrightarrow> view w' = view w) \<and>
     (r = Inr () \<longrightarrow> (\<exists>a. view w' (addon_ref ns) = Some (OManagedClusterAddOn a) \<and>
        refers_to (addon_template_name g) ns (OManagedClusterAddOn a) \<and>
        (\<forall>old. view w (addon_ref ns) = Some (OManagedClusterAddOn old) \<longrightarrow>
           (\<exists>added. mca_configs a = mca_configs old @ added))))) w1"
    by (auto elim!: wp_mono simp del: ref_of_simps)
next
  fix w1 assume v: "view w1 = view w" "view w (addon_ref ns) = None"
  then show "wp (bindE (ret (Inr (OManagedClusterAddOn (new_addon (addon_template_name g) ns))))
       (create_unless_exists C ''failed to create ManagedClusterAddOn'')) (\<lambda>r w'.
     (\<forall>q. q \<noteq> addon_ref ns \<longrightarrow> view w' q = view w q) \<and>
     (\<forall>x. view w (addon_ref ns) = Some x \<and> refers_to (addon_template_name g) ns x \<longrightarrow> view w' = view w) \<and>
     (r = Inr () \<longrightarrow> (\<exists>a. view w' (addon_ref ns) = Some (OManagedClusterAddOn a) \<and>
        refers_to (addon_template_name g) ns (OManagedClusterAddOn a) \<and>
        (\<forall>old. view w (addon_ref ns) = Some (OManagedClusterAddOn old) \<longrightarrow>
           (\<exists>added. mca_configs a = mca_configs old @ added))))) w1"
    unfolding wp_bindE wp_ret sum.case
    by (intro wp_create_unless_exists)
      (auto simp: new_addon_def dest!: new_addon_refers [unfolded new_addon_def] simp: refers_to_def)
qed auto

text \<open>The variables stored for a cluster.\<close>

lemma wp_EnsureAddOnDeploymentConfig:
  assumes "\<forall>x. view w (addon_config_ref_of ns) = Some x \<longrightarrow> \<not> terminating x"
  shows "wp (EnsureAddOnDeploymentConfig C (ns, variables)) (\<lambda>r w'.
     (\<forall>q. q \<noteq> addon_config_ref_of ns \<longrightarrow> view w' q = view w q) \<and>
     (r = Inr () \<longrightarrow> (\<exists>c. view w' (addon_config_ref_of ns) = Some (OAddOnDeploymentConfig c) \<and>
        (view w (addon_config_ref_of ns) = None \<longrightarrow> adc_variables c = variables) \<and>
        (\<forall>old. view w (addon_config_ref_of ns) = Some (OAddOnDeploymentConfig old) \<longrightarrow>
           adc_variables c = merge_variables variables (adc_variables old))))) w" (is "wp _ ?Q w")
  unfolding EnsureAddOnDeploymentConfig_def prod.case
proof (rule wp_ensure_object)
  fix a w1 assume v: "view w1 = view w" "view w (addon_config_ref_of ns) \<noteq> None"
    "\<And>y. view w (addon_config_ref_of ns) = Some y \<Longrightarrow> as_addon_config y = Some a"
  then have a: "view w (addon_config_ref_of ns) = Some (OAddOnDeploymentConfig a)" by auto
  have ref: "ref_of (OAddOnDeploymentConfig a) = addon_config_ref_of ns" using a by (rule view_ref)
  have "m_deletion (adc_meta a) = None" using assms a by (auto simp: terminating_def)
  then show "wp (updateAddOnDeploymentConfig C a variables) ?Q w1"
    unfolding updateAddOnDeploymentConfig_def Let_def
    using v(1) a ref merge_variables_none [of "adc_variables a" variables]
    by (auto simp: wp_simps same_content_def intro!: wp_update_unit)
next
  fix w1 assume v: "view w1 = view w" "view w (addon_config_ref_of ns) = None"
  then show "wp (bindE (ret (Inr (OAddOnDeploymentConfig (new_addon_config ns variables))))
       (create_unless_exists C ''failed to create AddOnDeploymentConfig'')) ?Q w1"
    unfolding wp_bindE wp_ret sum.case
    by (intro wp_create_unless_exists) (auto simp: new_addon_config_def same_content_def)
qed auto

end

section \<open>Properties\<close>

text \<open>
  C30: EnsureManagedClusterAddon touches the addon of the cluster only, and not even that when it
  has both references; after a success the addon, which was not already being deleted, refers to
  the template of the GitOpsCluster and to the deployment configuration, and the references it had
  are still there, in order.
\<close>

theorem addon_references_maintained:
  assumes "kube_api C view" and "\<forall>x. view w (addon_ref ns) = Some x \<longrightarrow> \<not> terminating x"
    and "run_state (EnsureManagedClusterAddon C (ns, g)) w = (r, w')"
  shows "(\<forall>q. q \<noteq> addon_ref ns \<longrightarrow> view w' q = view w q) \<and>
     (\<forall>x. view w (addon_ref ns) = Some x \<and> refers_to (addon_template_name g) ns x \<longrightarrow> view w' = view w) \<and>
     (r = Inr () \<longrightarrow> (\<exists>a. view w' (addon_ref ns) = Some (OManagedClusterAddOn a) \<and>
        refers_to (addon_template_name g) ns (OManagedClusterAddOn a) \<and>
        (\<forall>old. view w (addon_ref ns) = Some (OManagedClusterAddOn old) \<longrightarrow>
           (\<exists>added. mca_configs a = mca_configs old @ added))))"
  by (rule wp_run [OF kube_api.wp_EnsureManagedClusterAddon [OF assms(1,2)] assms(3)])

definition example_gitops :: gitops_cluster where
  "example_gitops = \<lparr>gc_meta = new_meta ''gitops'' ''argocd'',
     gc_spec = \<lparr>PlacementRefKind = ''Placement'', PlacementRefName = ''all'',
       ArgoCDAgentAddon = \<lparr>PrincipalServerAddress = '''', PrincipalServerPort = '''', Mode = '''', OperatorNamespace = '''',
         AgentNamespace = '''', ArgoCDCRManifestWork = None\<rparr>\<rparr>,
     gc_conditions = []\<rparr>"

definition example_old_addon :: managed_cluster_addon where
  "example_old_addon = \<lparr>mca_meta = new_meta ArgoCDAgentAddonName ''c1'',
     mca_configs = [\<lparr>ac_group = ''addon.open-cluster-management.io'', ac_resource = ''addontemplates'',
       ac_name = ''other'', ac_namespace = ''''\<rparr>]\<rparr>"

definition example_addon_world :: mem where
  "example_addon_world = mem_of [OManagedClusterAddOn example_old_addon]"

theorem addon_references_maintained_witness:
  "\<exists>a. mem_view (snd (run_state (EnsureManagedClusterAddon mem_client (''c1'', example_gitops)) example_addon_world)) (addon_ref ''c1'') =
       Some (OManagedClusterAddOn a) \<and> refers_to (addon_template_name example_gitops) ''c1'' (OManagedClusterAddOn a)"
proof -
  let ?run = "run_state (EnsureManagedClusterAddon mem_client (''c1'', example_gitops)) example_addon_world"
  have "mem_view example_addon_world (addon_ref ''c1'') = Some (OManagedClusterAddOn example_old_addon)" by code_simp
  moreover have "\<not> terminating (OManagedClusterAddOn example_old_addon)" by code_simp
  ultimately have live: "\<forall>x. mem_view example_addon_world (addon_ref ''c1'') = Some x \<longrightarrow> \<not> terminating x" by simp
  have ok: "fst ?run = Inr ()" by code_simp
  from addon_references_maintained [OF mem_kube_api, OF live, of example_gitops "fst ?run" "snd ?run"] ok
  show ?thesis unfolding prod.collapse by blast
qed

text \<open>
  C31: After a successful EnsureAddOnDeploymentConfig on an existing configuration that is not
  being deleted, every variable that was set has the value it had, even when the controller wants
  another, and every missing one has the wanted value.
\<close>

theorem addon_variables_only_added:
  assumes "kube_api C view" and "view w (addon_config_ref_of ns) = Some (OAddOnDeploymentConfig old)"
    and "m_deletion (adc_meta old) = None"
    and "run_state (EnsureAddOnDeploymentConfig C (ns, variables)) w = (Inr (), w')"
  shows "\<exists>c. view w' (addon_config_ref_of ns) = Some (OAddOnDeploymentConfig c) \<and>
     (\<forall>k. map_of (adc_variables c) k = (case map_of (adc_variables old) k of Some v \<Rightarrow> Some v | None \<Rightarrow> map_of variables k))"
proof -
  have "\<forall>x. view w (addon_config_ref_of ns) = Some x \<longrightarrow> \<not> terminating x"
    using assms(2,3) by (simp add: terminating_def)
  from wp_run [OF kube_api.wp_EnsureAddOnDeploymentConfig [OF assms(1) this] assms(4)] assms(2)
  show ?thesis by (auto simp: merge_variables_lookup)
qed

definition example_config :: addon_deployment_config where
  "example_config = \<lparr>adc_meta = new_meta ArgoCDAgentAddonConfigName ''c1'',
     adc_variables = [(''ARGOCD_AGENT_SERVER_ADDRESS'', ''old.example.com'')]\<rparr>"

definition example_config_world :: mem where
  "example_config_world = mem_of [OAddOnDeploymentConfig example_config]"

theorem addon_variables_only_added_witness:
  "\<exists>c. mem_view (snd (run_state (EnsureAddOnDeploymentConfig mem_client
        (''c1'', [(''ARGOCD_AGENT_SERVER_ADDRESS'', ''new.example.com'')])) example_config_world)) (addon_config_ref_of ''c1'') =
       Some (OAddOnDeploymentConfig c) \<and> map_of (adc_variables c) ''ARGOCD_AGENT_SERVER_ADDRESS'' = Some ''old.example.com''"
proof -
  let ?vars = "[(''ARGOCD_AGENT_SERVER_ADDRESS'', ''new.example.com'')]"
  let ?run = "run_state (EnsureAddOnDeploymentConfig mem_client (''c1'', ?vars)) example_config_world"
  have ex: "mem_view example_config_world (addon_config_ref_of ''c1'') = Some (OAddOnDeploymentConfig example_config)" by code_simp
  have live: "m_deletion (adc_meta example_config) = None" by code_simp
  have "fst ?run = Inr ()" by code_simp
  then have run: "?run = (Inr (), snd ?run)" by (metis prod.collapse)
  have old: "map_of (adc_variables example_config) ''ARGOCD_AGENT_SERVER_ADDRESS'' = Some ''old.example.com''" by code_simp
  from addon_variables_only_added [OF mem_kube_api, OF ex, OF live, OF run] old show ?thesis by fastforce
qed

end
