(* ===== verification/Go_Text.thy ===== *)
theory Go_Text
  imports Prelude
begin

text \<open>
  Text encodings of the Go standard library that the program relies on: the query escaping of \<open>net/url\<close>,
  the base64 form of byte slices and the string literals of \<open>encoding/json\<close>, and \<open>strconv.Atoi\<close>. A byte is a \<open>char\<close>.
\<close>

section \<open>Query escaping\<close>

definition byte :: "char \<Rightarrow> int" where
  "byte c = of_char c"

definition unreserved :: "char \<Rightarrow> bool" where
  "unreserved c = ((97 \<le> byte c \<and> byte c \<le> 122) \<or> (65 \<le> byte c \<and> byte c \<le> 90) \<or>
     (48 \<le> byte c \<and> byte c \<le> 57) \<or> c = CHR ''-'' \<or> c = CHR ''_'' \<or> c = CHR ''.'' \<or> c = CHR ''~'')"

definition hex_digit :: "int \<Rightarrow> char" where
  "hex_digit d = char_of (if d < 10 then 48 + d else 55 + d)"

fun query_escape :: "string \<Rightarrow> string" where
  "query_escape [] = []"
| "query_escape (c # s) =
     (if unreserved c then c # query_escape s
      else if c = CHR '' '' then CHR ''+'' # query_escape s
      else CHR ''%'' # hex_digit (byte c div 16) # hex_digit (byte c mod 16) # query_escape s)"

text \<open>The decoder shows that nothing is lost.\<close>

definition hex_value :: "char \<Rightarrow> int" where
  "hex_value c = (if byte c < 58 then byte c - 48 else byte c - 55)"

fun query_unescape :: "string \<Rightarrow> string" where
  "query_unescape [] = []"
| "query_unescape (c # s) =
     (if c = CHR ''%'' then
        (case s of a # b # t \<Rightarrow> char_of (16 * hex_value a + hex_value b) # query_unescape t | _ \<Rightarrow> [])
      else (if c = CHR ''+'' then CHR '' '' else c) # query_unescape s)"

lemma byte_bounds: "0 \<le> byte c" "byte c < 256"
proof -
  have "byte c = byte c mod 256" by (simp add: byte_def)
  then show "0 \<le> byte c" "byte c < 256"
    by (metis pos_mod_sign zero_less_numeral, metis pos_mod_bound zero_less_numeral)
qed

lemma hex_value_digit: "0 \<le> d \<Longrightarrow> d < 16 \<Longrightarrow> hex_value (hex_digit d) = d"
  by (auto simp: hex_value_def hex_digit_def byte_def)

lemma char_of_byte [simp]: "char_of (byte c) = c"
  by (simp add: byte_def)

lemma query_unescape_escape [simp]: "query_unescape (query_escape s) = s"
proof (induction s)
  case (Cons c s)
  have hex: "char_of (16 * hex_value (hex_digit (byte c div 16)) + hex_value (hex_digit (byte c mod 16))) = c"
    using byte_bounds [of c] by (simp add: hex_value_digit div_less_iff_less_mult flip: mult.commute)
  have "c \<noteq> CHR ''%'' \<and> c \<noteq> CHR ''+''" if "unreserved c"
    using that by (auto simp: unreserved_def byte_def)
  with Cons.IH hex show ?case by auto
qed simp

lemma query_escape_inject: "query_escape s = query_escape t \<longleftrightarrow> s = t"
  by (metis query_unescape_escape)

section \<open>Atoi\<close>

definition is_digit :: "char \<Rightarrow> bool" where
  "is_digit c = (48 \<le> byte c \<and> byte c \<le> 57)"

fun digits_value :: "string \<Rightarrow> int \<Rightarrow> int" where
  "digits_value [] n = n"
| "digits_value (c # s) n = digits_value s (10 * n + (byte c - 48))"

text \<open>\<open>strconv.Atoi\<close> without its range check; \<open>None\<close> is a syntax error.\<close>

definition atoi :: "string \<Rightarrow> int option" where
  "atoi s =
     (let (neg, digits) = (case s of c # t \<Rightarrow> if c = CHR ''-'' then (True, t) else if c = CHR ''+'' then (False, t) else (False, s)
           | [] \<Rightarrow> (False, s))
      in if digits = [] \<or> \<not> list_all is_digit digits then None
         else Some (if neg then - digits_value digits 0 else digits_value digits 0))"

section \<open>Base64\<close>

definition base64_char :: "int \<Rightarrow> char" where
  "base64_char d = char_of (if d < 26 then 65 + d else if d < 52 then 71 + d else if d < 62 then d - 4
     else if d = 62 then 43 else 47)"

fun base64 :: "string \<Rightarrow> string" where
  "base64 [] = []"
| "base64 [a] = [base64_char (byte a div 4), base64_char (byte a mod 4 * 16), CHR ''='', CHR ''='']"
| "base64 [a, b] = [base64_char (byte a div 4), base64_char (byte a mod 4 * 16 + byte b div 16),
     base64_char (byte b mod 16 * 4), CHR ''='']"
| "base64 (a # b # c # s) = base64_char (byte a div 4) # base64_char (byte a mod 4 * 16 + byte b div 16) #
     base64_char (byte b mod 16 * 4 + byte c div 64) # base64_char (byte c mod 64) # base64 s"

text \<open>Decoding: groups of four characters, the last one padded.\<close>

definition base64_value :: "char \<Rightarrow> int" where
  "base64_value c =
     (let n = byte c in
      if 65 \<le> n \<and> n \<le> 90 then n - 65 else if 97 \<le> n \<and> n \<le> 122 then n - 71
      else if 48 \<le> n \<and> n \<le> 57 then n + 4 else if n = 43 then 62 else 63)"

definition base64_ok :: "char \<Rightarrow> bool" where
  "base64_ok c = (c \<noteq> CHR ''='' \<and> base64_char (base64_value c) = c)"

fun unbase64 :: "string \<Rightarrow> string option" where
  "unbase64 [] = Some []"
| "unbase64 (a # b # c # d # s) =
     (if \<not> base64_ok a \<or> \<not> base64_ok b then None
      else let x = base64_value a; y = base64_value b; z = base64_value c; u = base64_value d in
        if c = CHR ''='' then (if d = CHR ''='' \<and> s = [] then Some [char_of (x * 4 + y div 16)] else None)
        else if \<not> base64_ok c then None
        else if d = CHR ''='' then (if s = [] then Some [char_of (x * 4 + y div 16), char_of (y mod 16 * 16 + z div 4)] else None)
        else if \<not> base64_ok d then None
        else map_option (\<lambda>t. char_of (x * 4 + y div 16) # char_of (y mod 16 * 16 + z div 4) # char_of (z mod 4 * 64 + u) # t)
          (unbase64 s))"
| "unbase64 _ = None"

lemma base64_char_range:
  assumes "0 \<le> d" "d < 64"
  shows "base64_value (base64_char d) = d" "base64_ok (base64_char d)"
proof -
  have d: "d \<in> {0..63}" using assms by simp
  have "\<forall>d \<in> set [0..63]. base64_value (base64_char d) = d \<and> base64_char d \<noteq> CHR ''=''" by code_simp
  with d have v: "base64_value (base64_char d) = d" "base64_char d \<noteq> CHR ''=''" by auto
  then show "base64_value (base64_char d) = d" "base64_ok (base64_char d)" by (auto simp: base64_ok_def)
qed

lemma base64_ok_not_pad: "base64_ok c \<Longrightarrow> c \<noteq> CHR ''=''"
  by (simp add: base64_ok_def)

lemma unbase64_groups:
  assumes "0 \<le> x" "x < 64" "0 \<le> y" "y < 64"
  shows "unbase64 [base64_char x, base64_char y, CHR ''='', CHR ''=''] = Some [char_of (x * 4 + y div 16)]"
    "0 \<le> z \<Longrightarrow> z < 64 \<Longrightarrow> unbase64 [base64_char x, base64_char y, base64_char z, CHR ''=''] =
       Some [char_of (x * 4 + y div 16), char_of (y mod 16 * 16 + z div 4)]"
    "0 \<le> z \<Longrightarrow> z < 64 \<Longrightarrow> 0 \<le> u \<Longrightarrow> u < 64 \<Longrightarrow>
       unbase64 (base64_char x # base64_char y # base64_char z # base64_char u # s) =
       map_option (\<lambda>t. char_of (x * 4 + y div 16) # char_of (y mod 16 * 16 + z div 4) # char_of (z mod 4 * 64 + u) # t) (unbase64 s)"
  using assms by (simp_all add: base64_char_range base64_ok_not_pad Let_def)

text \<open>How three bytes split into four groups of six bits, and come together again.\<close>

lemma packed:
  fixes q t m :: int
  assumes "0 \<le> t" "t < m"
  shows "(q * m + t) div m = q" "(q * m + t) mod m = t"
  using assms by simp_all

lemma high_bits:
  fixes a :: int
  assumes "0 \<le> a" "a < 256"
  shows "0 \<le> a div 4" "a div 4 < 64" "0 \<le> a div 16" "a div 16 < 16" "0 \<le> a div 64" "a div 64 < 4"
  using assms by (simp_all add: div_less_iff_less_mult)

lemma sextet_range:
  fixes q t :: int
  assumes "0 \<le> q" "0 \<le> t"
  shows "q < 4 \<Longrightarrow> t < 16 \<Longrightarrow> 0 \<le> q * 16 + t \<and> q * 16 + t < 64"
    "q < 16 \<Longrightarrow> t < 4 \<Longrightarrow> 0 \<le> q * 4 + t \<and> q * 4 + t < 64"
  using assms by simp_all

lemma sextets:
  fixes a b c :: int
  assumes "0 \<le> a" "a < 256" "0 \<le> b" "b < 256" "0 \<le> c" "c < 256"
  shows "a div 4 * 4 + (a mod 4 * 16 + b div 16) div 16 = a"
    "(a mod 4 * 16 + b div 16) mod 16 * 16 + (b mod 16 * 4 + c div 64) div 4 = b"
    "(b mod 16 * 4 + c div 64) mod 4 * 64 + c mod 64 = c"
    "0 \<le> a mod 4 * 16 + b div 16" "a mod 4 * 16 + b div 16 < 64"
    "0 \<le> b mod 16 * 4 + c div 64" "b mod 16 * 4 + c div 64 < 64"
proof -
  note hb = high_bits [OF assms(3,4)] and hc = high_bits [OF assms(5,6)]
  have d4: "0 \<le> x mod 4 \<and> x mod 4 < 4" "0 \<le> x mod 16 \<and> x mod 16 < 16" for x :: int by simp_all
  note pb = packed [OF hb(3,4)] and pc = packed [OF hc(5,6)]
  show "a div 4 * 4 + (a mod 4 * 16 + b div 16) div 16 = a" unfolding pb by (rule div_mult_mod_eq)
  show "(a mod 4 * 16 + b div 16) mod 16 * 16 + (b mod 16 * 4 + c div 64) div 4 = b"
    unfolding pb pc by (rule div_mult_mod_eq)
  show "(b mod 16 * 4 + c div 64) mod 4 * 64 + c mod 64 = c" unfolding pc by (rule div_mult_mod_eq)
  show "0 \<le> a mod 4 * 16 + b div 16" "a mod 4 * 16 + b div 16 < 64"
    using sextet_range(1) [of "a mod 4" "b div 16"] d4(1) [of a] hb(3,4) by blast+
  show "0 \<le> b mod 16 * 4 + c div 64" "b mod 16 * 4 + c div 64 < 64"
    using sextet_range(2) [of "b mod 16" "c div 64"] d4(2) [of b] hc(5,6) by blast+
qed

text \<open>The padded groups are those of a byte zero that is not written.\<close>

lemma unbase64_base64 [simp]: "unbase64 (base64 s) = Some s"
proof (induction s rule: base64.induct)
  case (2 a)
  have z: "0 \<le> (0::int)" "(0::int) < 256" by simp_all
  note h = high_bits [OF byte_bounds [of a]]
    and n = sextets [OF byte_bounds [of a] z z, unfolded div_0 add_0_right]
  show ?case unfolding base64.simps unbase64_groups(1) [OF h(1,2) n(4,5)] n(1) char_of_byte by (rule refl)
next
  case (3 a b)
  have z: "0 \<le> (0::int)" "(0::int) < 256" by simp_all
  note h = high_bits [OF byte_bounds [of a]]
    and n = sextets [OF byte_bounds [of a] byte_bounds [of b] z, unfolded div_0 add_0_right]
  show ?case unfolding base64.simps unbase64_groups(2) [OF h(1,2) n(4-7)] n(1,2) char_of_byte by (rule refl)
next
  case (4 a b c s)
  note h = high_bits [OF byte_bounds [of a]] and n = sextets [OF byte_bounds [of a] byte_bounds [of b] byte_bounds [of c]]
  have u: "0 \<le> byte c mod 64" "byte c mod 64 < 64" by simp_all
  show ?case
    unfolding base64.simps unbase64_groups(3) [OF h(1,2) n(4,5) n(6,7) u] n(1-3) char_of_byte 4 option.map(2) by (rule refl)
qed simp

section \<open>JSON strings\<close>

text \<open>
  Quotes, backslashes, control characters and the characters \<open><\<close>, \<open>>\<close> and \<open>&\<close> are escaped. Bytes from 128 on are copied: the
  text is taken to be valid UTF-8 without U+2028 and U+2029.
\<close>

definition hex_lower :: "int \<Rightarrow> char" where
  "hex_lower d = char_of (if d < 10 then 48 + d else 87 + d)"

definition json_char :: "char \<Rightarrow> string" where
  "json_char c =
     (let n = byte c in
      if n = 34 then [char_of (92::int), c]
      else if n = 92 then [c, c]
      else if n = 8 then [char_of (92::int), CHR ''b'']
      else if n = 12 then [char_of (92::int), CHR ''f'']
      else if n = 10 then [char_of (92::int), CHR ''n'']
      else if n = 13 then [char_of (92::int), CHR ''r'']
      else if n = 9 then [char_of (92::int), CHR ''t'']
      else if n < 32 \<or> n = 60 \<or> n = 62 \<or> n = 38 then
        char_of (92::int) # ''u00'' @ [hex_lower (n div 16), hex_lower (n mod 16)]
      else [c])"

definition json_quote :: "string \<Rightarrow> string" where
  "json_quote s = char_of (34::int) # concat (map json_char s) @ [char_of (34::int)]"

text \<open>The number that a decimal text was made of.\<close>

lemma byte_digit_char: "0 \<le> d \<Longrightarrow> d \<le> 9 \<Longrightarrow> byte (digit_char d) = 48 + d"
  by (simp add: byte_def digit_char_def)

lemma is_digit_char: "0 \<le> d \<Longrightarrow> d \<le> 9 \<Longrightarrow> is_digit (digit_char d)"
  by (simp add: is_digit_def byte_digit_char)

lemma show_digits_digits: "0 \<le> n \<Longrightarrow> list_all is_digit (show_digits n)"
proof (induction n rule: show_digits.induct)
  case (1 n)
  then show ?case
    by (subst show_digits.simps) (auto simp: is_digit_char)
qed

lemma digits_value_append: "digits_value (s @ t) n = digits_value t (digits_value s n)"
  by (induction s arbitrary: n) auto

lemma digits_value_show: "0 \<le> n \<Longrightarrow> digits_value (show_digits n) 0 = n"
proof (induction n rule: show_digits.induct)
  case (1 n)
  then show ?case
    by (subst show_digits.simps) (auto simp: byte_digit_char digits_value_append)
qed

lemma itoa_nat_inject: "itoa (int m) = itoa (int n) \<longleftrightarrow> m = n"
proof
  assume "itoa (int m) = itoa (int n)"
  then have "digits_value (show_digits (int m)) 0 = digits_value (show_digits (int n)) 0" by (simp add: itoa_def)
  then show "m = n" by (simp add: digits_value_show)
qed simp

lemma digits_value_itoa: "itoa n = s \<Longrightarrow> take 1 s \<noteq> ''-'' \<Longrightarrow> digits_value s 0 = n"
  by (auto simp: itoa_def digits_value_show split: if_splits)

end
