(* ===== verification/Server_Discovery.thy ===== *)
theory Server_Discovery
  imports Ensure Api_Machinery Go_Text
begin

text \<open>
  \<open>internal/controller/server_discovery.go\<close>, with the lookup of the principal Service from
  \<open>argocd_agent_certificates.go\<close>: the address and port under which agents reach the Argo CD agent
  principal, and the image the hub principal runs. \<open>unstructured.NestedString\<close> is the argument \<open>nested_string\<close>.
\<close>

section \<open>The principal Service\<close>

definition ArgoCDAgentPrincipalServiceName :: string where
  "ArgoCDAgentPrincipalServiceName = ''argocd-agent-principal''"
definition OpenshiftGitOpsAgentPrincipalServiceName :: string where
  "OpenshiftGitOpsAgentPrincipalServiceName = ''openshift-gitops-agent-principal''"

definition findArgoCDAgentPrincipalService :: "'w client \<Rightarrow> string \<Rightarrow> ('w, service result) state" where
  "findArgoCDAgentPrincipalService C namespace = do {
     r \<leftarrow> fetch as_service C (Ref KService namespace ArgoCDAgentPrincipalServiceName);
     (case r of
        Inr service \<Rightarrow> ret (Inr service)
      | Inl _ \<Rightarrow> do {
          r \<leftarrow> fetch as_service C (Ref KService namespace OpenshiftGitOpsAgentPrincipalServiceName);
          (case r of
             Inr service \<Rightarrow> ret (Inr service)
           | Inl _ \<Rightarrow> ret (Inl (Plain (''ArgoCD agent principal service not found in namespace '' @ namespace)))) }) }"

section \<open>Discovery\<close>

text \<open>The first ingress entry with a hostname or an IP.\<close>

fun ingress_address :: "lb_ingress list \<Rightarrow> string" where
  "ingress_address [] = ''''"
| "ingress_address (ingress # rest) =
     (if ing_hostname ingress \<noteq> '''' then ing_hostname ingress
      else if ing_ip ingress \<noteq> '''' then ing_ip ingress
      else ingress_address rest)"

definition https_port :: "service_port \<Rightarrow> bool" where
  "https_port port = (sp_name port = ''https'' \<or> sp_port port = 443 \<or> sp_port port = 8443)"

definition load_balancer_port :: "service_port list \<Rightarrow> string" where
  "load_balancer_port ports = (case find https_port ports of Some port \<Rightarrow> itoa (sp_port port) | None \<Rightarrow> ''443'')"

definition node_port :: "service_port list \<Rightarrow> string" where
  "node_port ports =
     (let serverPort = (case find (\<lambda>port. sp_node_port port \<noteq> 0 \<and> https_port port) ports of
            Some port \<Rightarrow> itoa (sp_node_port port) | None \<Rightarrow> ''443'')
      in if serverPort = ''443'' then
           (case find (\<lambda>port. sp_node_port port \<noteq> 0) ports of
              Some port \<Rightarrow> itoa (sp_node_port port) | None \<Rightarrow> serverPort)
         else serverPort)"

definition internal_ips :: "node \<Rightarrow> string list" where
  "internal_ips node = map na_address (filter (\<lambda>addr. na_type addr = ''InternalIP'') (node_addresses node))"

text \<open>The nested loop over nodes and addresses returns the first InternalIP.\<close>

definition getNodeInternalIP :: "'w client \<Rightarrow> ('w, string result) state" where
  "getNodeInternalIP C =
     bindE (wrapE ''failed to list nodes'' (list_as as_node C KNode None [])) (\<lambda>nodes.
       case concat (map internal_ips nodes) of
         ip # _ \<Rightarrow> ret (Inr ip)
       | [] \<Rightarrow> ret (Inl (Plain ''no node with InternalIP found'')))"

definition discoverServerAddressAndPort :: "'w client \<Rightarrow> string \<Rightarrow> ('w, (string \<times> string) result) state" where
  "discoverServerAddressAndPort C argoCDNamespace =
     bindE (wrapE ''failed to find ArgoCD agent principal service'' (findArgoCDAgentPrincipalService C argoCDNamespace)) (\<lambda>service.
       let serverAddress = ingress_address (svc_ingress service) in
       if serverAddress \<noteq> '''' then ret (Inr (serverAddress, load_balancer_port (svc_ports service)))
       else if svc_type service = ''NodePort'' then
         bindE (wrapE ''NodePort service found but failed to get node IP'' (getNodeInternalIP C)) (\<lambda>nodeIP.
           ret (Inr (nodeIP, node_port (svc_ports service))))
       else ret (Inl (Plain (''no external endpoint found for service '' @ m_name (svc_meta service) @ '' in namespace '' @
         argoCDNamespace @ '' (type='' @ svc_type service @ '', no LoadBalancer ingress)''))))"

text \<open>The answer tells whether the spec changed, and the GitOpsCluster in memory with its fields filled in.\<close>

definition set_server :: "string \<Rightarrow> string \<Rightarrow> gitops_cluster \<Rightarrow> gitops_cluster" where
  "set_server serverAddress serverPort g = g\<lparr>gc_spec := (gc_spec g)\<lparr>ArgoCDAgentAddon :=
     (ArgoCDAgentAddon (gc_spec g))\<lparr>PrincipalServerAddress := serverAddress, PrincipalServerPort := serverPort\<rparr>\<rparr>\<rparr>"

definition EnsureServerAddressAndPort :: "'w client \<Rightarrow> gitops_cluster \<Rightarrow> string \<Rightarrow> ('w, (bool \<times> gitops_cluster) result) state" where
  "EnsureServerAddressAndPort C gitOpsCluster argoCDNamespace =
     (if PrincipalServerAddress (ArgoCDAgentAddon (gc_spec gitOpsCluster)) \<noteq> '''' \<and>
         PrincipalServerPort (ArgoCDAgentAddon (gc_spec gitOpsCluster)) \<noteq> ''''
      then ret (Inr (False, gitOpsCluster))
      else bindE (wrapE ''failed to discover server address and port'' (discoverServerAddressAndPort C argoCDNamespace))
        (\<lambda>(serverAddress, serverPort). ret (Inr (True, set_server serverAddress serverPort gitOpsCluster))))"

definition discoverPrincipalImage :: "(string list \<Rightarrow> fields \<Rightarrow> string option result) \<Rightarrow> 'w client \<Rightarrow> string \<Rightarrow> ('w, string result) state" where
  "discoverPrincipalImage nested_string C argoCDNamespace = do {
     r \<leftarrow> fetch as_unstr C (Ref (KUnstr ''argoproj.io/v1beta1'' ''ArgoCD'') argoCDNamespace ''argocd'');
     (case r of
        Inl e \<Rightarrow> if is_not_found e then ret (Inr '''') else ret (Inl e)
      | Inr argoCD \<Rightarrow>
          (case nested_string [''spec'', ''argoCDAgent'', ''principal'', ''image''] (u_fields argoCD) of
             Inl e \<Rightarrow> ret (Inl e)
           | Inr None \<Rightarrow> ret (Inr '''')
           | Inr (Some img) \<Rightarrow> ret (Inr img))) }"

section \<open>Lemmas\<close>

lemma set_server_sel [simp]:
  "PrincipalServerAddress (ArgoCDAgentAddon (gc_spec (set_server a p g))) = a"
  "PrincipalServerPort (ArgoCDAgentAddon (gc_spec (set_server a p g))) = p"
  by (simp_all add: set_server_def)

lemma set_server_inject: "set_server a p g = set_server b q g \<longleftrightarrow> a = b \<and> p = q"
  by (metis set_server_sel)

text \<open>The Service agents are sent to, and the endpoints it offers.\<close>

definition principal_service :: "('w \<Rightarrow> objref \<Rightarrow> kobj option) \<Rightarrow> 'w \<Rightarrow> string \<Rightarrow> service \<Rightarrow> bool" where
  "principal_service view w ns s = (view w (Ref KService ns (m_name (svc_meta s))) = Some (OService s) \<and>
     m_name (svc_meta s) \<in> {ArgoCDAgentPrincipalServiceName, OpenshiftGitOpsAgentPrincipalServiceName})"

text \<open>The first element of a list with a property.\<close>

definition first_such :: "('a \<Rightarrow> bool) \<Rightarrow> 'a list \<Rightarrow> 'a \<Rightarrow> bool" where
  "first_such P xs x = (\<exists>before after. xs = before @ x # after \<and> P x \<and> (\<forall>y \<in> set before. \<not> P y))"

definition secure :: "service_port \<Rightarrow> bool" where
  "secure p = (sp_name p = ''https'' \<or> sp_port p \<in> {443, 8443})"

text \<open>
  The endpoint in terms of the Service alone: at its first ingress with an address, on its first secure port, or on 443 when it has none;
  or for a NodePort Service without ingress on an internal address of a node, on the node port of its first secure port that has one
  other than 443, else on its first node port, or on 443 when it has none.
\<close>

definition offers_ingress :: "service \<Rightarrow> string \<Rightarrow> string \<Rightarrow> bool" where
  "offers_ingress s addr port = (
     (\<exists>i. first_such (\<lambda>i. ing_hostname i \<noteq> '''' \<or> ing_ip i \<noteq> '''') (svc_ingress s) i \<and>
        addr = (if ing_hostname i \<noteq> '''' then ing_hostname i else ing_ip i)) \<and>
     ((\<exists>p. first_such secure (svc_ports s) p \<and> port = itoa (sp_port p)) \<or> (\<forall>p \<in> set (svc_ports s). \<not> secure p) \<and> port = ''443''))"

definition offers_node_port :: "('w \<Rightarrow> objref \<Rightarrow> kobj option) \<Rightarrow> 'w \<Rightarrow> service \<Rightarrow> string \<Rightarrow> string \<Rightarrow> bool" where
  "offers_node_port view w s addr port = (svc_type s = ''NodePort'' \<and>
     (\<forall>i \<in> set (svc_ingress s). ing_hostname i = '''' \<and> ing_ip i = '''') \<and>
     (\<exists>n a. view w (ref_of (ONode n)) = Some (ONode n) \<and> a \<in> set (node_addresses n) \<and> na_type a = ''InternalIP'' \<and> addr = na_address a) \<and>
     (let bound = (\<lambda>p. sp_node_port p \<noteq> 0); preferred = (\<lambda>p. bound p \<and> secure p) in
      if \<exists>p. first_such preferred (svc_ports s) p \<and> sp_node_port p \<noteq> 443
      then \<exists>p. first_such preferred (svc_ports s) p \<and> port = itoa (sp_node_port p)
      else if \<exists>p \<in> set (svc_ports s). bound p then \<exists>p. first_such bound (svc_ports s) p \<and> port = itoa (sp_node_port p)
      else port = ''443''))"

definition offers :: "('w \<Rightarrow> objref \<Rightarrow> kobj option) \<Rightarrow> 'w \<Rightarrow> service \<Rightarrow> string \<Rightarrow> string \<Rightarrow> bool" where
  "offers view w s addr port = (offers_ingress s addr port \<or> offers_node_port view w s addr port)"

lemma first_such_find: "find P xs = Some x \<longleftrightarrow> first_such P xs x"
proof (induction xs)
  case (Cons y ys)
  have "first_such P (y # ys) x \<longleftrightarrow> (if P y then x = y else first_such P ys x)"
  proof (cases "P y")
    case True
    then show ?thesis by (auto simp: first_such_def Cons_eq_append_conv)
  next
    case False
    have "first_such P ys x" if "first_such P (y # ys) x"
      using that False by (force simp: first_such_def Cons_eq_append_conv)
    moreover have "first_such P (y # ys) x" if "first_such P ys x"
    proof -
      from that obtain before after where "ys = before @ x # after" "P x" "\<forall>y \<in> set before. \<not> P y" by (auto simp: first_such_def)
      with False show ?thesis unfolding first_such_def by (intro exI [of _ "y # before"] exI [of _ after]) simp
    qed
    ultimately show ?thesis using False by auto
  qed
  with Cons show ?case by auto
qed (simp add: first_such_def)

lemma https_secure: "https_port = secure"
  by (auto simp: fun_eq_iff https_port_def secure_def)

lemma itoa_443: "itoa k = ''443'' \<longleftrightarrow> k = 443"
proof
  assume "itoa k = ''443''"
  from digits_value_itoa [OF this] have "k = digits_value ''443'' 0" by simp
  also have "\<dots> = 443" by code_simp
  finally show "k = 443" .
next
  have "itoa 443 = ''443''" by code_simp
  then show "k = 443 \<Longrightarrow> itoa k = ''443''" by simp
qed

lemma ingress_offered:
  "ingress_address is \<noteq> '''' \<Longrightarrow> \<exists>i. first_such (\<lambda>i. ing_hostname i \<noteq> '''' \<or> ing_ip i \<noteq> '''') is i \<and>
     ingress_address is = (if ing_hostname i \<noteq> '''' then ing_hostname i else ing_ip i)"
  unfolding first_such_find [symmetric] by (induction "is") (auto split: if_splits)

lemma no_ingress: "ingress_address is = '''' \<longleftrightarrow> (\<forall>i \<in> set is. ing_hostname i = '''' \<and> ing_ip i = '''')"
  by (induction "is") auto

lemma port_offered:
  "(\<exists>p. first_such secure ps p \<and> load_balancer_port ps = itoa (sp_port p)) \<or> (\<forall>p \<in> set ps. \<not> secure p) \<and> load_balancer_port ps = ''443''"
  unfolding first_such_find [symmetric] load_balancer_port_def https_secure
  by (auto split: option.split simp: find_None_iff)

lemma node_port_offered:
  "(let bound = (\<lambda>p. sp_node_port p \<noteq> 0); preferred = (\<lambda>p. bound p \<and> secure p) in
      if \<exists>p. first_such preferred ps p \<and> sp_node_port p \<noteq> 443
      then \<exists>p. first_such preferred ps p \<and> node_port ps = itoa (sp_node_port p)
      else if \<exists>p \<in> set ps. bound p then \<exists>p. first_such bound ps p \<and> node_port ps = itoa (sp_node_port p)
      else node_port ps = ''443'')"
proof -
  let ?b = "\<lambda>p. sp_node_port p \<noteq> 0"
  let ?pr = "\<lambda>p. ?b p \<and> secure p"
  have bound: "\<exists>q. find ?b ps = Some q" if "p \<in> set ps" "?b p" for p
    using that find_None_iff [of ?b ps] by (cases "find ?b ps") auto
  have member: "p \<in> set ps \<and> P p" if "find P ps = Some p" for P p
    using that unfolding first_such_find first_such_def by auto
  have np: "node_port ps = (case find ?pr ps of
       Some p \<Rightarrow> if sp_node_port p \<noteq> 443 then itoa (sp_node_port p) else (case find ?b ps of Some q \<Rightarrow> itoa (sp_node_port q) | None \<Rightarrow> ''443'')
     | None \<Rightarrow> (case find ?b ps of Some q \<Rightarrow> itoa (sp_node_port q) | None \<Rightarrow> ''443''))"
    by (auto simp: node_port_def https_secure Let_def itoa_443 split: option.split)
  show ?thesis
  proof (cases "find ?pr ps")
    case None
    then show ?thesis unfolding np first_such_find [symmetric] Let_def
      using member [of ?b] bound by (cases "find ?b ps") auto
  next
    case (Some p)
    with member obtain q where "find ?b ps = Some q" "p \<in> set ps" "?b p" using bound by blast
    with Some show ?thesis unfolding np first_such_find [symmetric] Let_def by auto
  qed
qed

lemma discovered_offered:
  "ingress_address (svc_ingress s) \<noteq> '''' \<Longrightarrow> offers view w s (ingress_address (svc_ingress s)) (load_balancer_port (svc_ports s))"
  "ingress_address (svc_ingress s) = '''' \<Longrightarrow> svc_type s = ''NodePort'' \<Longrightarrow> view w (ref_of (ONode n)) = Some (ONode n) \<Longrightarrow>
     ip \<in> set (internal_ips n) \<Longrightarrow> offers view w s ip (node_port (svc_ports s))"
proof -
  assume "ingress_address (svc_ingress s) \<noteq> ''''"
  then show "offers view w s (ingress_address (svc_ingress s)) (load_balancer_port (svc_ports s))"
    using ingress_offered port_offered by (auto simp: offers_def offers_ingress_def)
next
  assume "ingress_address (svc_ingress s) = ''''" "svc_type s = ''NodePort''" "view w (ref_of (ONode n)) = Some (ONode n)"
    "ip \<in> set (internal_ips n)"
  then show "offers view w s ip (node_port (svc_ports s))"
    using node_port_offered [of "svc_ports s"] unfolding offers_def offers_node_port_def
    by (intro disjI2 conjI) (auto simp: no_ingress internal_ips_def simp del: ref_of_simps)
qed

context kube_api
begin

lemma wp_find_principal_service [wp_intros]:
  assumes "\<And>name s w'. view w' = view w \<Longrightarrow> view w (Ref KService ns name) = Some (OService s) \<Longrightarrow> m_name (svc_meta s) = name \<Longrightarrow>
      name \<in> {ArgoCDAgentPrincipalServiceName, OpenshiftGitOpsAgentPrincipalServiceName} \<Longrightarrow> Q (Inr s) w'"
    and "\<And>e w'. view w' = view w \<Longrightarrow> Q (Inl e) w'"
  shows "wp (findArgoCDAgentPrincipalService C ns) Q w"
  unfolding findArgoCDAgentPrincipalService_def wp_bind
  by (rule wp_fetch) (auto simp: wp_simps intro!: wp_fetch assms)

lemma wp_getNodeInternalIP [wp_intros]:
  assumes "\<And>n ip w'. view w' = view w \<Longrightarrow> view w (ref_of (ONode n)) = Some (ONode n) \<Longrightarrow> ip \<in> set (internal_ips n) \<Longrightarrow> Q (Inr ip) w'"
    and "\<And>e w'. view w' = view w \<Longrightarrow> Q (Inl e) w'"
  shows "wp (getNodeInternalIP C) Q w"
  unfolding getNodeInternalIP_def wp_bindE wp_wrapE
proof (rule wp_list_as)
  fix xs w1
  assume v: "view w1 = view w" and
    xs: "\<And>x. x \<in> set xs \<longleftrightarrow> view w (ref_of x) = Some x \<and> kind_of x = KNode \<and>
       in_ns None (m_namespace (meta_of x)) \<and> labels_match [] (m_labels (meta_of x))"
  show "case wrap_result ''failed to list nodes'' (Inr (List.map_filter as_node xs)) of Inl e \<Rightarrow> Q (Inl e) w1
    | Inr nodes \<Rightarrow> wp (case concat (map internal_ips nodes) of
         ip # _ \<Rightarrow> ret (Inr ip) | [] \<Rightarrow> ret (Inl (Plain ''no node with InternalIP found''))) Q w1"
  proof (cases "concat (map internal_ips (List.map_filter as_node xs))")
    case Nil
    then have "concat (map internal_ips (List.map_filter as_node xs)) = []" .
    then show ?thesis using v unfolding wrap_result_simps sum.case by (simp only: list.case wp_simps assms(2))
  next
    case (Cons ip ips)
    then have "ip \<in> set (concat (map internal_ips (List.map_filter as_node xs)))" by simp
    then obtain n where "ONode n \<in> set xs" "ip \<in> set (internal_ips n)" by (auto simp: set_map_filter)
    with xs [of "ONode n"] v have "Q (Inr ip) w1" by (intro assms(1)) (auto simp del: ref_of_simps)
    with Cons show ?thesis by (simp add: wp_simps)
  qed
qed (simp add: assms(2))

text \<open>Where a discovered endpoint comes from.\<close>

lemma wp_discover:
  "wp (discoverServerAddressAndPort C ns) (\<lambda>r w'. view w' = view w \<and> (\<forall>addr port. r = Inr (addr, port) \<longrightarrow>
     (\<exists>s. principal_service view w ns s \<and> offers view w s addr port))) w"
  unfolding discoverServerAddressAndPort_def wp_bindE wp_wrapE
proof (rule wp_find_principal_service)
  fix name s w1 assume s: "view w1 = view w" "view w (Ref KService ns name) = Some (OService s)" "m_name (svc_meta s) = name"
    "name \<in> {ArgoCDAgentPrincipalServiceName, OpenshiftGitOpsAgentPrincipalServiceName}"
  then have "principal_service view w ns s" by (simp add: principal_service_def)
  with s(1) show "case wrap_result ''failed to find ArgoCD agent principal service'' (Inr s) of
       Inl e \<Rightarrow> view w1 = view w \<and> (\<forall>addr port. Inl e = Inr (addr, port) \<longrightarrow>
         (\<exists>s. principal_service view w ns s \<and> offers view w s addr port))
     | Inr service \<Rightarrow> wp (let serverAddress = ingress_address (svc_ingress service) in
       if serverAddress \<noteq> '''' then ret (Inr (serverAddress, load_balancer_port (svc_ports service)))
       else if svc_type service = ''NodePort'' then
         bindE (wrapE ''NodePort service found but failed to get node IP'' (getNodeInternalIP C)) (\<lambda>nodeIP.
           ret (Inr (nodeIP, node_port (svc_ports service))))
       else ret (Inl (Plain (''no external endpoint found for service '' @ m_name (svc_meta service) @ '' in namespace '' @
         ns @ '' (type='' @ svc_type service @ '', no LoadBalancer ingress)''))))
       (\<lambda>r w'. view w' = view w \<and> (\<forall>addr port. r = Inr (addr, port) \<longrightarrow>
         (\<exists>s. principal_service view w ns s \<and> offers view w s addr port))) w1"
    by (auto simp: wp_simps Let_def discovered_offered simp del: ref_of_simps intro!: wp_getNodeInternalIP exI [of _ s])
qed auto

end

section \<open>Properties\<close>

text \<open>
  C32: Discovery changes no object; a GitOpsCluster with both address and port keeps them, any
  other gets the endpoint of the principal Service, and only these two fields change. The endpoint
  is the first ingress with an address on the first secure port (named https, or 443 or 8443), or
  on 443 for a Service with no such port; for a NodePort Service without such an ingress it is an
  internal address of a node on the node port of the first secure port, or the first node port
  when there is none or that is 443, or 443 for a Service without node ports.
\<close>

theorem server_endpoint_discovery:
  assumes "kube_api C view" and "run_state (EnsureServerAddressAndPort C g ns) w = (r, w')"
  shows "view w' = view w \<and>
     (\<forall>updated g'. r = Inr (updated, g') \<longrightarrow>
        (if PrincipalServerAddress (ArgoCDAgentAddon (gc_spec g)) \<noteq> '''' \<and> PrincipalServerPort (ArgoCDAgentAddon (gc_spec g)) \<noteq> ''''
         then \<not> updated \<and> g' = g
         else updated \<and> (\<exists>s addr port. g' = set_server addr port g \<and> principal_service view w ns s \<and> offers view w s addr port)))"
    (is "?P r w'")
proof -
  have "wp (EnsureServerAddressAndPort C g ns) ?P w"
    unfolding EnsureServerAddressAndPort_def
    by (auto simp: wp_simps wrap_result_def split: sum.splits intro!: wp_mono [OF kube_api.wp_discover [OF assms(1)]]) blast+
  then show ?thesis using assms(2) by (rule wp_run)
qed

definition example_principal_service :: service where
  "example_principal_service = \<lparr>svc_meta = new_meta ''argocd-agent-principal'' ''argocd'', svc_type = ''NodePort'',
     svc_ports = [\<lparr>sp_name = ''metrics'', sp_port = 8080, sp_node_port = 30001\<rparr>, \<lparr>sp_name = ''https'', sp_port = 443, sp_node_port = 30443\<rparr>],
     svc_ingress = []\<rparr>"

definition example_node :: node where
  "example_node = \<lparr>node_meta = new_meta ''n1'' '''', node_addresses = [\<lparr>na_type = ''Hostname'', na_address = ''n1''\<rparr>,
     \<lparr>na_type = ''InternalIP'', na_address = ''10.0.0.1''\<rparr>]\<rparr>"

definition example_service_world :: mem where
  "example_service_world = mem_of [OService example_principal_service, ONode example_node]"

definition example_empty_gitops :: gitops_cluster where
  "example_empty_gitops = \<lparr>gc_meta = new_meta ''gitops'' ''argocd'',
     gc_spec = \<lparr>PlacementRefKind = ''Placement'', PlacementRefName = ''all'',
       ArgoCDAgentAddon = \<lparr>PrincipalServerAddress = ''10.9.9.9'', PrincipalServerPort = '''', Mode = '''', OperatorNamespace = '''',
         AgentNamespace = '''', ArgoCDCRManifestWork = None\<rparr>\<rparr>,
     gc_conditions = []\<rparr>"

theorem server_endpoint_discovery_witness:
  "\<exists>s. principal_service mem_view example_service_world ''argocd'' s \<and> offers mem_view example_service_world s ''10.0.0.1'' ''30443'' \<and>
     fst (run_state (EnsureServerAddressAndPort mem_client example_empty_gitops ''argocd'') example_service_world) =
       Inr (True, set_server ''10.0.0.1'' ''30443'' example_empty_gitops)"
proof -
  let ?w = example_service_world and ?g = example_empty_gitops
  let ?run = "run_state (EnsureServerAddressAndPort mem_client ?g ''argocd'') ?w"
  have ok: "fst ?run = Inr (True, set_server ''10.0.0.1'' ''30443'' ?g)" by code_simp
  have port: "PrincipalServerPort (ArgoCDAgentAddon (gc_spec ?g)) = ''''" by code_simp
  from server_endpoint_discovery [OF mem_kube_api, of ?g "''argocd''" ?w "fst ?run" "snd ?run"] ok port
  obtain s addr p where s: "set_server ''10.0.0.1'' ''30443'' ?g = set_server addr p ?g"
    "principal_service mem_view ?w ''argocd'' s" "offers mem_view ?w s addr p"
    unfolding prod.collapse by auto
  have "''10.0.0.1'' = addr \<and> ''30443'' = p"
    by (rule set_server_inject [THEN iffD1, OF s(1)])
  with s(2,3) ok show ?thesis by metis
qed

end
