(* ===== verification/Certificates.thy ===== *)
theory Certificates
  imports Server_Discovery
begin

text \<open>
  \<open>internal/controller/argocd_agent_certificates.go\<close>: the CA, the TLS certificates of the principal and of the
  resource proxy, their host names, and the restart of the principal when its certificate changed. Issuing and
  rotating certificates is the work of \<open>sdk-go/pkg/certrotation\<close>; its entry points, the construction of the clientset
  and the wait for the informer caches are the record \<open>cert_lib\<close>, with their documented effects in the
  locale \<open>cert_rotation\<close>. The clientset talks to the same API server as the client \<open>C\<close>.
\<close>

section \<open>Constants\<close>

definition ArgoCDAgentCASecretName :: string where
  "ArgoCDAgentCASecretName = ''argocd-agent-ca''"
definition ArgoCDAgentPrincipalTLSSecretName :: string where
  "ArgoCDAgentPrincipalTLSSecretName = ''argocd-agent-principal-tls''"
definition ArgoCDAgentResourceProxyTLSSecretName :: string where
  "ArgoCDAgentResourceProxyTLSSecretName = ''argocd-agent-resource-proxy-tls''"
definition ca_bundle_name :: string where
  "ca_bundle_name = ''argocd-agent-ca-bundle''"

text \<open>A \<open>time.Duration\<close> is a number of nanoseconds.\<close>

definition hour :: int where "hour = 3600000000000"
definition SigningCertValidity :: int where "SigningCertValidity = hour * 24 * 365"
definition TargetCertValidity :: int where "TargetCertValidity = hour * 24 * 30"

section \<open>The certificate library\<close>

record ('w, 'ca, 'b) cert_lib =
  rest_config :: bool
  new_for_config :: "unit result"
  sync_caches :: "('w, string option) state"
  ensure_signing :: "string \<Rightarrow> string \<Rightarrow> int \<Rightarrow> ('w, 'ca result) state"
  ensure_bundle :: "string \<Rightarrow> string \<Rightarrow> 'ca \<Rightarrow> ('w, 'b result) state"
  ensure_target :: "string \<Rightarrow> string \<Rightarrow> int \<Rightarrow> string list \<Rightarrow> 'ca \<Rightarrow> 'b \<Rightarrow> ('w, unit result) state"

text \<open>
  \<open>sync_caches\<close> names a cache that did not sync. The rotations keep one object each: the signing rotation the CA
  Secret, the bundle rotation the ConfigMap, the target rotation the TLS Secret.
\<close>

locale cert_rotation =
  fixes L :: "('w, 'ca, 'b) cert_lib" and view :: "'w \<Rightarrow> objref \<Rightarrow> kobj option"
  assumes sync_view: "run_state (sync_caches L) w = (x, w') \<Longrightarrow> view w' = view w"
    and signing_frame: "run_state (ensure_signing L ns name v) w = (ca, w') \<Longrightarrow> q \<noteq> Ref KSecret ns name \<Longrightarrow> view w' q = view w q"
    and signing_ok: "run_state (ensure_signing L ns name v) w = (Inr c, w') \<Longrightarrow>
        \<exists>s. view w' (Ref KSecret ns name) = Some (OSecret s) \<and> mget (sec_data s) ''tls.crt'' \<noteq> ''''"
    and bundle_frame: "run_state (ensure_bundle L ns name c) w = (b, w') \<Longrightarrow> q \<noteq> Ref KConfigMap ns name \<Longrightarrow> view w' q = view w q"
    and target_frame: "run_state (ensure_target L ns name v hs c bd) w = (r, w') \<Longrightarrow> q \<noteq> Ref KSecret ns name \<Longrightarrow> view w' q = view w q"
    and target_ok: "run_state (ensure_target L ns name v hs c bd) w = (Inr u, w') \<Longrightarrow>
        \<exists>s. view w' (Ref KSecret ns name) = Some (OSecret s) \<and> mget (sec_data s) ''tls.crt'' \<noteq> ''''"

definition getKubernetesClientset :: "('w, 'ca, 'b) cert_lib \<Rightarrow> unit result" where
  "getKubernetesClientset L =
     (if \<not> rest_config L then Inl (Plain ''failed to get REST config'')
      else wrap_result ''failed to create Kubernetes clientset'' (new_for_config L))"

definition setupInformers :: "('w, 'ca, 'b) cert_lib \<Rightarrow> ('w, unit result) state" where
  "setupInformers L = do {
     unsynced \<leftarrow> sync_caches L;
     (case unsynced of
        Some t \<Rightarrow> ret (Inl (Plain (''failed to sync informer cache for type '' @ t)))
      | None \<Rightarrow> ret (Inr ())) }"

definition loadCACertificate :: "('w, 'ca, 'b) cert_lib \<Rightarrow> string \<Rightarrow> ('w, ('ca \<times> 'b) result) state" where
  "loadCACertificate L namespace =
     bindE (wrapE ''failed to load signing cert key pair'' (ensure_signing L namespace ArgoCDAgentCASecretName SigningCertValidity)) (\<lambda>ca.
     bindE (wrapE ''failed to load CA bundle'' (ensure_bundle L namespace ca_bundle_name ca)) (\<lambda>bundle.
     ret (Inr (ca, bundle))))"

section \<open>The CA\<close>

definition EnsureArgoCDAgentCASecret :: "('w, 'ca, 'b) cert_lib \<Rightarrow> string \<Rightarrow> ('w, unit result) state" where
  "EnsureArgoCDAgentCASecret L namespace =
     bindE (ret (wrap_result ''failed to get Kubernetes clientset'' (getKubernetesClientset L))) (\<lambda>_.
     bindE (setupInformers L) (\<lambda>_.
     bindE (wrapE ''failed to ensure signing cert key pair'' (ensure_signing L namespace ArgoCDAgentCASecretName SigningCertValidity)) (\<lambda>ca.
     bindE (wrapE ''failed to ensure CA bundle'' (ensure_bundle L namespace ca_bundle_name ca)) (\<lambda>_.
     ret (Inr ())))))"

definition verifyCACertificateExists :: "'w client \<Rightarrow> string \<Rightarrow> ('w, unit result) state" where
  "verifyCACertificateExists C namespace = do {
     r \<leftarrow> fetch as_secret C (Ref KSecret namespace ArgoCDAgentCASecretName);
     (case r of
        Inl e \<Rightarrow> if is_not_found e
          then ret (Inl (Plain (''CA secret argocd-agent-ca not found in namespace '' @ namespace)))
          else ret (Inl e)
      | Inr _ \<Rightarrow> ret (Inr ())) }"

section \<open>Host names\<close>

fun dedupe_loop :: "string list \<Rightarrow> string set \<Rightarrow> string list \<Rightarrow> string list" where
  "dedupe_loop [] seen out = out"
| "dedupe_loop (h # rest) seen out =
     (if h \<in> seen then dedupe_loop rest seen out else dedupe_loop rest (insert h seen) (out @ [h]))"

definition dedupeHostNames :: "string list \<Rightarrow> string list" where
  "dedupeHostNames hosts = dedupe_loop hosts {} []"

definition appendServerAddress :: "string list \<Rightarrow> string \<Rightarrow> string list" where
  "appendServerAddress hostnames serverAddress =
     (if serverAddress \<noteq> '''' then hostnames @ [serverAddress] else hostnames)"

definition svc_dns :: "string \<Rightarrow> string \<Rightarrow> string list" where
  "svc_dns serviceName namespace =
     [serviceName @ ''.'' @ namespace @ ''.svc'', serviceName @ ''.'' @ namespace @ ''.svc.cluster.local'']"

definition ingress_hosts :: "lb_ingress list \<Rightarrow> string list" where
  "ingress_hosts ings = concat (map (\<lambda>ingress.
     (if ing_hostname ingress \<noteq> '''' then [ing_hostname ingress] else []) @
     (if ing_ip ingress \<noteq> '''' then [ing_ip ingress] else [])) ings)"

text \<open>A failure to list the nodes adds no addresses.\<close>

definition node_hosts :: "'w client \<Rightarrow> service \<Rightarrow> ('w, string list) state" where
  "node_hosts C service =
     (if svc_type service = ''NodePort'' then do {
        r \<leftarrow> list_as as_node C KNode None [];
        ret (case r of Inl _ \<Rightarrow> [] | Inr nodes \<Rightarrow> concat (map internal_ips nodes)) }
      else ret [])"

definition getPrincipalHostNames :: "'w client \<Rightarrow> string \<Rightarrow> string \<Rightarrow> ('w, string list) state" where
  "getPrincipalHostNames C namespace serverAddress = do {
     r \<leftarrow> findArgoCDAgentPrincipalService C namespace;
     (case r of
        Inl _ \<Rightarrow> ret (dedupeHostNames (appendServerAddress (svc_dns ''argocd-agent-principal'' namespace) serverAddress))
      | Inr service \<Rightarrow> do {
          nodes \<leftarrow> node_hosts C service;
          ret (dedupeHostNames (appendServerAddress
            (ingress_hosts (svc_ingress service) @ nodes @ svc_dns (m_name (svc_meta service)) namespace @
             [''localhost'', ''127.0.0.1'', ''::1'']) serverAddress)) }) }"

definition getResourceProxyHostNames :: "'w client \<Rightarrow> string \<Rightarrow> ('w, string list) state" where
  "getResourceProxyHostNames C namespace = do {
     r \<leftarrow> findArgoCDAgentPrincipalService C namespace;
     let serviceName = (case r of Inr service \<Rightarrow> m_name (svc_meta service) | Inl _ \<Rightarrow> ''argocd-agent-principal'');
     ret (svc_dns serviceName namespace @ [''localhost'', ''127.0.0.1'', ''::1'']) }"

section \<open>The principal certificate\<close>

text \<open>The bytes of \<open>tls.crt\<close>; an absent Secret has none, and \<open>bytes.Equal\<close> does not tell nil from empty.\<close>

definition getPrincipalTLSCertBytes :: "'w client \<Rightarrow> string \<Rightarrow> ('w, string result) state" where
  "getPrincipalTLSCertBytes C namespace = do {
     r \<leftarrow> fetch as_secret C (Ref KSecret namespace ArgoCDAgentPrincipalTLSSecretName);
     (case r of
        Inl e \<Rightarrow> if is_not_found e then ret (Inr '''') else ret (Inl e)
      | Inr secret \<Rightarrow> ret (Inr (mget (sec_data secret) ''tls.crt''))) }"

definition restarted_at :: string where
  "restarted_at = ''argocd-pull-integration/principal-cert-restartedAt''"

fun patch_deployments :: "'w client \<Rightarrow> string \<Rightarrow> json \<Rightarrow> string list \<Rightarrow> go_error option \<Rightarrow> ('w, unit result) state" where
  "patch_deployments C namespace patch [] lastErr =
     (case lastErr of
        Some e \<Rightarrow> ret (Inl e)
      | None \<Rightarrow> ret (Inl (Plain (''argocd-agent principal Deployment not found in namespace '' @ namespace))))"
| "patch_deployments C namespace patch (name # names) lastErr = do {
     r \<leftarrow> c_patch C (Ref KDeployment namespace name) patch;
     (case r of
        Inr _ \<Rightarrow> ret (Inr ())
      | Inl e \<Rightarrow> patch_deployments C namespace patch names
          (if \<not> is_not_found e
           then Some (Wrapped (''failed to patch Deployment '' @ namespace @ ''/'' @ name) e) else lastErr)) }"

definition restartPrincipalDeployment :: "'w client \<Rightarrow> string \<Rightarrow> ('w, unit result) state" where
  "restartPrincipalDeployment C namespace = do {
     now \<leftarrow> c_now_text C;
     patch_deployments C namespace (annotations_patch [(restarted_at, now)])
       [''argocd-agent-principal'', ''openshift-gitops-agent-principal''] None }"

text \<open>A failed read of either certificate defers the decision; a failed restart is only logged.\<close>

definition restart_if_changed :: "'w client \<Rightarrow> string \<Rightarrow> string result \<Rightarrow> string result \<Rightarrow> ('w, unit result) state" where
  "restart_if_changed C namespace certBefore certAfter =
     (case (certBefore, certAfter) of
        (Inr before, Inr after) \<Rightarrow>
          if before \<noteq> after then do { _ \<leftarrow> log_error (restartPrincipalDeployment C namespace); ret (Inr ()) }
          else ret (Inr ())
      | _ \<Rightarrow> ret (Inr ()))"

definition rotate_principal :: "'w client \<Rightarrow> ('w, 'ca, 'b) cert_lib \<Rightarrow> string \<Rightarrow> string list \<Rightarrow> 'ca \<times> 'b \<Rightarrow> ('w, unit result) state" where
  "rotate_principal C L namespace hostNames = (\<lambda>(signingCertKeyPair, caBundleCerts). do {
     certBefore \<leftarrow> getPrincipalTLSCertBytes C namespace;
     bindE (wrapE ''failed to ensure principal TLS certificate''
         (ensure_target L namespace ArgoCDAgentPrincipalTLSSecretName TargetCertValidity hostNames signingCertKeyPair caBundleCerts)) (\<lambda>_. do {
       certAfter \<leftarrow> getPrincipalTLSCertBytes C namespace;
       restart_if_changed C namespace certBefore certAfter }) })"

definition EnsurePrincipalCertificate :: "'w client \<Rightarrow> ('w, 'ca, 'b) cert_lib \<Rightarrow> string \<Rightarrow> string \<Rightarrow> ('w, unit result) state" where
  "EnsurePrincipalCertificate C L namespace serverAddress =
     bindE (wrapE ''CA certificate not found'' (verifyCACertificateExists C namespace)) (\<lambda>_.
     bindE (ret (wrap_result ''failed to get Kubernetes clientset'' (getKubernetesClientset L))) (\<lambda>_.
     bindE (setupInformers L) (\<lambda>_.
     bindE (wrapE ''failed to load CA certificate'' (loadCACertificate L namespace)) (\<lambda>ca. do {
       hostNames \<leftarrow> getPrincipalHostNames C namespace serverAddress;
       rotate_principal C L namespace hostNames ca }))))"

definition EnsureResourceProxyCertificate :: "'w client \<Rightarrow> ('w, 'ca, 'b) cert_lib \<Rightarrow> string \<Rightarrow> ('w, unit result) state" where
  "EnsureResourceProxyCertificate C L namespace =
     bindE (wrapE ''CA certificate not found'' (verifyCACertificateExists C namespace)) (\<lambda>_.
     bindE (ret (wrap_result ''failed to get Kubernetes clientset'' (getKubernetesClientset L))) (\<lambda>_.
     bindE (setupInformers L) (\<lambda>_.
     bindE (wrapE ''failed to load CA certificate'' (loadCACertificate L namespace)) (\<lambda>(ca, bundle). do {
       hostNames \<leftarrow> getResourceProxyHostNames C namespace;
       wrapE ''failed to ensure resource proxy TLS certificate''
         (ensure_target L namespace ArgoCDAgentResourceProxyTLSSecretName TargetCertValidity hostNames ca bundle) }))))"

section \<open>An instance of the library\<close>

definition issued_secret :: "string \<Rightarrow> string \<Rightarrow> kobj" where
  "issued_secret ns name = OSecret \<lparr>sec_meta = new_meta name ns, sec_type = ''kubernetes.io/tls'',
     sec_data = [(''tls.crt'', ''CERT''), (''tls.key'', ''KEY'')], sec_string_data = []\<rparr>"

definition has_cert :: "kobj option \<Rightarrow> bool" where
  "has_cert x = (case x of Some (OSecret s) \<Rightarrow> mget (sec_data s) ''tls.crt'' \<noteq> '''' | _ \<Rightarrow> False)"

definition mem_issue :: "string \<Rightarrow> string \<Rightarrow> (mem, unit result) state" where
  "mem_issue ns name = State (\<lambda>w.
     if name = '''' then (Inl (Plain ''name is required''), w)
     else if has_cert (find_obj (Ref KSecret ns name) (mem_objs w)) then (Inr (), w)
     else (Inr (), w\<lparr>mem_objs := issued_secret ns name # remove_ref (Ref KSecret ns name) (mem_objs w)\<rparr>))"

definition mem_certs :: "(mem, unit, unit) cert_lib" where
  "mem_certs = \<lparr>rest_config = True, new_for_config = Inr (), sync_caches = ret None,
     ensure_signing = (\<lambda>ns name _. mem_issue ns name), ensure_bundle = (\<lambda>_ _ _. ret (Inr ())),
     ensure_target = (\<lambda>ns name _ _ _ _. mem_issue ns name)\<rparr>"

lemma mem_issue_frame:
  "run_state (mem_issue ns name) w = (r, w') \<Longrightarrow> q \<noteq> Ref KSecret ns name \<Longrightarrow> mem_view w' q = mem_view w q"
  by (auto simp: mem_issue_def mem_view_def find_obj_Cons find_obj_remove issued_secret_def split: if_splits)

lemma mem_issue_ok:
  assumes "run_state (mem_issue ns name) w = (Inr u, w')"
  shows "\<exists>s. mem_view w' (Ref KSecret ns name) = Some (OSecret s) \<and> mget (sec_data s) ''tls.crt'' \<noteq> ''''"
proof (cases "has_cert (find_obj (Ref KSecret ns name) (mem_objs w))")
  case True
  with assms show ?thesis
    by (auto simp: mem_issue_def mem_view_def has_cert_def split: if_splits option.splits kobj.splits)
next
  case False
  with assms show ?thesis
    by (auto simp: mem_issue_def mem_view_def find_obj_Cons issued_secret_def mget_def split: if_splits)
qed

interpretation mem_certs: cert_rotation mem_certs mem_view
  by unfold_locales (auto simp: mem_certs_def dest: mem_issue_frame mem_issue_ok)

lemma mem_cert_rotation: "cert_rotation mem_certs mem_view"
  by (rule mem_certs.cert_rotation_axioms)

section \<open>Lemmas on host names\<close>

lemma dedupe_loop_spec:
  "distinct out \<Longrightarrow> seen = set out \<Longrightarrow>
     distinct (dedupe_loop xs seen out) \<and> set (dedupe_loop xs seen out) = set out \<union> set xs \<and>
     (\<exists>added. dedupe_loop xs seen out = out @ added)"
proof (induction xs arbitrary: seen out)
  case (Cons x xs)
  show ?case
  proof (cases "x \<in> seen")
    case True
    with Cons show ?thesis by auto
  next
    case False
    with Cons.prems Cons.IH [of "out @ [x]" "insert x seen"] show ?thesis by auto
  qed
qed simp

lemma dedupe_distinct: "distinct (dedupeHostNames xs)"
  and dedupe_set [simp]: "set (dedupeHostNames xs) = set xs"
  using dedupe_loop_spec [of "[]" "{}" xs] by (simp_all add: dedupeHostNames_def)

lemma dedupe_hd: "xs \<noteq> [] \<Longrightarrow> hd (dedupeHostNames xs) = hd xs"
  using dedupe_loop_spec [of "[hd xs]" "{hd xs}" "tl xs"] by (cases xs) (auto simp: dedupeHostNames_def)

lemma dedupe_Nil_iff [simp]: "dedupeHostNames xs = [] \<longleftrightarrow> xs = []"
  by (metis dedupe_set set_empty)

lemma append_server_set: "set (appendServerAddress hs a) = set hs \<union> (if a = '''' then {} else {a})"
  by (simp add: appendServerAddress_def)

lemma append_server_hd: "hs \<noteq> [] \<Longrightarrow> hd (appendServerAddress hs a) = hd hs"
  by (simp add: appendServerAddress_def)

lemma append_server_ne: "hs \<noteq> [] \<Longrightarrow> appendServerAddress hs a \<noteq> []"
  by (simp add: appendServerAddress_def)

lemma ingress_address_host: "ingress_address ings \<noteq> '''' \<Longrightarrow> ingress_address ings \<in> set (ingress_hosts ings)"
  by (induction ings) (auto simp: ingress_hosts_def)

text \<open>The names that come from the cluster alone.\<close>

definition service_hosts :: "('w \<Rightarrow> objref \<Rightarrow> kobj option) \<Rightarrow> 'w \<Rightarrow> string \<Rightarrow> string list \<Rightarrow> bool" where
  "service_hosts view w ns hs = (hs = svc_dns ''argocd-agent-principal'' ns \<or>
     (\<exists>s ips. principal_service view w ns s \<and>
        (\<forall>ip \<in> set ips. \<exists>n. view w (ref_of (ONode n)) = Some (ONode n) \<and> ip \<in> set (internal_ips n)) \<and>
        hs = ingress_hosts (svc_ingress s) @ ips @ svc_dns (m_name (svc_meta s)) ns @ [''localhost'', ''127.0.0.1'', ''::1'']))"

lemma service_hosts_ne: "service_hosts view w ns hs \<Longrightarrow> hs \<noteq> []"
  by (auto simp: service_hosts_def svc_dns_def)

context kube_api
begin

lemma wp_node_hosts:
  "wp (node_hosts C s) (\<lambda>ips w'. view w' = view w \<and>
     (\<forall>ip \<in> set ips. \<exists>n. view w (ref_of (ONode n)) = Some (ONode n) \<and> ip \<in> set (internal_ips n))) w"
proof -
  let ?Q = "\<lambda>ips w'. view w' = view w \<and>
     (\<forall>ip \<in> set ips. \<exists>n. view w (ref_of (ONode n)) = Some (ONode n) \<and> ip \<in> set (internal_ips n))"
  have "wp (list_as as_node C KNode None []) (\<lambda>r w'. ?Q (case r of Inl _ \<Rightarrow> [] | Inr nodes \<Rightarrow> concat (map internal_ips nodes)) w') w"
  proof (rule wp_list_as)
    fix xs w1 assume v: "view w1 = view w" and
      xs: "\<And>x. x \<in> set xs \<longleftrightarrow> view w (ref_of x) = Some x \<and> kind_of x = KNode \<and>
         in_ns None (m_namespace (meta_of x)) \<and> labels_match [] (m_labels (meta_of x))"
    show "?Q (case Inr (List.map_filter as_node xs) of Inl _ \<Rightarrow> [] | Inr nodes \<Rightarrow> concat (map internal_ips nodes)) w1"
      using v xs by (auto simp: set_map_filter simp del: ref_of_simps)
  qed simp
  then show ?thesis unfolding node_hosts_def by (simp add: wp_simps del: ref_of_simps)
qed

lemma wp_principal_hosts:
  "wp (getPrincipalHostNames C ns a) (\<lambda>hs w'. view w' = view w \<and>
     (\<exists>base. service_hosts view w ns base \<and> hs = dedupeHostNames (appendServerAddress base a))) w"
  unfolding getPrincipalHostNames_def wp_bind
proof (rule wp_find_principal_service)
  fix name s w1 assume s: "view w1 = view w" "view w (Ref KService ns name) = Some (OService s)" "m_name (svc_meta s) = name"
    "name \<in> {ArgoCDAgentPrincipalServiceName, OpenshiftGitOpsAgentPrincipalServiceName}"
  then have "principal_service view w ns s" by (simp add: principal_service_def)
  with s(1) show "wp (case Inr s of Inl _ \<Rightarrow> ret (dedupeHostNames (appendServerAddress (svc_dns ''argocd-agent-principal'' ns) a))
      | Inr service \<Rightarrow> do {
          nodes \<leftarrow> node_hosts C service;
          ret (dedupeHostNames (appendServerAddress
            (ingress_hosts (svc_ingress service) @ nodes @ svc_dns (m_name (svc_meta service)) ns @
             [''localhost'', ''127.0.0.1'', ''::1'']) a)) })
      (\<lambda>hs w'. view w' = view w \<and> (\<exists>base. service_hosts view w ns base \<and> hs = dedupeHostNames (appendServerAddress base a))) w1"
    unfolding sum.case wp_bind wp_ret
    by (intro wp_mono [OF wp_node_hosts]) (auto simp: service_hosts_def simp del: ref_of_simps)
next
  fix e w1 assume "view w1 = view w"
  then show "wp (case Inl e of Inl _ \<Rightarrow> ret (dedupeHostNames (appendServerAddress (svc_dns ''argocd-agent-principal'' ns) a))
      | Inr service \<Rightarrow> do {
          nodes \<leftarrow> node_hosts C service;
          ret (dedupeHostNames (appendServerAddress
            (ingress_hosts (svc_ingress service) @ nodes @ svc_dns (m_name (svc_meta service)) ns @
             [''localhost'', ''127.0.0.1'', ''::1'']) a)) })
      (\<lambda>hs w'. view w' = view w \<and> (\<exists>base. service_hosts view w ns base \<and> hs = dedupeHostNames (appendServerAddress base a))) w1"
    unfolding sum.case wp_ret by (auto simp: service_hosts_def simp del: ref_of_simps)
qed

end

text \<open>
  The host names of the principal certificate are those of the principal Service (or the
  default names) followed by the advertised server address, without duplicates; the first name,
  which becomes the subject of the certificate, is that of the Service, never the advertised
  address by itself.
\<close>

theorem principal_certificate_names:
  assumes "kube_api C view" and "run_state (getPrincipalHostNames C ns serverAddress) w = (hs, w')"
  shows "view w' = view w \<and> distinct hs \<and>
     (\<exists>base. service_hosts view w ns base \<and> hd hs = hd base \<and>
        set hs = set base \<union> (if serverAddress = '''' then {} else {serverAddress}))"
proof -
  from wp_run [OF kube_api.wp_principal_hosts [OF assms(1)] assms(2)] obtain base where
    base: "view w' = view w" "service_hosts view w ns base" "hs = dedupeHostNames (appendServerAddress base serverAddress)"
    by blast
  have ne: "base \<noteq> []" using base(2) by (rule service_hosts_ne)
  have "hd hs = hd base"
    unfolding base(3) using dedupe_hd [OF append_server_ne [OF ne]] append_server_hd [OF ne] by simp
  with base show ?thesis by (auto simp: dedupe_distinct append_server_set)
qed

theorem principal_certificate_names_witness:
  "\<exists>base. service_hosts mem_view example_service_world ''argocd'' base \<and>
     hd (fst (run_state (getPrincipalHostNames mem_client ''argocd'' ''lb.example.com'') example_service_world)) = hd base"
  using principal_certificate_names [OF mem_kube_api, of "''argocd''" "''lb.example.com''" example_service_world
      "fst (run_state (getPrincipalHostNames mem_client ''argocd'' ''lb.example.com'') example_service_world)"
      "snd (run_state (getPrincipalHostNames mem_client ''argocd'' ''lb.example.com'') example_service_world)"]
  unfolding prod.collapse by blast

section \<open>Rotation and restart\<close>

context cert_rotation
begin

lemma wp_setup: "(\<And>r w'. view w' = view w \<Longrightarrow> Q r w') \<Longrightarrow> wp (setupInformers L) Q w"
  unfolding setupInformers_def wp_bind
  by (rule wpI) (auto simp: wp_simps dest!: sync_view split: option.splits)

lemma wp_signing:
  assumes "\<And>c w'. (\<And>q. q \<noteq> Ref KSecret ns name \<Longrightarrow> view w' q = view w q) \<Longrightarrow>
      \<exists>s. view w' (Ref KSecret ns name) = Some (OSecret s) \<and> mget (sec_data s) ''tls.crt'' \<noteq> '''' \<Longrightarrow> Q (Inr c) w'"
    and "\<And>e w'. (\<And>q. q \<noteq> Ref KSecret ns name \<Longrightarrow> view w' q = view w q) \<Longrightarrow> Q (Inl e) w'"
  shows "wp (ensure_signing L ns name v) Q w"
proof (rule wpI)
  fix a w' assume run: "run_state (ensure_signing L ns name v) w = (a, w')"
  show "Q a w'"
    using assms signing_frame [OF run] signing_ok [of ns name v w _ w'] run by (cases a) auto
qed

lemma wp_bundle:
  assumes "\<And>r w'. (\<And>q. q \<noteq> Ref KConfigMap ns name \<Longrightarrow> view w' q = view w q) \<Longrightarrow> Q r w'"
  shows "wp (ensure_bundle L ns name c) Q w"
  by (rule wpI) (auto intro: assms dest: bundle_frame)

lemma wp_target:
  assumes "\<And>r w'. (\<And>q. q \<noteq> Ref KSecret ns name \<Longrightarrow> view w' q = view w q) \<Longrightarrow> Q r w'"
  shows "wp (ensure_target L ns name v hs c b) Q w"
  by (rule wpI) (auto intro: assms dest: target_frame)

lemma wp_loadCA:
  "wp (loadCACertificate L ns) (\<lambda>r w'. \<forall>q. q \<notin> {Ref KSecret ns ArgoCDAgentCASecretName, Ref KConfigMap ns ca_bundle_name} \<longrightarrow>
     view w' q = view w q) w"
  unfolding loadCACertificate_def wp_bindE wp_wrapE
  by (rule wp_signing) (auto simp: wp_simps wrap_result_def intro!: wp_bundle split: sum.splits)

end

abbreviation principal_tls :: "string \<Rightarrow> objref" where
  "principal_tls ns \<equiv> Ref KSecret ns ArgoCDAgentPrincipalTLSSecretName"

abbreviation principal_deployments :: "string \<Rightarrow> objref set" where
  "principal_deployments ns \<equiv> Ref KDeployment ns ` {''argocd-agent-principal'', ''openshift-gitops-agent-principal''}"

definition stored_cert :: "('w \<Rightarrow> objref \<Rightarrow> kobj option) \<Rightarrow> 'w \<Rightarrow> string \<Rightarrow> string" where
  "stored_cert view w ns = (case view w (principal_tls ns) of Some (OSecret s) \<Rightarrow> mget (sec_data s) ''tls.crt'' | _ \<Rightarrow> '''')"

lemma stored_cert_cong: "view w' (principal_tls ns) = view w (principal_tls ns) \<Longrightarrow> stored_cert view w' ns = stored_cert view w ns"
  by (simp add: stored_cert_def)

text \<open>A Deployment whose pod template carries the restart annotation.\<close>

definition restarted :: "kobj \<Rightarrow> bool" where
  "restarted x = (\<exists>d t. x = ODeployment d \<and> map_of (dep_template_annotations d) restarted_at = Some t)"

context kube_api
begin

lemma wp_cert_bytes:
  "wp (getPrincipalTLSCertBytes C ns) (\<lambda>r w'. view w' = view w \<and> (\<forall>b. r = Inr b \<longrightarrow> b = stored_cert view w ns)) w"
  unfolding getPrincipalTLSCertBytes_def wp_bind
  by (rule wp_fetch) (auto simp: wp_simps stored_cert_def)

lemma wp_patch_deployments:
  "wp (patch_deployments C ns (annotations_patch [(restarted_at, t)]) names err) (\<lambda>r w'.
     (\<forall>q. q \<notin> Ref KDeployment ns ` set names \<longrightarrow> view w' q = view w q) \<and>
     (r = Inr () \<longrightarrow> (\<exists>name \<in> set names. \<exists>x. view w' (Ref KDeployment ns name) = Some x \<and>
        (kind_of x = KDeployment \<longrightarrow> restarted x)))) w"
proof (induction names arbitrary: err w)
  case Nil
  then show ?case by (auto simp: wp_simps split: option.splits)
next
  case (Cons name names)
  let ?r = "Ref KDeployment ns name"
  show ?case
    unfolding patch_deployments.simps wp_bind
  proof (rule wp_patch)
    fix w1 assume frame: "\<And>r'. r' \<noteq> ?r \<Longrightarrow> view w1 r' = view w r'" and some: "view w ?r \<noteq> None" and
      patched: "\<And>d kvs. view w ?r = Some (ODeployment d) \<Longrightarrow> annotations_patch [(restarted_at, t)] = annotations_patch kvs \<Longrightarrow>
        \<exists>y. view w1 ?r = Some y \<and> same_content (ODeployment (patch_annotations kvs d)) y"
    from some obtain x where x: "view w ?r = Some x" by auto
    then obtain d where d: "x = ODeployment d" using kind_of_view [OF x] by (cases x) auto
    from patched [OF x [unfolded d] refl] obtain y where y: "view w1 ?r = Some y"
      "same_content (ODeployment (patch_annotations [(restarted_at, t)] d)) y" by blast
    then have "restarted y"
      by (auto simp: same_content_def restarted_def patch_annotations_def put_all_def gomap_simps)
    with y frame show "wp (case Inr () of Inr _ \<Rightarrow> ret (Inr ())
       | Inl e \<Rightarrow> patch_deployments C ns (annotations_patch [(restarted_at, t)]) names
          (if \<not> is_not_found e then Some (Wrapped (''failed to patch Deployment '' @ ns @ ''/'' @ name) e) else err))
       (\<lambda>r w'. (\<forall>q. q \<notin> Ref KDeployment ns ` set (name # names) \<longrightarrow> view w' q = view w q) \<and>
         (r = Inr () \<longrightarrow> (\<exists>name \<in> set (name # names). \<exists>x. view w' (Ref KDeployment ns name) = Some x \<and>
            (kind_of x = KDeployment \<longrightarrow> restarted x)))) w1"
      by (simp add: wp_simps)
  next
    fix e w1 assume frame: "\<And>r'. r' \<noteq> ?r \<Longrightarrow> view w1 r' = view w r'"
    then show "wp (case Inl e of Inr _ \<Rightarrow> ret (Inr ())
       | Inl e \<Rightarrow> patch_deployments C ns (annotations_patch [(restarted_at, t)]) names
          (if \<not> is_not_found e then Some (Wrapped (''failed to patch Deployment '' @ ns @ ''/'' @ name) e) else err))
       (\<lambda>r w'. (\<forall>q. q \<notin> Ref KDeployment ns ` set (name # names) \<longrightarrow> view w' q = view w q) \<and>
         (r = Inr () \<longrightarrow> (\<exists>name \<in> set (name # names). \<exists>x. view w' (Ref KDeployment ns name) = Some x \<and>
            (kind_of x = KDeployment \<longrightarrow> restarted x)))) w1"
      unfolding sum.case by (intro wp_mono [OF Cons.IH]) auto
  qed
qed

lemma wp_restart:
  "wp (restartPrincipalDeployment C ns) (\<lambda>r w'.
     (\<forall>q. q \<notin> principal_deployments ns \<longrightarrow> view w' q = view w q) \<and>
     (r = Inr () \<longrightarrow> (\<exists>name \<in> {''argocd-agent-principal'', ''openshift-gitops-agent-principal''}.
        \<exists>x. view w' (Ref KDeployment ns name) = Some x \<and> restarted x))) w"
  unfolding restartPrincipalDeployment_def wp_bind
proof (rule wp_now_text)
  fix t w1 assume v: "view w1 = view w"
  show "wp (patch_deployments C ns (annotations_patch [(restarted_at, t)])
       [''argocd-agent-principal'', ''openshift-gitops-agent-principal''] None) (\<lambda>r w'.
     (\<forall>q. q \<notin> principal_deployments ns \<longrightarrow> view w' q = view w q) \<and>
     (r = Inr () \<longrightarrow> (\<exists>name \<in> {''argocd-agent-principal'', ''openshift-gitops-agent-principal''}.
        \<exists>x. view w' (Ref KDeployment ns name) = Some x \<and> restarted x))) w1"
    by (rule wp_mono [OF wp_patch_deployments]) (use v in \<open>auto dest: kind_of_view\<close>)
qed

end

text \<open>The objects the issuing of the principal certificate may touch, besides the Deployments.\<close>

definition certificate_objects :: "string \<Rightarrow> objref set" where
  "certificate_objects ns = {Ref KSecret ns ArgoCDAgentCASecretName, Ref KConfigMap ns ca_bundle_name, principal_tls ns}"

lemma certificate_names_distinct: "ArgoCDAgentPrincipalTLSSecretName \<noteq> ArgoCDAgentCASecretName"
  by (simp add: ArgoCDAgentPrincipalTLSSecretName_def ArgoCDAgentCASecretName_def)

definition rotation_post :: "('w \<Rightarrow> objref \<Rightarrow> kobj option) \<Rightarrow> string \<Rightarrow> 'w \<Rightarrow> 'w \<Rightarrow> bool" where
  "rotation_post view ns w w' = (
     (\<forall>q. q \<notin> certificate_objects ns \<union> principal_deployments ns \<longrightarrow> view w' q = view w q) \<and>
     (stored_cert view w' ns = stored_cert view w ns \<longrightarrow> (\<forall>q \<in> principal_deployments ns. view w' q = view w q)))"

lemma rotation_post_frame:
  "(\<And>q. q \<notin> certificate_objects ns \<Longrightarrow> view w' q = view w q) \<Longrightarrow> rotation_post view ns w w'"
  unfolding rotation_post_def certificate_objects_def by auto

lemma wp_rotate_principal:
  assumes "kube_api C view" "cert_rotation L view"
  shows "wp (rotate_principal C L ns hs ca) (\<lambda>r w'.
     (\<forall>q. q \<noteq> principal_tls ns \<and> q \<notin> principal_deployments ns \<longrightarrow> view w' q = view w q) \<and>
     (stored_cert view w' ns = stored_cert view w ns \<longrightarrow> (\<forall>q \<in> principal_deployments ns. view w' q = view w q))) w"
    (is "wp _ ?Q w")
proof -
  obtain ca1 b1 where ca: "ca = (ca1, b1)" by (cases ca)
  have restart: "wp (log_error (restartPrincipalDeployment C ns)) (\<lambda>_ w'. wp (ret (Inr ())) ?Q w') w3"
    if w3: "\<And>q. q \<noteq> principal_tls ns \<Longrightarrow> view w3 q = view w q" and differ: "stored_cert view w ns \<noteq> stored_cert view w3 ns" for w3
    unfolding wp_log_error wp_ret
  proof (rule wp_mono [OF kube_api.wp_restart [OF assms(1)]], elim conjE)
    fix r w4 assume frame: "\<forall>q. q \<notin> principal_deployments ns \<longrightarrow> view w4 q = view w3 q"
    then have "stored_cert view w4 ns = stored_cert view w3 ns" by (intro stored_cert_cong) auto
    with frame w3 differ show "?Q (Inr ()) w4" by simp
  qed
  show ?thesis
    unfolding rotate_principal_def ca prod.case wp_bind wp_bindE wp_wrapE
  proof (rule wp_mono [OF kube_api.wp_cert_bytes [OF assms(1)]], elim conjE)
    fix before :: "string result" and w1
    assume w1: "view w1 = view w" and b: "\<forall>b. before = Inr b \<longrightarrow> b = stored_cert view w ns"
    show "wp (ensure_target L ns ArgoCDAgentPrincipalTLSSecretName TargetCertValidity hs ca1 b1) (\<lambda>r w.
        case wrap_result ''failed to ensure principal TLS certificate'' r of Inl e \<Rightarrow> ?Q (Inl e) w
        | Inr _ \<Rightarrow> wp (getPrincipalTLSCertBytes C ns) (\<lambda>certAfter. wp (restart_if_changed C ns before certAfter) ?Q) w) w1"
    proof (rule cert_rotation.wp_target [OF assms(2)])
      fix r :: "unit result" and w2 assume w2: "\<And>q. q \<noteq> principal_tls ns \<Longrightarrow> view w2 q = view w1 q"
      then have quiet: "?Q x w2" for x using w1 by auto
      have "wp (getPrincipalTLSCertBytes C ns) (\<lambda>certAfter. wp (restart_if_changed C ns before certAfter) ?Q) w2"
      proof (rule wp_mono [OF kube_api.wp_cert_bytes [OF assms(1)]], elim conjE)
        fix certAfter :: "string result" and w3
        assume w3: "view w3 = view w2" and a: "\<forall>b. certAfter = Inr b \<longrightarrow> b = stored_cert view w2 ns"
        from w3 have "stored_cert view w3 ns = stored_cert view w2 ns" by (intro stored_cert_cong) simp
        with quiet w3 have q3: "?Q x w3" for x by simp
        have keep: "view w3 q = view w q" if "q \<noteq> principal_tls ns" for q using w1 w2 w3 that by simp
        show "wp (restart_if_changed C ns before certAfter) ?Q w3"
        proof (cases "\<exists>x y. before = Inr x \<and> certAfter = Inr y \<and> x \<noteq> y")
          case True
          then obtain x y where xy: "before = Inr x" "certAfter = Inr y" "x \<noteq> y" by blast
          with a b \<open>stored_cert view w3 ns = stored_cert view w2 ns\<close> have "stored_cert view w ns \<noteq> stored_cert view w3 ns"
            by simp
          from restart [OF keep this] xy show ?thesis by (simp add: restart_if_changed_def wp_bind)
        next
          case False
          then show ?thesis using q3 by (auto simp: restart_if_changed_def wp_ret split: sum.splits)
        qed
      qed
      with quiet show "case wrap_result ''failed to ensure principal TLS certificate'' r of Inl e \<Rightarrow> ?Q (Inl e) w2
        | Inr _ \<Rightarrow> wp (getPrincipalTLSCertBytes C ns) (\<lambda>certAfter. wp (restart_if_changed C ns before certAfter) ?Q) w2"
        by (cases r) simp_all
    qed
  qed
qed

lemma wp_EnsurePrincipalCertificate:
  assumes "kube_api C view" "cert_rotation L view"
  shows "wp (EnsurePrincipalCertificate C L ns a) (\<lambda>r w'. rotation_post view ns w w') w" (is "wp _ ?Q w")
  unfolding EnsurePrincipalCertificate_def
proof (rule wp_bindE_rule [where P = "\<lambda>_ w1. view w1 = view w"])
  show "wp (wrapE ''CA certificate not found'' (verifyCACertificateExists C ns)) (\<lambda>_ w1. view w1 = view w) w"
    unfolding wp_wrapE verifyCACertificateExists_def wp_bind
    by (rule kube_api.wp_fetch [OF assms(1)]) (simp_all add: wp_simps)
next
  fix x :: unit and w1 assume w1: "view w1 = view w"
  show "wp (bindE (ret (wrap_result ''failed to get Kubernetes clientset'' (getKubernetesClientset L))) (\<lambda>_.
     bindE (setupInformers L) (\<lambda>_.
     bindE (wrapE ''failed to load CA certificate'' (loadCACertificate L ns)) (\<lambda>ca. do {
       hostNames \<leftarrow> getPrincipalHostNames C ns a;
       rotate_principal C L ns hostNames ca })))) ?Q w1"
  proof (rule wp_bindE_rule [where P = "\<lambda>_ w2. view w2 = view w"])
    fix y :: unit and w2 assume w2: "view w2 = view w"
    show "wp (bindE (setupInformers L) (\<lambda>_.
     bindE (wrapE ''failed to load CA certificate'' (loadCACertificate L ns)) (\<lambda>ca. do {
       hostNames \<leftarrow> getPrincipalHostNames C ns a;
       rotate_principal C L ns hostNames ca }))) ?Q w2"
    proof (rule wp_bindE_rule [where P = "\<lambda>_ w3. view w3 = view w"])
      show "wp (setupInformers L) (\<lambda>_ w3. view w3 = view w) w2"
        by (rule cert_rotation.wp_setup [OF assms(2)]) (simp add: w2)
    next
      fix z :: unit and w3 assume w3: "view w3 = view w"
      let ?P = "\<lambda>_ w4. \<forall>q. q \<notin> {Ref KSecret ns ArgoCDAgentCASecretName, Ref KConfigMap ns ca_bundle_name} \<longrightarrow> view w4 q = view w q"
      show "wp (bindE (wrapE ''failed to load CA certificate'' (loadCACertificate L ns)) (\<lambda>ca. do {
         hostNames \<leftarrow> getPrincipalHostNames C ns a;
         rotate_principal C L ns hostNames ca })) ?Q w3"
      proof (rule wp_bindE_rule [where P = ?P])
        show "wp (wrapE ''failed to load CA certificate'' (loadCACertificate L ns)) ?P w3"
          unfolding wp_wrapE w3 [symmetric] by (rule cert_rotation.wp_loadCA [OF assms(2)])
      next
        fix e w4 assume "?P (Inl e) w4"
        then show "?Q (Inl e) w4" by (intro rotation_post_frame) (auto simp: certificate_objects_def)
      next
        fix ca w4 assume w4: "?P (Inr ca) w4"
        then have cert4: "stored_cert view w4 ns = stored_cert view w ns"
          by (intro stored_cert_cong) (simp add: certificate_names_distinct)
        show "wp (do { hostNames \<leftarrow> getPrincipalHostNames C ns a; rotate_principal C L ns hostNames ca }) ?Q w4"
          unfolding wp_bind
        proof (rule wp_mono [OF kube_api.wp_principal_hosts [OF assms(1)]], elim conjE)
          fix hs w5 assume w5: "view w5 = view w4"
          then have cert5: "stored_cert view w5 ns = stored_cert view w ns"
            using cert4 stored_cert_cong [of view w5 ns w4] by simp
          show "wp (rotate_principal C L ns hs ca) ?Q w5"
            by (rule wp_mono [OF wp_rotate_principal [OF assms]])
              (use w4 w5 cert5 in \<open>auto simp: rotation_post_def certificate_objects_def\<close>)
        qed
      qed
    qed (simp add: rotation_post_def)
  qed (simp_all add: wp_ret w1 rotation_post_def)
qed (simp add: rotation_post_def)

text \<open>
  C19: EnsurePrincipalCertificate touches the certificate objects and the two principal
  Deployments only, and patches a Deployment only when the bytes of the certificate changed in
  this run.
\<close>

theorem principal_restarted_only_for_new_certificate:
  assumes "kube_api C view" and "cert_rotation L view"
    and "run_state (EnsurePrincipalCertificate C L ns serverAddress) w = (r, w')"
  shows "(\<forall>q. q \<notin> certificate_objects ns \<union> principal_deployments ns \<longrightarrow> view w' q = view w q) \<and>
     (stored_cert view w' ns = stored_cert view w ns \<longrightarrow> (\<forall>q \<in> principal_deployments ns. view w' q = view w q))"
  using wp_run [OF wp_EnsurePrincipalCertificate [OF assms(1,2)] assms(3)] by (simp add: rotation_post_def)

definition example_principal_deployment :: deployment where
  "example_principal_deployment = \<lparr>dep_meta = new_meta ''argocd-agent-principal'' ''argocd'', dep_template_annotations = []\<rparr>"

definition example_rotated_world :: mem where
  "example_rotated_world = mem_of [ODeployment example_principal_deployment, issued_secret ''argocd'' ArgoCDAgentCASecretName,
     issued_secret ''argocd'' ArgoCDAgentPrincipalTLSSecretName]"

theorem principal_restarted_only_for_new_certificate_witness:
  "mem_view (snd (run_state (EnsurePrincipalCertificate mem_client mem_certs ''argocd'' ''lb.example.com'') example_rotated_world))
     (Ref KDeployment ''argocd'' ''argocd-agent-principal'') = Some (ODeployment example_principal_deployment)"
proof -
  let ?run = "run_state (EnsurePrincipalCertificate mem_client mem_certs ''argocd'' ''lb.example.com'') example_rotated_world"
  have same: "stored_cert mem_view (snd ?run) ''argocd'' = stored_cert mem_view example_rotated_world ''argocd''" by code_simp
  have dep: "mem_view example_rotated_world (Ref KDeployment ''argocd'' ''argocd-agent-principal'') =
      Some (ODeployment example_principal_deployment)" by code_simp
  from principal_restarted_only_for_new_certificate [OF mem_kube_api, OF mem_cert_rotation, of "''argocd''" "''lb.example.com''"
      example_rotated_world "fst ?run" "snd ?run"] same dep
  show ?thesis unfolding prod.collapse by auto
qed

end
