(* ===== verification/Agent_Clusters.thy ===== *)
theory Agent_Clusters
  imports Certificates Go_Text
begin

text \<open>
  \<open>internal/controller/argocd_agent_clusters.go\<close>: the Argo CD cluster Secret of a managed cluster that is reached through the
  resource proxy, and the client certificate it carries. \<open>url.Parse\<close> is the argument \<open>parse_url\<close>, the functions of the
  \<open>crypto\<close> packages and the Secret lister are the record \<open>x509_lib\<close>. Instants and durations are nanoseconds.
\<close>

section \<open>Keys\<close>

definition ArgoCDClusterSecretType :: string where
  "ArgoCDClusterSecretType = ''Opaque''"
definition ArgoCDSecretTypeLabel :: string where
  "ArgoCDSecretTypeLabel = ''argocd.argoproj.io/secret-type''"
definition ArgoCDSecretTypeValue :: string where
  "ArgoCDSecretTypeValue = ''cluster''"
definition ArgoCDAgentClusterMappingLabel :: string where
  "ArgoCDAgentClusterMappingLabel = ''argocd-agent.argoproj-labs.io/agent-name''"
definition clusterClientCertificateSignerSkew :: int where
  "clusterClientCertificateSignerSkew = 2 * 1000000000"

section \<open>The server URL\<close>

text \<open>
  A parsed URL: its parts, and its host as \<open>String\<close> prints it again. With the query replaced, an accepted URL prints as its scheme,
  host, path and query.
\<close>

record url =
  u_scheme :: string
  u_host :: string
  u_hostname :: string
  u_has_user :: bool
  u_path :: string
  u_raw_query :: string
  u_force_query :: bool
  u_fragment :: string
  u_port :: string

definition resourceProxyServerURL :: "(string \<Rightarrow> url result) \<Rightarrow> string \<Rightarrow> string \<Rightarrow> string result" where
  "resourceProxyServerURL parse_url server clusterName =
     (if server = '''' then Inr (''https://'' @ clusterName @ ''-control-plane'')
      else case parse_url server of
        Inl e \<Rightarrow> Inl (Wrapped ''invalid resource proxy server URL'' e)
      | Inr u \<Rightarrow>
          if u_scheme u \<noteq> ''https'' \<or> u_hostname u = '''' \<or> u_has_user u \<or> (u_path u \<noteq> '''' \<and> u_path u \<noteq> ''/'') \<or>
             u_raw_query u \<noteq> '''' \<or> u_force_query u \<or> u_fragment u \<noteq> ''''
          then Inl (Plain ''resource proxy server must be an HTTPS origin without user info, path, query or fragment'')
          else if u_port u \<noteq> '''' \<and> (case atoi (u_port u) of None \<Rightarrow> True | Some value \<Rightarrow> value < 1 \<or> 65535 < value)
          then Inl (Plain ''resource proxy server port must be between 1 and 65535'')
          else Inr (u_scheme u @ ''://'' @ u_host u @ u_path u @ ''?agentName='' @ query_escape clusterName))"

section \<open>The connection data\<close>

record proxy_settings =
  ResourceProxyServer :: string
  ResourceProxyTLSServerName :: string

text \<open>\<open>json.Marshal\<close> of the ClusterConfig: empty fields tagged \<open>omitempty\<close> are left out, byte slices are base64.\<close>

fun json_members :: "(string \<times> string) list \<Rightarrow> string" where
  "json_members [] = []"
| "json_members [(k, v)] = json_quote k @ '':'' @ v"
| "json_members ((k, v) # rest) = json_quote k @ '':'' @ v @ '','' @ json_members rest"

definition json_object :: "(string \<times> string) list \<Rightarrow> string" where
  "json_object members = ''{'' @ json_members members @ ''}''"

definition omit_empty :: "string \<Rightarrow> string \<Rightarrow> string \<Rightarrow> (string \<times> string) list" where
  "omit_empty k v text = (if v = '''' then [] else [(k, text)])"

definition cluster_config_json :: "string \<Rightarrow> string \<Rightarrow> string \<Rightarrow> string \<Rightarrow> string \<Rightarrow> string" where
  "cluster_config_json user tlsServerName certPEM keyPEM caPEM =
     json_object (omit_empty ''username'' user (json_quote user) @ omit_empty ''password'' user (json_quote user) @
       [(''tlsClientConfig'', json_object (
          [(''insecure'', ''false'')] @
          omit_empty ''serverName'' tlsServerName (json_quote tlsServerName) @
          omit_empty ''certData'' certPEM (json_quote (base64 certPEM)) @
          omit_empty ''keyData'' keyPEM (json_quote (base64 keyPEM)) @
          omit_empty ''caData'' caPEM (json_quote (base64 caPEM))))])"

definition clusterConnectionData :: "(string \<Rightarrow> url result) \<Rightarrow> proxy_settings \<Rightarrow> string \<Rightarrow> string \<Rightarrow> string \<Rightarrow> string \<Rightarrow> string gomap result" where
  "clusterConnectionData parse_url P clusterName clientCertPEM clientKeyPEM caCertPEM =
     (case resourceProxyServerURL parse_url (ResourceProxyServer P) clusterName of
        Inl e \<Rightarrow> Inl e
      | Inr server \<Rightarrow>
          let tlsServerName = (if ResourceProxyServer P \<noteq> '''' then ResourceProxyTLSServerName P else '''')
          in Inr [(''name'', clusterName), (''server'', server),
               (''config'', cluster_config_json clusterName tlsServerName clientCertPEM clientKeyPEM caCertPEM)])"

section \<open>The client certificate\<close>

record certificate =
  crt_common_name :: string
  crt_issuer :: string
  crt_not_before :: int
  crt_not_after :: int
  crt_usages :: "string list"

text \<open>
  \<open>parse_pem\<close> is \<open>cert.ParseCertsPEM\<close>, \<open>key_pair_ok\<close> tells whether \<open>tls.X509KeyPair\<close> succeeds, \<open>signed_by\<close> whether
  \<open>CheckSignatureFrom\<close> does; \<open>signer_certs\<close> are the certificates of the signing key pair, with \<open>None\<close> for a nil pointer.
\<close>

record ('w, 'ca) x509_lib =
  parse_pem :: "string \<Rightarrow> certificate list option"
  key_pair_ok :: "string \<Rightarrow> string \<Rightarrow> bool"
  signed_by :: "certificate \<Rightarrow> certificate \<Rightarrow> bool"
  signer_certs :: "'ca \<Rightarrow> certificate option list"
  make_client_cert :: "'ca \<Rightarrow> string \<Rightarrow> int \<Rightarrow> (string \<times> string) result result"
  lister_get :: "string \<Rightarrow> string \<Rightarrow> ('w, secret result) state"

text \<open>\<open>Time.Sub\<close> saturates at the bounds of a 64-bit duration; division of durations truncates.\<close>

definition time_sub :: "int \<Rightarrow> int \<Rightarrow> int" where
  "time_sub a b = max (- (2 ^ 63)) (min (2 ^ 63 - 1) (a - b))"

definition int64_neg :: "int \<Rightarrow> int" where
  "int64_neg d = (if d = - (2 ^ 63) then d else - d)"

definition trunc_div :: "int \<Rightarrow> int \<Rightarrow> int" where
  "trunc_div a b = (if a < 0 then - ((- a) div b) else a div b)"

definition quoted :: "string \<Rightarrow> string" where
  "quoted s = char_of (34::int) # s @ [char_of (34::int)]"

definition clusterClientCertificateTargetValidity :: "certificate option list \<Rightarrow> string \<Rightarrow> int \<Rightarrow> int result" where
  "clusterClientCertificateTargetValidity signerCerts clusterName now =
     (case signerCerts of
        Some signer # _ \<Rightarrow>
          let remainingSignerValidity = time_sub (crt_not_after signer) (now + clusterClientCertificateSignerSkew) in
          if remainingSignerValidity \<le> 0
          then Inl (Plain (''cannot create cluster client certificate for '' @ quoted clusterName @
            '': signing certificate expired or expires too soon''))
          else if remainingSignerValidity < TargetCertValidity then Inr remainingSignerValidity
          else Inr TargetCertValidity
      | _ \<Rightarrow> Inl (Plain (''cannot create cluster client certificate for '' @ quoted clusterName @
            '': signing certificate is missing'')))"

definition hasExtKeyUsage :: "certificate \<Rightarrow> string \<Rightarrow> bool" where
  "hasExtKeyUsage certificate usage = list_ex (\<lambda>certificateUsage. certificateUsage = usage) (crt_usages certificate)"

text \<open>The clock is read twice.\<close>

definition hasValidClusterClientCertificate :: "('w, 'ca) x509_lib \<Rightarrow> secret \<Rightarrow> certificate list \<Rightarrow> string \<Rightarrow> int \<Rightarrow> int \<Rightarrow> bool" where
  "hasValidClusterClientCertificate X secret caBundleCerts clusterName now1 now2 =
     (let certData = mget (sec_data secret) ''tls.crt''; keyData = mget (sec_data secret) ''tls.key'' in
      if length certData = 0 then False
      else if length keyData = 0 then False
      else if \<not> key_pair_ok X certData keyData then False
      else case parse_pem X certData of
        Some (certificate # _) \<Rightarrow>
          if crt_common_name certificate \<noteq> clusterName then False
          else if now1 > crt_not_after certificate then False
          else if now2 > crt_not_after certificate +
            trunc_div (int64_neg (time_sub (crt_not_after certificate) (crt_not_before certificate))) 5 then False
          else if \<not> hasExtKeyUsage certificate ''ClientAuth'' then False
          else list_ex (\<lambda>caCert. crt_issuer certificate = crt_common_name caCert \<and> signed_by X certificate caCert) caBundleCerts
      | _ \<Rightarrow> False)"

definition client_secret :: "string \<Rightarrow> string \<Rightarrow> secret" where
  "client_secret namespace secretName =
     \<lparr>sec_meta = new_meta secretName namespace, sec_type = ''kubernetes.io/tls'', sec_data = [], sec_string_data = []\<rparr>"

text \<open>Storing the new key pair: the Secret is created when it has no resource version, else updated.\<close>

definition store_client_certificate :: "'w client \<Rightarrow> string \<Rightarrow> string \<Rightarrow> string \<times> string \<Rightarrow> ('w, unit result) state" where
  "store_client_certificate C namespace secretName = (\<lambda>(clientCertPEM, clientKeyPEM). do {
     r \<leftarrow> fetch as_secret C (Ref KSecret namespace secretName);
     bindE (ret (case r of
         Inl e \<Rightarrow> if is_not_found e then Inr (client_secret namespace secretName)
                 else Inl (Wrapped ''failed to get cluster client certificate secret'' e)
       | Inr s \<Rightarrow> Inr s)) (\<lambda>targetSecret.
       let targetSecret = targetSecret\<lparr>sec_type := ''kubernetes.io/tls'',
             sec_data := [(''tls.crt'', clientCertPEM), (''tls.key'', clientKeyPEM)]\<rparr> in
       if m_resource_version (sec_meta targetSecret) = ''''
       then wrapE ''failed to create cluster client certificate secret'' (create C (OSecret targetSecret))
       else wrapE ''failed to update cluster client certificate secret'' (update C (OSecret targetSecret))) })"

definition issue_client_certificate :: "'w client \<Rightarrow> ('w, 'ca) x509_lib \<Rightarrow> string \<Rightarrow> string \<Rightarrow> string \<Rightarrow> 'ca \<Rightarrow> ('w, unit result) state" where
  "issue_client_certificate C X namespace clusterName secretName ca = do {
     now \<leftarrow> c_now C;
     bindE (ret (clusterClientCertificateTargetValidity (signer_certs X ca) clusterName now)) (\<lambda>targetValidity.
     bindE (ret (wrap_result ''failed to create cluster client certificate'' (make_client_cert X ca clusterName targetValidity))) (\<lambda>pem.
     bindE (ret (wrap_result ''failed to encode cluster client certificate'' pem)) (\<lambda>keyPair.
     store_client_certificate C namespace secretName keyPair))) }"

definition ensureClusterClientCertificate :: "'w client \<Rightarrow> ('w, 'ca, certificate list) cert_lib \<Rightarrow> ('w, 'ca) x509_lib \<Rightarrow>
    string \<Rightarrow> string \<Rightarrow> string \<Rightarrow> ('w, unit result) state" where
  "ensureClusterClientCertificate C L X namespace clusterName secretName =
     bindE (ret (wrap_result ''failed to get Kubernetes clientset'' (getKubernetesClientset L))) (\<lambda>_.
     bindE (setupInformers L) (\<lambda>_.
     bindE (wrapE ''failed to load CA certificate'' (loadCACertificate L namespace)) (\<lambda>(ca, caBundleCerts). do {
       r \<leftarrow> lister_get X namespace secretName;
       (case r of
          Inl e \<Rightarrow> if \<not> is_not_found e then ret (Inl e)
                  else issue_client_certificate C X namespace clusterName secretName ca
        | Inr existingSecret \<Rightarrow> do {
            now1 \<leftarrow> c_now C; now2 \<leftarrow> c_now C;
            (if hasValidClusterClientCertificate X existingSecret caBundleCerts clusterName now1 now2 then ret (Inr ())
             else issue_client_certificate C X namespace clusterName secretName ca) }) })))"

section \<open>The cluster Secret\<close>

definition client_secret_name :: "string \<Rightarrow> string" where
  "client_secret_name clusterName = ''argocd-cluster-client-'' @ clusterName"

definition secret_entry :: "secret \<Rightarrow> string \<Rightarrow> string \<Rightarrow> string result" where
  "secret_entry s k msg = (case map_of (sec_data s) k of None \<Rightarrow> Inl (Plain msg) | Some v \<Rightarrow> Inr v)"

definition buildArgoCDClusterSecretData :: "'w client \<Rightarrow> ('w, 'ca, certificate list) cert_lib \<Rightarrow> ('w, 'ca) x509_lib \<Rightarrow>
    (string \<Rightarrow> url result) \<Rightarrow> proxy_settings \<Rightarrow> string \<Rightarrow> managed_cluster \<Rightarrow> ('w, string gomap result) state" where
  "buildArgoCDClusterSecretData C L X parse_url P argoCDNamespace cluster =
     (let name = m_name (mc_meta cluster); clientSecretName = client_secret_name name in
      bindE (wrapE ''failed to ensure cluster client certificate''
        (ensureClusterClientCertificate C L X argoCDNamespace name clientSecretName)) (\<lambda>_.
      bindE (wrapE ''failed to get client certificate secret''
        (fetch as_secret C (Ref KSecret argoCDNamespace clientSecretName))) (\<lambda>clientSecret.
      bindE (ret (secret_entry clientSecret ''tls.crt'' ''client certificate not found in secret'')) (\<lambda>clientCertPEM.
      bindE (ret (secret_entry clientSecret ''tls.key'' ''client key not found in secret'')) (\<lambda>clientKeyPEM.
      bindE (wrapE ''failed to get ArgoCD agent CA secret''
        (fetch as_secret C (Ref KSecret argoCDNamespace ArgoCDAgentCASecretName))) (\<lambda>caSecret.
      bindE (ret (secret_entry caSecret ''tls.crt'' ''CA certificate not found in secret'')) (\<lambda>caCertPEM.
      ret (clusterConnectionData parse_url P name clientCertPEM clientKeyPEM caCertPEM))))))))"

definition cluster_labels :: "string \<Rightarrow> string \<Rightarrow> string gomap" where
  "cluster_labels clusterName placementName =
     [(ArgoCDSecretTypeLabel, ArgoCDSecretTypeValue), (''apps.open-cluster-management.io/cluster-name'', clusterName),
      (ArgoCDAgentClusterMappingLabel, clusterName), (''placement-name'', placementName)]"

definition updateArgoCDClusterSecret :: "'w client \<Rightarrow> ('w, string gomap result) state \<Rightarrow> secret \<Rightarrow> string \<Rightarrow> string \<Rightarrow> ('w, unit result) state" where
  "updateArgoCDClusterSecret C build_data secret clusterName placementName =
     (let secret = secret\<lparr>sec_meta := (sec_meta secret)\<lparr>m_labels :=
        put_all (cluster_labels clusterName placementName) (m_labels (sec_meta secret))\<rparr>\<rparr> in
      bindE (wrapE ''failed to build cluster secret data'' build_data) (\<lambda>secretData.
      wrapE ''failed to update ArgoCD cluster secret'' (update C (OSecret (secret\<lparr>sec_data := secretData\<rparr>)))))"

definition new_cluster_secret :: "string \<Rightarrow> string \<Rightarrow> string \<Rightarrow> string gomap \<Rightarrow> secret" where
  "new_cluster_secret argoCDNamespace clusterName placementName secretData =
     \<lparr>sec_meta = (new_meta (''cluster-'' @ clusterName) argoCDNamespace)\<lparr>m_labels := cluster_labels clusterName placementName\<rparr>,
      sec_type = ArgoCDClusterSecretType, sec_data = secretData, sec_string_data = []\<rparr>"

definition createArgoCDClusterSecret :: "'w client \<Rightarrow> ('w, 'ca, certificate list) cert_lib \<Rightarrow> ('w, 'ca) x509_lib \<Rightarrow>
    (string \<Rightarrow> url result) \<Rightarrow> proxy_settings \<Rightarrow> string \<Rightarrow> managed_cluster \<Rightarrow> string \<Rightarrow> ('w, unit result) state" where
  "createArgoCDClusterSecret C L X parse_url P argoCDNamespace cluster placementName =
     (let name = m_name (mc_meta cluster);
          build_data = buildArgoCDClusterSecretData C L X parse_url P argoCDNamespace cluster in
      ensure_object C as_secret (Ref KSecret argoCDNamespace (''cluster-'' @ name))
        ''failed to check ArgoCD cluster secret'' ''failed to create ArgoCD cluster secret''
        (\<lambda>existing. updateArgoCDClusterSecret C build_data existing name placementName)
        (bindE (wrapE ''failed to build cluster secret data'' build_data) (\<lambda>secretData.
           ret (Inr (OSecret (new_cluster_secret argoCDNamespace name placementName secretData))))))"

definition importManagedClusterToArgoCD :: "'w client \<Rightarrow> ('w, 'ca, certificate list) cert_lib \<Rightarrow> ('w, 'ca) x509_lib \<Rightarrow>
    (string \<Rightarrow> url result) \<Rightarrow> proxy_settings \<Rightarrow> string \<Rightarrow> managed_cluster \<Rightarrow> string \<Rightarrow> ('w, unit result) state" where
  "importManagedClusterToArgoCD C L X parse_url P argoCDNamespace managedCluster placementName =
     wrapE (''failed to create ArgoCD cluster secret for '' @ m_name (mc_meta managedCluster))
       (createArgoCDClusterSecret C L X parse_url P argoCDNamespace managedCluster placementName)"

section \<open>Lemmas\<close>

lemma cluster_labels_distinct: "distinct (map fst (cluster_labels c p))"
  by (simp add: cluster_labels_def ArgoCDSecretTypeLabel_def ArgoCDAgentClusterMappingLabel_def)

lemma put_cluster_labels:
  "map_of (put_all (cluster_labels c p) l) k = (case map_of (cluster_labels c p) k of None \<Rightarrow> map_of l k | Some v \<Rightarrow> Some v)"
  by (rule map_of_put_all [OF cluster_labels_distinct])

locale secret_lister =
  fixes X :: "('w, 'ca) x509_lib" and view :: "'w \<Rightarrow> objref \<Rightarrow> kobj option"
  assumes lister_view: "run_state (lister_get X ns name) w = (r, w') \<Longrightarrow> view w' = view w"
begin

lemma wp_lister: "(\<And>r w'. view w' = view w \<Longrightarrow> Q r w') \<Longrightarrow> wp (lister_get X ns name) Q w"
  by (rule wpI) (auto dest: lister_view)

end

definition mem_x509 :: "(mem, unit) x509_lib" where
  "mem_x509 = \<lparr>parse_pem = (\<lambda>_. None), key_pair_ok = (\<lambda>_ _. False), signed_by = (\<lambda>_ _. False),
     signer_certs = (\<lambda>_. [Some \<lparr>crt_common_name = ''ca'', crt_issuer = ''ca'', crt_not_before = 0, crt_not_after = hour * 24,
       crt_usages = []\<rparr>]),
     make_client_cert = (\<lambda>_ _ _. Inr (Inr (''CERT'', ''KEY''))),
     lister_get = (\<lambda>ns name. fetch as_secret mem_client (Ref KSecret ns name))\<rparr>"

interpretation mem_x509: secret_lister mem_x509 mem_view
proof
  fix ns name and w w' :: mem and r
  assume "run_state (lister_get mem_x509 ns name) w = (r, w')"
  then have "run_state (fetch as_secret mem_client (Ref KSecret ns name)) w = (r, w')" by (simp add: mem_x509_def)
  moreover have "wp (fetch as_secret mem_client (Ref KSecret ns name)) (\<lambda>_ w'. mem_view w' = mem_view w) w"
    by (rule kube_api.wp_fetch [OF mem_kube_api]) auto
  ultimately show "mem_view w' = mem_view w" using wp_run by fastforce
qed

lemma mem_secret_lister: "secret_lister mem_x509 mem_view"
  by (rule mem_x509.secret_lister_axioms)

text \<open>The objects the preparation of the data may touch.\<close>

definition client_objects :: "string \<Rightarrow> string \<Rightarrow> objref set" where
  "client_objects ns name = {Ref KSecret ns ArgoCDAgentCASecretName, Ref KConfigMap ns ca_bundle_name,
     Ref KSecret ns (client_secret_name name)}"

lemma cluster_secret_not_client: "Ref KSecret ns (''cluster-'' @ n) \<notin> client_objects ns name"
  by (simp add: client_objects_def client_secret_name_def ArgoCDAgentCASecretName_def)

context kube_api
begin

lemma wp_store_client_certificate:
  "wp (store_client_certificate C ns name kp) (\<lambda>_ w'. \<forall>q. q \<noteq> Ref KSecret ns name \<longrightarrow> view w' q = view w q) w"
  unfolding store_client_certificate_def wp_bind
  by (cases kp, simp only: prod.case wp_bind, rule wp_fetch)
    (auto simp: wp_simps Let_def client_secret_def wrap_result_def split: sum.splits intro!: wp_create_unit wp_update_unit)

lemma wp_issue_client_certificate:
  "wp (issue_client_certificate C X ns c name ca) (\<lambda>_ w'. \<forall>q. q \<noteq> Ref KSecret ns name \<longrightarrow> view w' q = view w q) w"
  unfolding issue_client_certificate_def wp_bind
  by (rule wp_now) (auto simp: wp_simps split: sum.splits intro!: wp_mono [OF wp_store_client_certificate])

end

context cert_rotation
begin

lemma touches_setup: "wp (setupInformers L) (\<lambda>_. only_touches view S w) w"
  by (rule wp_setup) (simp add: only_touches_view)

lemma touches_loadCA:
  "Ref KSecret ns ArgoCDAgentCASecretName \<in> S \<Longrightarrow> Ref KConfigMap ns ca_bundle_name \<in> S \<Longrightarrow>
     wp (loadCACertificate L ns) (\<lambda>_. only_touches view S w) w"
  by (rule wp_mono [OF wp_loadCA]) (auto simp: only_touches_def, metis)

end

lemma touches_client_certificate:
  assumes "kube_api C view" "cert_rotation L view" "secret_lister X view"
  shows "wp (ensureClusterClientCertificate C L X ns c (client_secret_name c)) (\<lambda>_. only_touches view (client_objects ns c) w) w"
proof -
  have issue: "wp (issue_client_certificate C X ns c (client_secret_name c) ca) (\<lambda>_. only_touches view (client_objects ns c) w1) w1"
    for ca w1
    by (rule wp_mono [OF kube_api.wp_issue_client_certificate [OF assms(1)]]) (auto simp: only_touches_def client_objects_def)
  have list: "wp (lister_get X ns (client_secret_name c)) (\<lambda>_. only_touches view (client_objects ns c) w1) w1" for w1
    by (rule secret_lister.wp_lister [OF assms(3)]) (simp add: only_touches_view)
  show ?thesis
    unfolding ensureClusterClientCertificate_def
    by (intro touches issue list cert_rotation.touches_setup [OF assms(2)] cert_rotation.touches_loadCA [OF assms(2)]
        kube_api.wp_touches_now [OF assms(1)]) (simp_all add: client_objects_def)
qed

text \<open>What Argo CD reads from the Secret of a cluster.\<close>

definition connects :: "(string \<Rightarrow> url result) \<Rightarrow> proxy_settings \<Rightarrow> string \<Rightarrow> string \<Rightarrow> string \<Rightarrow> string \<Rightarrow> string gomap \<Rightarrow> bool" where
  "connects parse_url P name cert key ca data = (map_of data ''name'' = Some name \<and>
     (\<exists>server. resourceProxyServerURL parse_url (ResourceProxyServer P) name = Inr server \<and> map_of data ''server'' = Some server) \<and>
     map_of data ''config'' = Some (cluster_config_json name
        (if ResourceProxyServer P \<noteq> '''' then ResourceProxyTLSServerName P else '''') cert key ca))"

lemma clusterConnectionData_connects:
  "clusterConnectionData parse_url P name cert key ca = Inr data \<Longrightarrow> connects parse_url P name cert key ca data"
  by (auto simp: clusterConnectionData_def connects_def Let_def split: sum.splits)

text \<open>The key pair stored for the client of a cluster, and the certificate of the CA.\<close>

definition client_pair :: "('w \<Rightarrow> objref \<Rightarrow> kobj option) \<Rightarrow> 'w \<Rightarrow> string \<Rightarrow> string \<Rightarrow> string \<Rightarrow> string \<Rightarrow> bool" where
  "client_pair view w ns name cert key = (\<exists>s. view w (Ref KSecret ns (client_secret_name name)) = Some (OSecret s) \<and>
     map_of (sec_data s) ''tls.crt'' = Some cert \<and> map_of (sec_data s) ''tls.key'' = Some key)"

definition ca_certificate :: "('w \<Rightarrow> objref \<Rightarrow> kobj option) \<Rightarrow> 'w \<Rightarrow> string \<Rightarrow> string \<Rightarrow> bool" where
  "ca_certificate view w ns ca = (\<exists>s. view w (Ref KSecret ns ArgoCDAgentCASecretName) = Some (OSecret s) \<and>
     map_of (sec_data s) ''tls.crt'' = Some ca)"

text \<open>Connection data with the stored credentials.\<close>

definition current_data :: "(string \<Rightarrow> url result) \<Rightarrow> proxy_settings \<Rightarrow> ('w \<Rightarrow> objref \<Rightarrow> kobj option) \<Rightarrow> string \<Rightarrow> string \<Rightarrow> 'w \<Rightarrow>
    string gomap \<Rightarrow> bool" where
  "current_data parse_url P view ns name w data = (\<exists>cert key ca. client_pair view w ns name cert key \<and> ca_certificate view w ns ca \<and>
     connects parse_url P name cert key ca data)"

lemma current_data_touches:
  assumes "only_touches view {Ref KSecret ns (''cluster-'' @ n)} w w'" "current_data parse_url P view ns name w data"
  shows "current_data parse_url P view ns name w' data"
proof -
  have "view w' (Ref KSecret ns (client_secret_name name)) = view w (Ref KSecret ns (client_secret_name name))"
    "view w' (Ref KSecret ns ArgoCDAgentCASecretName) = view w (Ref KSecret ns ArgoCDAgentCASecretName)"
    using assms(1) by (simp_all add: only_touches_def client_secret_name_def ArgoCDAgentCASecretName_def)
  with assms(2) show ?thesis by (simp add: current_data_def client_pair_def ca_certificate_def)
qed

lemma wp_build_data:
  assumes "kube_api C view" "cert_rotation L view" "secret_lister X view"
  shows "wp (buildArgoCDClusterSecretData C L X parse_url P ns cluster) (\<lambda>r w'.
     only_touches view (client_objects ns (m_name (mc_meta cluster))) w w' \<and>
     (\<forall>data. r = Inr data \<longrightarrow> current_data parse_url P view ns (m_name (mc_meta cluster)) w' data)) w"
proof (rule wp_conj)
  show "wp (buildArgoCDClusterSecretData C L X parse_url P ns cluster)
     (\<lambda>_. only_touches view (client_objects ns (m_name (mc_meta cluster))) w) w"
    unfolding buildArgoCDClusterSecretData_def Let_def
    by (intro touches touches_client_certificate assms kube_api.wp_touches_fetch [OF assms(1)])
next
  let ?n = "m_name (mc_meta cluster)"
  let ?Q = "\<lambda>r w'. \<forall>data. r = Inr data \<longrightarrow> current_data parse_url P view ns ?n w' data"
  have ca: "wp (bindE (wrapE m (fetch as_secret C (Ref KSecret ns ArgoCDAgentCASecretName))) (\<lambda>caSecret.
      bindE (ret (secret_entry caSecret ''tls.crt'' e)) (\<lambda>ca. ret (clusterConnectionData parse_url P ?n cert key ca)))) ?Q w1"
    if "client_pair view w1 ns ?n cert key" for m e cert key w1
    unfolding wp_bindE wp_wrapE
  proof (rule kube_api.wp_fetch [OF assms(1)], goal_cases)
    case (1 x s w2)
    then have "view w2 (Ref KSecret ns ArgoCDAgentCASecretName) = Some (OSecret s)" by simp
    then have "ca_certificate view w2 ns ca" if "map_of (sec_data s) ''tls.crt'' = Some ca" for ca
      using that by (simp add: ca_certificate_def)
    moreover have "client_pair view w2 ns ?n cert key" using that 1(1) by (simp add: client_pair_def)
    ultimately have now: "current_data parse_url P view ns ?n w2 data"
      if "map_of (sec_data s) ''tls.crt'' = Some ca" "clusterConnectionData parse_url P ?n cert key ca = Inr data" for ca data
      using that clusterConnectionData_connects [OF that(2)] unfolding current_data_def by blast
    then show ?case by (auto simp: wp_ret secret_entry_def split: option.splits)
  qed simp
  show "wp (buildArgoCDClusterSecretData C L X parse_url P ns cluster) ?Q w"
    unfolding buildArgoCDClusterSecretData_def Let_def
  proof (rule wp_bindE_rule [OF wp_True], simp)
    fix u :: unit and w1
    show "wp (bindE (wrapE ''failed to get client certificate secret'' (fetch as_secret C (Ref KSecret ns (client_secret_name ?n)))) (\<lambda>clientSecret.
      bindE (ret (secret_entry clientSecret ''tls.crt'' ''client certificate not found in secret'')) (\<lambda>clientCertPEM.
      bindE (ret (secret_entry clientSecret ''tls.key'' ''client key not found in secret'')) (\<lambda>clientKeyPEM.
      bindE (wrapE ''failed to get ArgoCD agent CA secret''
        (fetch as_secret C (Ref KSecret ns ArgoCDAgentCASecretName))) (\<lambda>caSecret.
      bindE (ret (secret_entry caSecret ''tls.crt'' ''CA certificate not found in secret'')) (\<lambda>caCertPEM.
      ret (clusterConnectionData parse_url P ?n clientCertPEM clientKeyPEM caCertPEM))))))) ?Q w1"
      unfolding wp_bindE [of "wrapE _ (fetch as_secret C (Ref KSecret ns (client_secret_name ?n)))"] wp_wrapE
    proof (rule kube_api.wp_fetch [OF assms(1)], goal_cases)
      case (1 x s w2)
      then have "view w2 (Ref KSecret ns (client_secret_name ?n)) = Some (OSecret s)" by simp
      then have pair: "client_pair view w2 ns ?n cert key"
        if "map_of (sec_data s) ''tls.crt'' = Some cert" "map_of (sec_data s) ''tls.key'' = Some key" for cert key
        using that by (simp add: client_pair_def)
      show ?case
        unfolding wrap_result_simps sum.case
        by (cases "map_of (sec_data s) ''tls.crt''"; cases "map_of (sec_data s) ''tls.key''")
          (simp_all add: secret_entry_def wp_bindE [of "ret _"] wp_ret ca [OF pair, unfolded secret_entry_def])
    qed simp
  qed
qed

text \<open>The labels of the Secret: the four of the controller, and on an update the others it had.\<close>

definition labelled :: "string \<Rightarrow> string \<Rightarrow> string gomap \<Rightarrow> string gomap \<Rightarrow> bool" where
  "labelled name placementName old new = (\<forall>k. map_of new k =
     (case map_of (cluster_labels name placementName) k of Some v \<Rightarrow> Some v | None \<Rightarrow> map_of old k))"

lemma wp_updateArgoCDClusterSecret:
  assumes "kube_api C view" "view w (ref_of (OSecret s)) = Some (OSecret s)" "m_deletion (sec_meta s) = None"
    and build: "\<And>w1. view w1 = view w \<Longrightarrow>
      wp build_data (\<lambda>r w2. only_touches view S w w2 \<and> (\<forall>data. r = Inr data \<longrightarrow> good w2 data)) w1"
    and "sec_string_data s = []"
    and stable: "\<And>w1 w2 data. only_touches view {ref_of (OSecret s)} w1 w2 \<Longrightarrow> good w1 data \<Longrightarrow> good w2 data"
  shows "wp (updateArgoCDClusterSecret C build_data s name placementName) (\<lambda>r w'.
     only_touches view (insert (ref_of (OSecret s)) S) w w' \<and>
     (r = Inr () \<longrightarrow> (\<exists>t. view w' (ref_of (OSecret s)) = Some (OSecret t) \<and> good w' (sec_data t) \<and>
        labelled name placementName (m_labels (sec_meta s)) (m_labels (sec_meta t))))) w" (is "wp _ ?Q w")
  unfolding updateArgoCDClusterSecret_def Let_def wp_bindE wp_wrapE
proof (rule wp_mono [OF build [OF refl]], elim conjE)
  fix r :: "string gomap result" and w1 assume w1: "only_touches view S w w1" "\<forall>data. r = Inr data \<longrightarrow> good w1 data"
  have lab: "labelled name placementName l (put_all (cluster_labels name placementName) l)" for l
    by (simp add: labelled_def put_cluster_labels)
  show "case wrap_result ''failed to build cluster secret data'' r of Inl e \<Rightarrow> ?Q (Inl e) w1
    | Inr secretData \<Rightarrow> wp (update C (OSecret (s\<lparr>sec_meta := (sec_meta s)\<lparr>m_labels :=
        put_all (cluster_labels name placementName) (m_labels (sec_meta s))\<rparr>, sec_data := secretData\<rparr>)))
        (\<lambda>r. ?Q (wrap_result ''failed to update ArgoCD cluster secret'' r)) w1"
  proof (cases r)
    case (Inl e)
    with w1 show ?thesis by (auto simp: only_touches_def)
  next
    case (Inr data)
    with w1(2) have good: "good w2 data" if "only_touches view {ref_of (OSecret s)} w1 w2" for w2
      using stable [OF that] by simp
    with Inr w1 lab assms(3,5) show ?thesis
      by (auto simp: only_touches_def same_content_def put_all_def [of "[]"] intro!: kube_api.wp_update_unit [OF assms(1)])
  qed
qed

abbreviation cluster_ref :: "string \<Rightarrow> string \<Rightarrow> objref" where
  "cluster_ref ns name \<equiv> Ref KSecret ns (''cluster-'' @ name)"

lemma wp_import:
  assumes "kube_api C view" and "cert_rotation L view" and "secret_lister X view" and "m_name (mc_meta cluster) = name"
    and "\<forall>s. view w (cluster_ref ns name) = Some (OSecret s) \<longrightarrow> m_deletion (sec_meta s) = None \<and> sec_string_data s = []"
  shows "wp (importManagedClusterToArgoCD C L X parse_url P ns cluster placementName) (\<lambda>r w'.
     (\<forall>q. q \<notin> insert (cluster_ref ns name) (client_objects ns name) \<longrightarrow> view w' q = view w q) \<and>
     (r = Inr () \<longrightarrow> (\<exists>t. view w' (cluster_ref ns name) = Some (OSecret t) \<and> current_data parse_url P view ns name w' (sec_data t) \<and>
        labelled name placementName
          (case view w (cluster_ref ns name) of Some (OSecret s) \<Rightarrow> m_labels (sec_meta s) | _ \<Rightarrow> []) (m_labels (sec_meta t))))) w"
    (is "wp _ ?P w")
proof -
  let ?r = "cluster_ref ns name" and ?build = "buildArgoCDClusterSecretData C L X parse_url P ns cluster"
  have build: "wp ?build (\<lambda>r w2. only_touches view (client_objects ns name) w w2 \<and>
      (\<forall>data. r = Inr data \<longrightarrow> current_data parse_url P view ns name w2 data)) w1" if "view w1 = view w" for w1
    using wp_build_data [OF assms(1-3), of parse_url P ns cluster w1] that
    by (auto simp: assms(4) only_touches_def)
  have "wp (createArgoCDClusterSecret C L X parse_url P ns cluster placementName) ?P w"
    unfolding createArgoCDClusterSecret_def Let_def assms(4)
  proof (rule kube_api.wp_ensure_object [OF assms(1)])
    fix s w1 assume s: "view w1 = view w" "view w ?r \<noteq> None" "\<And>y. view w ?r = Some y \<Longrightarrow> as_secret y = Some s"
    then have vs: "view w ?r = Some (OSecret s)" by auto
    then have ref: "ref_of (OSecret s) = ?r" by (rule kube_api.view_ref [OF assms(1)])
    have b: "wp ?build (\<lambda>r w3. only_touches view (client_objects ns name) w1 w3 \<and>
       (\<forall>data. r = Inr data \<longrightarrow> current_data parse_url P view ns name w3 data)) w2" if "view w2 = view w1" for w2
      using build [of w2] that s(1) by (simp add: only_touches_def)
    show "wp (updateArgoCDClusterSecret C ?build s name placementName) ?P w1"
      by (rule wp_mono [OF wp_updateArgoCDClusterSecret [OF assms(1), where S = "client_objects ns name" and
            good = "current_data parse_url P view ns name"]])
        (use s(1) vs ref assms(5) b current_data_touches in \<open>auto simp: only_touches_def simp del: ref_of_simps\<close>)
  next
    fix w1 assume v: "view w1 = view w" "view w ?r = None"
    show "wp (bindE (bindE (wrapE ''failed to build cluster secret data'' ?build) (\<lambda>secretData.
           ret (Inr (OSecret (new_cluster_secret ns name placementName secretData)))))
          (create_unless_exists C ''failed to create ArgoCD cluster secret'')) ?P w1"
      unfolding wp_bindE wp_wrapE
    proof (rule wp_mono [OF build [OF v(1)]], elim conjE)
      fix r :: "string gomap result" and w2
      assume w2: "only_touches view (client_objects ns name) w w2" "\<forall>data. r = Inr data \<longrightarrow> current_data parse_url P view ns name w2 data"
      show "case wrap_result ''failed to build cluster secret data'' r of
          Inl e \<Rightarrow> (case Inl e of Inl e \<Rightarrow> ?P (Inl e) w2
            | Inr x \<Rightarrow> wp (create_unless_exists C ''failed to create ArgoCD cluster secret'' x) ?P w2)
        | Inr secretData \<Rightarrow> wp (ret (Inr (OSecret (new_cluster_secret ns name placementName secretData)))) (\<lambda>r w.
            case r of Inl e \<Rightarrow> ?P (Inl e) w
            | Inr x \<Rightarrow> wp (create_unless_exists C ''failed to create ArgoCD cluster secret'' x) ?P w) w2"
      proof (cases r)
        case (Inl e)
        with w2 show ?thesis by (simp add: only_touches_def)
      next
        case (Inr data)
        let ?x = "OSecret (new_cluster_secret ns name placementName data)"
        have ref: "ref_of ?x = ?r" by (simp add: new_cluster_secret_def)
        have none: "view w2 ?r = None"
          using w2(1) v(2) cluster_secret_not_client [of ns name] by (simp add: only_touches_def)
        have lab: "labelled name placementName [] (cluster_labels name placementName)"
          by (simp add: labelled_def split: option.splits)
        have made: "\<exists>t. y = OSecret t \<and> current_data parse_url P view ns name w3 (sec_data t) \<and>
            labelled name placementName [] (m_labels (sec_meta t))" if "same_content (admit ?x) y" "only_touches view {?r} w2 w3" for y w3
          using that(1) w2(2) Inr lab current_data_touches [OF that(2)] by (auto simp: same_content_def new_cluster_secret_def put_all_def)
        have "wp (create_unless_exists C ''failed to create ArgoCD cluster secret'' ?x) ?P w2"
          by (rule kube_api.wp_create_unless_exists [OF assms(1)], unfold ref)
            (use w2(1) none v(2) made in \<open>auto simp: only_touches_def\<close>)
        with Inr show ?thesis by (simp add: wp_ret)
      qed
    qed
  next
    fix e w1 assume "view w1 = view w"
    then show "?P (Inl e) w1" by simp
  qed
  then show ?thesis
    unfolding importManagedClusterToArgoCD_def wp_wrapE by (rule wp_mono) (auto split: sum.splits)
qed

section \<open>Properties\<close>

text \<open>
  C23: After a successful import, the Secret of the cluster names the cluster and the URL of the
  resource proxy for it, carries the stored client certificate and key of this cluster and the
  stored CA certificate in its TLS configuration, and has the four labels of the controller next
  to the labels it had; only this Secret, the client certificate and the CA objects are touched. A
  Secret of the cluster that exists is not already being deleted (and has no stringData, which the
  server never returns).
\<close>

theorem cluster_secret_imported:
  assumes "kube_api C view" and "cert_rotation L view" and "secret_lister X view" and "m_name (mc_meta cluster) = name"
    and "\<forall>s. view w (cluster_ref ns name) = Some (OSecret s) \<longrightarrow> m_deletion (sec_meta s) = None \<and> sec_string_data s = []"
    and "run_state (importManagedClusterToArgoCD C L X parse_url P ns cluster placementName) w = (r, w')"
  shows "(\<forall>q. q \<notin> insert (cluster_ref ns name) (client_objects ns name) \<longrightarrow> view w' q = view w q) \<and>
     (r = Inr () \<longrightarrow> (\<exists>t cert key ca. view w' (cluster_ref ns name) = Some (OSecret t) \<and>
        client_pair view w' ns name cert key \<and> ca_certificate view w' ns ca \<and> connects parse_url P name cert key ca (sec_data t) \<and>
        labelled name placementName
          (case view w (cluster_ref ns name) of Some (OSecret s) \<Rightarrow> m_labels (sec_meta s) | _ \<Rightarrow> []) (m_labels (sec_meta t))))"
  using wp_run [OF wp_import [where view = view and w = w, OF assms(1-5)] assms(6)] unfolding current_data_def by blast

text \<open>
  C24: A configured resource proxy is accepted only as an HTTPS origin with a port from 1 to
  65535, and the URLs of different clusters differ: the cluster name can be read back from the
  URL.
\<close>

theorem resource_proxy_url:
  assumes "resourceProxyServerURL parse_url server clusterName = Inr address"
  shows "(server \<noteq> '''' \<longrightarrow> (\<exists>u. parse_url server = Inr u \<and> u_scheme u = ''https'' \<and> u_hostname u \<noteq> '''' \<and> \<not> u_has_user u \<and>
       u_path u \<in> {'''', ''/''} \<and> u_raw_query u = '''' \<and> u_fragment u = '''' \<and>
       (u_port u = '''' \<or> (\<exists>port. atoi (u_port u) = Some port \<and> 1 \<le> port \<and> port \<le> 65535)))) \<and>
     (\<forall>other. resourceProxyServerURL parse_url server other = Inr address \<longrightarrow> other = clusterName)"
proof (cases "server = ''''")
  case True
  with assms show ?thesis by (auto simp: resourceProxyServerURL_def)
next
  case False
  with assms obtain u where u: "parse_url server = Inr u" by (auto simp: resourceProxyServerURL_def split: sum.splits)
  with False assms show ?thesis
    by (auto simp: resourceProxyServerURL_def query_escape_inject not_less split: if_splits option.splits)
qed

definition example_url :: url where
  "example_url = \<lparr>u_scheme = ''https'', u_host = ''proxy.example.com:9090'', u_hostname = ''proxy.example.com'', u_has_user = False,
     u_path = '''', u_raw_query = '''', u_force_query = False, u_fragment = '''', u_port = ''9090''\<rparr>"

theorem resource_proxy_url_witness:
  "\<not> (\<exists>other. other \<noteq> ''a&b'' \<and> resourceProxyServerURL (\<lambda>_. Inr example_url) ''https://proxy.example.com:9090'' other =
     Inr ''https://proxy.example.com:9090?agentName=a%26b'')"
proof -
  have "resourceProxyServerURL (\<lambda>_. Inr example_url) ''https://proxy.example.com:9090'' ''a&b'' =
     Inr ''https://proxy.example.com:9090?agentName=a%26b''" by code_simp
  from resource_proxy_url [OF this] show ?thesis by blast
qed

text \<open>
  C38: The validity of a client certificate is positive, at most 30 days, ends at least two
  seconds before the signer, and is the longest such; it is refused exactly when no signer is
  there or the signer ends within the skew.
\<close>

theorem client_certificate_lifetime:
  shows "case clusterClientCertificateTargetValidity signerCerts clusterName now of
     Inr validity \<Rightarrow> (\<exists>signer rest. signerCerts = Some signer # rest \<and> 0 < validity \<and> validity \<le> TargetCertValidity \<and>
       now + clusterClientCertificateSignerSkew + validity \<le> crt_not_after signer \<and>
       (validity = TargetCertValidity \<or> now + clusterClientCertificateSignerSkew + validity = crt_not_after signer))
   | Inl _ \<Rightarrow> \<not> (\<exists>signer rest. signerCerts = Some signer # rest \<and> now + clusterClientCertificateSignerSkew < crt_not_after signer)"
  by (auto simp: clusterClientCertificateTargetValidity_def time_sub_def TargetCertValidity_def hour_def Let_def
      clusterClientCertificateSignerSkew_def split: list.splits option.splits if_splits)

text \<open>
  C39: For a clock that does not run backwards, and a certificate whose validity does not end
  before it begins and is shorter than 2^63 ns (292 years, where Go durations saturate), a stored
  client certificate is kept exactly when its key pair loads, it names the cluster, allows client
  authentication, is signed by a CA of the bundle with the name of its issuer, and is not in the
  last fifth of its life.
\<close>

theorem accepted_client_certificate:
  assumes "now1 \<le> now2"
    and "\<forall>c rest. parse_pem X (mget (sec_data secret) ''tls.crt'') = Some (c # rest) \<longrightarrow>
      crt_not_before c \<le> crt_not_after c \<and> crt_not_after c - crt_not_before c < 2 ^ 63"
  shows "hasValidClusterClientCertificate X secret caBundleCerts clusterName now1 now2 \<longleftrightarrow>
     (\<exists>c rest. parse_pem X (mget (sec_data secret) ''tls.crt'') = Some (c # rest) \<and>
        mget (sec_data secret) ''tls.crt'' \<noteq> [] \<and> mget (sec_data secret) ''tls.key'' \<noteq> [] \<and>
        key_pair_ok X (mget (sec_data secret) ''tls.crt'') (mget (sec_data secret) ''tls.key'') \<and>
        crt_common_name c = clusterName \<and> ''ClientAuth'' \<in> set (crt_usages c) \<and>
        now2 \<le> crt_not_after c - (crt_not_after c - crt_not_before c) div 5 \<and>
        (\<exists>ca \<in> set caBundleCerts. crt_issuer c = crt_common_name ca \<and> signed_by X c ca))"
    (is "?valid \<longleftrightarrow> ?spec")
proof (cases "\<exists>c rest. parse_pem X (mget (sec_data secret) ''tls.crt'') = Some (c # rest)")
  case True
  then obtain c rest where p: "parse_pem X (mget (sec_data secret) ''tls.crt'') = Some (c # rest)" by blast
  let ?fifth = "(crt_not_after c - crt_not_before c) div 5"
  have c: "crt_not_before c \<le> crt_not_after c" "crt_not_after c - crt_not_before c < 2 ^ 63" using assms(2) p by auto
  have "trunc_div (int64_neg (time_sub (crt_not_after c) (crt_not_before c))) 5 = - ?fifth"
    using c by (auto simp: trunc_div_def int64_neg_def time_sub_def)
  moreover have "0 \<le> ?fifth" using c by simp
  moreover have "now2 > crt_not_after c - ?fifth \<longleftrightarrow> \<not> now2 \<le> crt_not_after c - ?fifth" by auto
  moreover have "list_ex (\<lambda>u. u = ''ClientAuth'') us \<longleftrightarrow> ''ClientAuth'' \<in> set us" for us by (induction us) auto
  ultimately show ?thesis
    using p assms(1) by (auto simp: hasValidClusterClientCertificate_def Let_def hasExtKeyUsage_def list_ex_iff)
next
  case False
  then show ?thesis by (auto simp: hasValidClusterClientCertificate_def Let_def split: option.splits list.splits)
qed

text \<open>A client certificate that ran 20 of its 24 hours is to be renewed.\<close>

definition example_certificate :: certificate where
  "example_certificate = \<lparr>crt_common_name = ''cluster1'', crt_issuer = ''ca'', crt_not_before = 0, crt_not_after = hour * 24,
     crt_usages = [''ClientAuth'']\<rparr>"

definition example_x509 :: "(mem, unit) x509_lib" where
  "example_x509 = mem_x509\<lparr>parse_pem := (\<lambda>_. Some [example_certificate]), key_pair_ok := (\<lambda>_ _. True), signed_by := (\<lambda>_ _. True)\<rparr>"

definition example_client_secret :: secret where
  "example_client_secret = (client_secret ''argocd'' ''argocd-cluster-client-cluster1'')
     \<lparr>sec_data := [(''tls.crt'', ''CERT''), (''tls.key'', ''KEY'')]\<rparr>"

theorem accepted_client_certificate_witness:
  "\<not> hasValidClusterClientCertificate example_x509 example_client_secret [example_certificate\<lparr>crt_common_name := ''ca''\<rparr>] ''cluster1''
      (hour * 20) (hour * 20) \<and>
   hasValidClusterClientCertificate example_x509 example_client_secret [example_certificate\<lparr>crt_common_name := ''ca''\<rparr>] ''cluster1''
      (hour * 19) (hour * 19)"
proof -
  have "\<forall>c rest. parse_pem example_x509 (mget (sec_data example_client_secret) ''tls.crt'') = Some (c # rest) \<longrightarrow>
      crt_not_before c \<le> crt_not_after c \<and> crt_not_after c - crt_not_before c < 2 ^ 63"
    by (simp add: example_x509_def example_certificate_def hour_def)
  note iff = accepted_client_certificate [OF _ this, OF order_refl]
  show ?thesis unfolding iff
    by (simp add: example_x509_def example_certificate_def hour_def example_client_secret_def mget_def)
qed

text \<open>Importing a cluster that has no Secret yet, with the in-memory client and certificate library.\<close>

definition mem_cluster_certs :: "(mem, unit, certificate list) cert_lib" where
  "mem_cluster_certs = \<lparr>rest_config = True, new_for_config = Inr (), sync_caches = ret None,
     ensure_signing = (\<lambda>ns name _. mem_issue ns name), ensure_bundle = (\<lambda>_ _ _. ret (Inr [])),
     ensure_target = (\<lambda>ns name _ _ _ _. mem_issue ns name)\<rparr>"

interpretation mem_cluster_certs: cert_rotation mem_cluster_certs mem_view
  by unfold_locales (auto simp: mem_cluster_certs_def dest: mem_issue_frame mem_issue_ok)

definition example_managed_cluster :: managed_cluster where
  "example_managed_cluster = \<lparr>mc_meta = new_meta ''cluster1'' ''''\<rparr>"

definition example_empty_world :: mem where
  "example_empty_world = \<lparr>mem_objs = [], mem_faults = [], mem_clock = ''t0'', mem_nanos = 0\<rparr>"

theorem cluster_secret_imported_witness:
  "\<exists>t. mem_view (snd (run_state (importManagedClusterToArgoCD mem_client mem_cluster_certs mem_x509 (\<lambda>_. Inr example_url)
       \<lparr>ResourceProxyServer = ''https://proxy.example.com:9090'', ResourceProxyTLSServerName = ''''\<rparr> ''argocd''
       example_managed_cluster ''placement'') example_empty_world)) (cluster_ref ''argocd'' ''cluster1'') = Some (OSecret t) \<and>
     connects (\<lambda>_. Inr example_url) \<lparr>ResourceProxyServer = ''https://proxy.example.com:9090'', ResourceProxyTLSServerName = ''''\<rparr>
       ''cluster1'' ''CERT'' ''KEY'' ''CERT'' (sec_data t)"
proof -
  let ?P = "\<lparr>ResourceProxyServer = ''https://proxy.example.com:9090'', ResourceProxyTLSServerName = ''''\<rparr>"
  let ?run = "run_state (importManagedClusterToArgoCD mem_client mem_cluster_certs mem_x509 (\<lambda>_. Inr example_url) ?P ''argocd''
       example_managed_cluster ''placement'') example_empty_world"
  have ok: "fst ?run = Inr ()" by code_simp
  have name: "m_name (mc_meta example_managed_cluster) = ''cluster1''" by code_simp
  have none: "\<forall>s. mem_view example_empty_world (cluster_ref ''argocd'' ''cluster1'') = Some (OSecret s) \<longrightarrow>
      m_deletion (sec_meta s) = None \<and> sec_string_data s = []"
    by (simp add: mem_view_def example_empty_world_def find_obj_def)
  have stored: "map_option (\<lambda>x. map_option sec_data (as_secret x)) (mem_view (snd ?run) (Ref KSecret ''argocd'' (client_secret_name ''cluster1''))) =
      Some (Some [(''tls.crt'', ''CERT''), (''tls.key'', ''KEY'')])"
    "map_option (\<lambda>x. map_option sec_data (as_secret x)) (mem_view (snd ?run) (Ref KSecret ''argocd'' ArgoCDAgentCASecretName)) =
      Some (Some [(''tls.crt'', ''CERT''), (''tls.key'', ''KEY'')])" by code_simp+
  from cluster_secret_imported [OF mem_kube_api, OF mem_cluster_certs.cert_rotation_axioms, OF mem_secret_lister, OF name, OF none,
      of "\<lambda>_. Inr example_url" ?P "''placement''" "fst ?run" "snd ?run"] ok
  obtain t cert key ca where t: "mem_view (snd ?run) (cluster_ref ''argocd'' ''cluster1'') = Some (OSecret t)"
    "client_pair mem_view (snd ?run) ''argocd'' ''cluster1'' cert key" "ca_certificate mem_view (snd ?run) ''argocd'' ca"
    "connects (\<lambda>_. Inr example_url) ?P ''cluster1'' cert key ca (sec_data t)"
    unfolding prod.collapse by blast
  from t(2,3) stored have "cert = ''CERT''" "key = ''KEY''" "ca = ''CERT''"
    by (auto simp: client_pair_def ca_certificate_def)
  with t(1,4) show ?thesis by blast
qed

end
