(* ===== verification/CA_Manifest_Work.thy ===== *)
theory CA_Manifest_Work
  imports Certificates Go_Text
begin

text \<open>
  \<open>internal/controller/manifest_work_management.go\<close>: the ManifestWork that carries the CA certificate of the hub to a managed
  cluster. The JSON form of a \<open>corev1.Secret\<close> is not part of the repository: \<open>json.Marshal\<close> and \<open>json.Unmarshal\<close> of it are the
  record \<open>secret_codec\<close>, with the round trip the code relies on as the locale \<open>secret_json\<close>.
\<close>

section \<open>Secrets as JSON\<close>

record secret_codec =
  marshal_secret :: "secret \<Rightarrow> raw result"
  unmarshal_secret :: "raw \<Rightarrow> secret result"

locale secret_json =
  fixes J :: secret_codec
  assumes round_trip: "marshal_secret J s = Inr doc \<Longrightarrow> doc \<noteq> RawNil \<and>
      (\<exists>t. unmarshal_secret J doc = Inr t \<and> m_name (sec_meta t) = m_name (sec_meta s) \<and>
         m_namespace (sec_meta t) = m_namespace (sec_meta s) \<and> sec_type t = sec_type s \<and> sec_data t = sec_data s)"

text \<open>An instance: the fields the program sets, the data in base64.\<close>

definition secret_doc :: "secret \<Rightarrow> json" where
  "secret_doc s = JObj [(''kind'', JStr ''Secret''), (''apiVersion'', JStr ''v1''),
     (''metadata'', JObj [(''name'', JStr (m_name (sec_meta s))), (''namespace'', JStr (m_namespace (sec_meta s)))]),
     (''data'', JObj (map (\<lambda>(k, v). (k, JStr (base64 v))) (sec_data s))), (''type'', JStr (sec_type s))]"

fun data_of_json :: "fields \<Rightarrow> string gomap result" where
  "data_of_json [] = Inr []"
| "data_of_json ((k, v) # rest) =
     (case Option.bind (as_string (Some v)) unbase64 of
        None \<Rightarrow> Inl (Plain ''cannot unmarshal'')
      | Some x \<Rightarrow> (case data_of_json rest of Inl e \<Rightarrow> Inl e | Inr d \<Rightarrow> Inr ((k, x) # d)))"

definition text_at :: "string list \<Rightarrow> json \<Rightarrow> string" where
  "text_at ks j = (case as_string (get_nested ks j) of None \<Rightarrow> '''' | Some s \<Rightarrow> s)"

fun secret_of_raw :: "raw \<Rightarrow> secret result" where
  "secret_of_raw (RawDoc j) =
     (case data_of_json (case as_map (get_nested [''data''] j) of None \<Rightarrow> [] | Some m \<Rightarrow> m) of
        Inl e \<Rightarrow> Inl e
      | Inr d \<Rightarrow> Inr \<lparr>sec_meta = new_meta (text_at [''metadata'', ''name''] j) (text_at [''metadata'', ''namespace''] j),
          sec_type = text_at [''type''] j, sec_data = d, sec_string_data = []\<rparr>)"
| "secret_of_raw _ = Inl (Plain ''invalid character'')"

definition plain_codec :: secret_codec where
  "plain_codec = \<lparr>marshal_secret = (\<lambda>s. Inr (RawDoc (secret_doc s))), unmarshal_secret = secret_of_raw\<rparr>"

lemma data_round_trip: "data_of_json (map (\<lambda>(k, v). (k, JStr (base64 v))) d) = Inr d"
  by (induction d) auto

interpretation plain_codec: secret_json plain_codec
  by unfold_locales (auto simp: plain_codec_def secret_doc_def data_round_trip text_at_def)

lemma plain_secret_json: "secret_json plain_codec"
  by (rule plain_codec.secret_json_axioms)

section \<open>The ManifestWork\<close>

definition ArgoCDAgentCAManifestWorkName :: string where
  "ArgoCDAgentCAManifestWorkName = ''argocd-agent-ca-mw''"
definition ArgoCDAgentPropagateCAAnnotation :: string where
  "ArgoCDAgentPropagateCAAnnotation = ''apps.open-cluster-management.io/propagate-argocd-agent-ca''"

definition isLocalCluster :: "managed_cluster \<Rightarrow> bool" where
  "isLocalCluster cluster = (m_name (mc_meta cluster) = ''local-cluster'')"

definition getArgoCDAgentCACertString :: "'w client \<Rightarrow> string \<Rightarrow> ('w, string result) state" where
  "getArgoCDAgentCACertString C namespace =
     bindE (wrapE ''failed to get ArgoCD agent CA secret'' (fetch as_secret C (Ref KSecret namespace ArgoCDAgentCASecretName))) (\<lambda>secret.
       case map_of (sec_data secret) ''tls.crt'' of
         None \<Rightarrow> ret (Inl (Plain ''tls.crt not found in ArgoCD agent CA secret''))
       | Some caCert \<Rightarrow> ret (Inr caCert))"

definition ca_secret :: "string \<Rightarrow> string \<Rightarrow> secret" where
  "ca_secret spokeArgoCDNamespace caCert =
     \<lparr>sec_meta = new_meta ArgoCDAgentCASecretName spokeArgoCDNamespace, sec_type = ''Opaque'',
      sec_data = [(''ca.crt'', caCert)], sec_string_data = []\<rparr>"

text \<open>A nil pointer when the Secret cannot be marshalled.\<close>

definition buildArgoCDAgentManifestWork :: "secret_codec \<Rightarrow> string \<Rightarrow> string \<Rightarrow> string \<Rightarrow> manifest_work option" where
  "buildArgoCDAgentManifestWork J managedClusterName spokeArgoCDNamespace caCert =
     (case marshal_secret J (ca_secret spokeArgoCDNamespace caCert) of
        Inl _ \<Rightarrow> None
      | Inr secretJSON \<Rightarrow> Some
          \<lparr>mw_meta = (new_meta ArgoCDAgentCAManifestWorkName managedClusterName)
             \<lparr>m_labels := [(''apps.open-cluster-management.io/gitopscluster'', ''true'')]\<rparr>,
           mw_spec = \<lparr>ws_manifests = [MRaw secretJSON], ws_configs = []\<rparr>, mw_feedback = []\<rparr>)"

text \<open>The certificate in the first manifest, if it is raw JSON of a Secret.\<close>

definition carried_cert :: "secret_codec \<Rightarrow> manifest_work \<Rightarrow> string option" where
  "carried_cert J existingMW =
     (case ws_manifests (mw_spec existingMW) of
        MRaw doc # _ \<Rightarrow>
          if doc = RawNil then None
          else (case unmarshal_secret J doc of Inl _ \<Rightarrow> None | Inr existingSecret \<Rightarrow> Some (mget (sec_data existingSecret) ''ca.crt''))
      | _ \<Rightarrow> None)"

definition certificate_changed :: "secret_codec \<Rightarrow> manifest_work \<Rightarrow> string \<Rightarrow> bool" where
  "certificate_changed J existingMW caCert =
     (case carried_cert J existingMW of None \<Rightarrow> False | Some existingCert \<Rightarrow> existingCert \<noteq> caCert)"

definition propagate :: "manifest_work \<Rightarrow> manifest_work" where
  "propagate mw = mw\<lparr>mw_meta := (mw_meta mw)\<lparr>m_annotations :=
     put ArgoCDAgentPropagateCAAnnotation ''true'' (m_annotations (mw_meta mw))\<rparr>\<rparr>"

lemma propagate_sel [simp]:
  "mw_spec (propagate mw) = mw_spec mw" "m_name (mw_meta (propagate mw)) = m_name (mw_meta mw)"
  "m_namespace (mw_meta (propagate mw)) = m_namespace (mw_meta mw)" "m_deletion (mw_meta (propagate mw)) = m_deletion (mw_meta mw)"
  "m_annotations (mw_meta (propagate mw)) = put ArgoCDAgentPropagateCAAnnotation ''true'' (m_annotations (mw_meta mw))"
  by (simp_all add: propagate_def)

definition store_ca_work :: "'w client \<Rightarrow> secret_codec \<Rightarrow> string \<Rightarrow> string \<Rightarrow> manifest_work \<Rightarrow> ('w, unit result) state" where
  "store_ca_work C J clusterName caCert manifestWork = do {
     r \<leftarrow> fetch as_work C (ref_of (OManifestWork manifestWork));
     (case r of
        Inl e \<Rightarrow>
          if is_not_found e then wrapE (''failed to create ManifestWork for cluster '' @ clusterName)
            (create C (OManifestWork (propagate manifestWork)))
          else ret (Inl (Wrapped (''failed to get ManifestWork for cluster '' @ clusterName) e))
      | Inr existingMW \<Rightarrow>
          if certificate_changed J existingMW caCert then
            wrapE (''failed to update ManifestWork for cluster '' @ clusterName)
              (update C (OManifestWork (propagate (existingMW\<lparr>mw_spec := mw_spec manifestWork\<rparr>))))
          else ret (Inr ())) }"

definition createArgoCDAgentManifestWork :: "'w client \<Rightarrow> secret_codec \<Rightarrow> string \<Rightarrow> string \<Rightarrow> managed_cluster \<Rightarrow> ('w, unit result) state" where
  "createArgoCDAgentManifestWork C J hubArgoCDNamespace spokeArgoCDNamespace managedCluster =
     (let name = m_name (mc_meta managedCluster) in
      if isLocalCluster managedCluster then ret (Inr ())
      else bindE (wrapE ''failed to get ArgoCD agent CA certificate'' (getArgoCDAgentCACertString C hubArgoCDNamespace)) (\<lambda>caCert.
        case buildArgoCDAgentManifestWork J name spokeArgoCDNamespace caCert of
          None \<Rightarrow> ret (Inl (Panic ''nil pointer dereference''))
        | Some manifestWork \<Rightarrow> store_ca_work C J name caCert manifestWork))"

section \<open>Lemmas\<close>

definition ca_work_ref :: "string \<Rightarrow> objref" where
  "ca_work_ref clusterName = Ref KManifestWork clusterName ArgoCDAgentCAManifestWorkName"

text \<open>A work that makes the Secret of the CA on the managed cluster.\<close>

definition delivers_ca :: "secret_codec \<Rightarrow> string \<Rightarrow> string \<Rightarrow> manifest_work \<Rightarrow> bool" where
  "delivers_ca J spokeArgoCDNamespace caCert mw = (\<exists>doc s. ws_manifests (mw_spec mw) = [MRaw doc] \<and>
     unmarshal_secret J doc = Inr s \<and> m_name (sec_meta s) = ArgoCDAgentCASecretName \<and>
     m_namespace (sec_meta s) = spokeArgoCDNamespace \<and> sec_data s = [(''ca.crt'', caCert)] \<and>
     mget (m_annotations (mw_meta mw)) ArgoCDAgentPropagateCAAnnotation = ''true'')"

text \<open>A work whose first manifest is a Secret with another certificate.\<close>

definition carries_other_ca :: "secret_codec \<Rightarrow> string \<Rightarrow> manifest_work \<Rightarrow> bool" where
  "carries_other_ca J caCert mw = (\<exists>doc rest s. ws_manifests (mw_spec mw) = MRaw doc # rest \<and> doc \<noteq> RawNil \<and>
     unmarshal_secret J doc = Inr s \<and> mget (sec_data s) ''ca.crt'' \<noteq> caCert)"

lemma certificate_changed_iff: "certificate_changed J mw caCert = carries_other_ca J caCert mw"
  by (auto simp: certificate_changed_def carried_cert_def carries_other_ca_def split: list.splits manifest.splits sum.splits)

text \<open>What a run leaves: the old work when it carries no other certificate, or one that delivers it.\<close>

definition ca_post :: "secret_codec \<Rightarrow> string \<Rightarrow> string \<Rightarrow> kobj option \<Rightarrow> kobj option \<Rightarrow> bool" where
  "ca_post J spoke caCert old new =
     (case old of
        Some (OManifestWork mw) \<Rightarrow>
          if carries_other_ca J caCert mw then (\<exists>mw'. new = Some (OManifestWork mw') \<and> delivers_ca J spoke caCert mw')
          else new = old
      | _ \<Rightarrow> (\<exists>mw'. new = Some (OManifestWork mw') \<and> delivers_ca J spoke caCert mw'))"

lemma built_delivers:
  assumes "secret_json J" "buildArgoCDAgentManifestWork J name spoke caCert = Some mw"
    and "mw_spec mw' = mw_spec mw" "mget (m_annotations (mw_meta mw')) ArgoCDAgentPropagateCAAnnotation = ''true''"
  shows "delivers_ca J spoke caCert mw'"
proof -
  from assms(2) obtain doc where doc: "marshal_secret J (ca_secret spoke caCert) = Inr doc" "ws_manifests (mw_spec mw) = [MRaw doc]"
    by (auto simp: buildArgoCDAgentManifestWork_def split: sum.splits)
  from secret_json.round_trip [OF assms(1) doc(1)] doc(2) assms(3,4) show ?thesis
    by (auto simp: delivers_ca_def ca_secret_def)
qed

lemma built_ref:
  "buildArgoCDAgentManifestWork J name spoke caCert = Some mw \<Longrightarrow>
     m_namespace (mw_meta mw) = name \<and> m_name (mw_meta mw) = ArgoCDAgentCAManifestWorkName"
  by (auto simp: buildArgoCDAgentManifestWork_def split: sum.splits)

context kube_api
begin

lemma wp_ca_cert:
  "wp (getArgoCDAgentCACertString C ns) (\<lambda>r w'. view w' = view w \<and>
     (\<forall>caCert. r = Inr caCert \<longrightarrow> (\<exists>s. view w (Ref KSecret ns ArgoCDAgentCASecretName) = Some (OSecret s) \<and>
        map_of (sec_data s) ''tls.crt'' = Some caCert))) w"
  unfolding getArgoCDAgentCACertString_def wp_bindE wp_wrapE
  by (rule wp_fetch) (auto simp: wp_simps split: option.splits)

lemma wp_store_ca_work:
  assumes "secret_json J" "buildArgoCDAgentManifestWork J name spoke caCert = Some mw"
    and "\<forall>x. view w (ca_work_ref name) = Some x \<longrightarrow> \<not> terminating x"
  shows "wp (store_ca_work C J name caCert mw) (\<lambda>r w'. only_touches view {ca_work_ref name} w w' \<and>
     (r = Inr () \<longrightarrow> ca_post J spoke caCert (view w (ca_work_ref name)) (view w' (ca_work_ref name)))) w"
    (is "wp _ ?Q w")
proof -
  have ref: "ref_of (OManifestWork mw) = ca_work_ref name"
    using built_ref [OF assms(2)] by (simp add: ca_work_ref_def)
  have new: "delivers_ca J spoke caCert y" if "work_like (propagate x) y" "mw_spec x = mw_spec mw" for x y
    by (rule built_delivers [OF assms(1,2)]) (use that in \<open>simp_all add: work_like_def gomap_simps\<close>)
  show ?thesis
    unfolding store_ca_work_def wp_bind ref
  proof (rule wp_fetch, goal_cases)
    case (1 x y w1)
    then have xy: "x = OManifestWork y" by simp
    have ref': "ref_of (OManifestWork (propagate (y\<lparr>mw_spec := mw_spec mw\<rparr>))) = ca_work_ref name"
      using view_ref [OF 1(2)] xy by simp
    have "m_deletion (mw_meta y) = None" using assms(3) 1(2) xy by (auto simp: terminating_def)
    then have "wp (update C (OManifestWork (propagate (y\<lparr>mw_spec := mw_spec mw\<rparr>)))) (\<lambda>r. ?Q (wrap_result msg r)) w1"
      if "certificate_changed J y caCert" for msg
      using 1 xy that
      by (intro wp_update_work)
        (auto simp: ref' only_touches_def ca_post_def certificate_changed_iff intro: new simp del: ref_of_simps)
    with 1 xy show ?case
      by (auto simp: wp_wrapE wp_ret only_touches_view ca_post_def certificate_changed_iff)
  next
    case (2 e w1)
    have ref': "ref_of (OManifestWork (propagate mw)) = ca_work_ref name" using ref by simp
    have "wp (create C (OManifestWork (propagate mw))) (\<lambda>r. ?Q (wrap_result msg r)) w1" if "is_not_found e" for msg
      using 2 that
      by (intro wp_create_work)
        (auto simp: ref' only_touches_def ca_post_def intro: new simp del: ref_of_simps)
    with 2 show ?case by (auto simp: wp_wrapE wp_ret only_touches_view)
  qed
qed

end


lemma wp_createArgoCDAgentManifestWork:
  assumes "kube_api C view" and "secret_json J" and "m_name (mc_meta cluster) = name"
    and "\<forall>x. view w (ca_work_ref name) = Some x \<longrightarrow> \<not> terminating x"
  shows "wp (createArgoCDAgentManifestWork C J hub spoke cluster) (\<lambda>r w'. (\<forall>q. q \<noteq> ca_work_ref name \<longrightarrow> view w' q = view w q) \<and>
     (if name = ''local-cluster'' then r = Inr () \<and> view w' = view w
      else r = Inr () \<longrightarrow> (\<exists>s caCert. view w (Ref KSecret hub ArgoCDAgentCASecretName) = Some (OSecret s) \<and>
        map_of (sec_data s) ''tls.crt'' = Some caCert \<and>
        ca_post J spoke caCert (view w (ca_work_ref name)) (view w' (ca_work_ref name))))) w"
    (is "wp _ ?P w")
proof -
  have store: "wp (store_ca_work C J name caCert mw) (\<lambda>r w2. ?P r w2) w1"
    if "view w1 = view w" "buildArgoCDAgentManifestWork J name spoke caCert = Some mw"
      "view w (Ref KSecret hub ArgoCDAgentCASecretName) = Some (OSecret s)" "map_of (sec_data s) ''tls.crt'' = Some caCert"
      "name \<noteq> ''local-cluster''" for w1 caCert mw s
    by (rule wp_mono [OF kube_api.wp_store_ca_work [OF assms(1,2) that(2)]])
      (use that assms(4) in \<open>auto simp: only_touches_def\<close>)
  show ?thesis
  proof (cases "name = ''local-cluster''")
    case True
    with assms(3) show ?thesis by (simp add: createArgoCDAgentManifestWork_def isLocalCluster_def wp_ret)
  next
    case False
    then have no: "\<not> isLocalCluster cluster" using assms(3) by (simp add: isLocalCluster_def)
    show ?thesis
      unfolding createArgoCDAgentManifestWork_def Let_def assms(3) if_not_P [OF no] wp_bindE wp_wrapE
      by (rule wp_mono [OF kube_api.wp_ca_cert [OF assms(1)]])
        (use False store in \<open>auto simp: wp_option wp_ret wrap_result_def split: sum.splits option.splits\<close>)
  qed
qed

section \<open>Properties\<close>

text \<open>
  C21: createArgoCDAgentManifestWork touches the CA work of the cluster only, and nothing for
  local-cluster; after a success the work, which was not already being deleted, delivers the
  certificate of the hub, unless a work that carries this certificate already, or no readable
  certificate, is there: that one is left as it is.
\<close>

theorem ca_certificate_delivered:
  assumes "kube_api C view" and "secret_json J" and "m_name (mc_meta cluster) = name"
    and "\<forall>x. view w (ca_work_ref name) = Some x \<longrightarrow> \<not> terminating x"
    and "run_state (createArgoCDAgentManifestWork C J hub spoke cluster) w = (r, w')"
  shows "(\<forall>q. q \<noteq> ca_work_ref name \<longrightarrow> view w' q = view w q) \<and>
     (if name = ''local-cluster'' then r = Inr () \<and> view w' = view w
      else r = Inr () \<longrightarrow> (\<exists>s caCert. view w (Ref KSecret hub ArgoCDAgentCASecretName) = Some (OSecret s) \<and>
        map_of (sec_data s) ''tls.crt'' = Some caCert \<and>
        ca_post J spoke caCert (view w (ca_work_ref name)) (view w' (ca_work_ref name))))"
  by (rule wp_run [OF wp_createArgoCDAgentManifestWork [OF assms(1-4)] assms(5)])

text \<open>A renewed CA reaches a cluster that has the old one.\<close>

definition example_old_ca_work :: manifest_work where
  "example_old_ca_work = \<lparr>mw_meta = new_meta ArgoCDAgentCAManifestWorkName ''cluster1'',
     mw_spec = \<lparr>ws_manifests = [MRaw (RawDoc (secret_doc (ca_secret ''argocd'' ''OLD'')))], ws_configs = []\<rparr>, mw_feedback = []\<rparr>"

definition example_ca_world :: mem where
  "example_ca_world = mem_of [issued_secret ''hub'' ArgoCDAgentCASecretName, OManifestWork example_old_ca_work]"

theorem ca_certificate_delivered_witness:
  "\<exists>mw. mem_view (snd (run_state (createArgoCDAgentManifestWork mem_client plain_codec ''hub'' ''argocd''
       \<lparr>mc_meta = new_meta ''cluster1'' ''''\<rparr>) example_ca_world)) (ca_work_ref ''cluster1'') = Some (OManifestWork mw) \<and>
     delivers_ca plain_codec ''argocd'' ''CERT'' mw"
proof -
  let ?c = "\<lparr>mc_meta = new_meta ''cluster1'' ''''\<rparr>"
  let ?run = "run_state (createArgoCDAgentManifestWork mem_client plain_codec ''hub'' ''argocd'' ?c) example_ca_world"
  have ok: "fst ?run = Inr ()" by code_simp
  have old: "mem_view example_ca_world (ca_work_ref ''cluster1'') = Some (OManifestWork example_old_ca_work)" by code_simp
  have ch: "certificate_changed plain_codec example_old_ca_work ''CERT''" by code_simp
  have ca: "map_option (\<lambda>x. map_option sec_data (as_secret x)) (mem_view example_ca_world (Ref KSecret ''hub'' ArgoCDAgentCASecretName)) =
      Some (Some [(''tls.crt'', ''CERT''), (''tls.key'', ''KEY'')])" by code_simp
  have live: "\<forall>x. mem_view example_ca_world (ca_work_ref ''cluster1'') = Some x \<longrightarrow> \<not> terminating x"
    unfolding old by (simp add: terminating_def example_old_ca_work_def)
  from ca_certificate_delivered [OF mem_kube_api, OF plain_secret_json, OF _ live, of ?c "''hub''" "''argocd''" "fst ?run" "snd ?run"]
    ok ca ch [unfolded certificate_changed_iff] old
  show ?thesis unfolding prod.collapse by (auto simp: ca_post_def)
qed

end
