(* ===== verification/CR_Manifest_Work.thy ===== *)
theory CR_Manifest_Work
  imports CA_Manifest_Work Addon_Management
begin

text \<open>
  \<open>internal/controller/argocd_cr_manifest_work.go\<close>: the ManifestWork that delivers the ArgoCD custom resource to a managed cluster,
  with the default resource, the injection of the server endpoint into a resource of the user, and its validation. The
  Kubernetes functions on unstructured objects and SHA-256 are the record \<open>cr_lib\<close>.
\<close>

section \<open>Documents\<close>

text \<open>\<open>m, ok := obj[k].(map[string]interface{})\<close>, a new map when it is not one.\<close>

definition map_at :: "string \<Rightarrow> fields \<Rightarrow> fields" where
  "map_at k obj = (case as_map (map_of obj k) of Some m \<Rightarrow> m | None \<Rightarrow> [])"

text \<open>A change in a nested map, with the maps on the way to it made when they are missing.\<close>

fun modify_at :: "string list \<Rightarrow> (fields \<Rightarrow> fields) \<Rightarrow> fields \<Rightarrow> fields" where
  "modify_at [] f m = f m"
| "modify_at (k # ks) f m = put k (JObj (modify_at ks f (map_at k m))) m"

fun maps_at :: "string list \<Rightarrow> fields \<Rightarrow> fields" where
  "maps_at [] m = m"
| "maps_at (k # ks) m = maps_at ks (map_at k m)"

lemma get_nested_append:
  "get_nested (ks @ ks') j = Option.bind (get_nested ks j) (get_nested ks')"
  by (induction ks j rule: get_nested.induct) (auto split: option.splits)

lemma get_nested_modify_at: "get_nested (ks @ [k]) (JObj (modify_at ks f m)) = map_of (f (maps_at ks m)) k"
  by (induction ks arbitrary: m) (auto simp: gomap_simps split: option.splits)

lemma get_nested_map_at:
  "ks \<noteq> [] \<Longrightarrow> (case map_of m k of None \<Rightarrow> None | Some j \<Rightarrow> get_nested ks j) = get_nested ks (JObj (map_at k m))"
  by (cases "map_of m k" rule: as_map.cases; cases ks) (auto simp: map_at_def)

lemma modify_at_other:
  "parallel ks ks' \<Longrightarrow> get_nested ks' (JObj (modify_at ks f m)) = get_nested ks' (JObj m)"
proof (induction ks arbitrary: ks' m)
  case (Cons k ks)
  then obtain a as where ks': "ks' = a # as" by (cases ks') (auto simp: parallel_def)
  show ?case
  proof (cases "a = k")
    case True
    with Cons.prems ks' have par: "parallel ks as" by (auto simp: parallel_def)
    then have "as \<noteq> []" by (auto simp: parallel_def)
    with Cons.IH [OF par, of "map_at k m"] True ks' show ?thesis
      by (simp add: gomap_simps get_nested_map_at)
  next
    case False
    with ks' show ?thesis by (simp add: gomap_simps)
  qed
qed (simp add: parallel_def)

text \<open>Below the changed map, keys the change leaves alone.\<close>

lemma modify_at_below:
  "(\<And>m. map_of (f m) a = map_of m a) \<Longrightarrow>
   get_nested (ks @ a # as) (JObj (modify_at ks f m)) = get_nested (ks @ a # as) (JObj m)"
proof (induction ks arbitrary: m)
  case (Cons k ks)
  with Cons.IH [OF Cons.prems, of "map_at k m"] show ?case by (simp add: gomap_simps get_nested_map_at)
qed simp

lemma map_of_filter_hd: "map_of m k = map_option snd (find (\<lambda>p. fst p = k) m)"
  by (induction m) auto

lemma find_filter_hd: "find P xs = (case filter P xs of [] \<Rightarrow> None | x # _ \<Rightarrow> Some x)"
  by (induction xs) auto

lemma map_of_sort_key: "map_of (sort_key fst m) k = map_of m k" for m :: "(string \<times> 'a) list"
  by (simp add: map_of_filter_hd find_filter_hd sort_key_stable)

text \<open>Writing a document sorts its keys and changes nothing else.\<close>

lemma map_of_map_prod: "map_of (map (map_prod id f) m) k = map_option f (map_of m k)"
  by (induction m) auto

lemma get_nested_canon: "get_nested ks (json_canon j) = map_option json_canon (get_nested ks j)"
  by (induction ks j rule: get_nested.induct)
    (auto simp: map_of_sort_key map_of_map_prod split: option.splits)

section \<open>The library\<close>

record cr_lib =
  unmarshal_unstr :: "raw \<Rightarrow> fields result"
  nested_string :: "string list \<Rightarrow> fields \<Rightarrow> string option result"
  set_nested_field :: "json \<Rightarrow> string list \<Rightarrow> fields \<Rightarrow> fields result"
  sha256_hex :: "string \<Rightarrow> string"

definition get_text :: "string \<Rightarrow> fields \<Rightarrow> string" where
  "get_text k obj = (case as_string (map_of obj k) of Some s \<Rightarrow> s | None \<Rightarrow> '''')"

definition is_argocd_cr :: "fields \<Rightarrow> bool" where
  "is_argocd_cr obj = (get_text ''apiVersion'' obj = ''argoproj.io/v1beta1'' \<and> get_text ''kind'' obj = ''ArgoCD'')"

section \<open>The name of the work\<close>

definition ArgoCDCRManifestWorkPrefix :: string where
  "ArgoCDCRManifestWorkPrefix = ''argocd-agent-cr''"
definition AnnotationDisableAgentImageSync :: string where
  "AnnotationDisableAgentImageSync = ''apps.open-cluster-management.io/disable-agent-image-sync''"

definition getArgoCDCRManifestWorkName :: "(string \<Rightarrow> string) \<Rightarrow> string \<Rightarrow> string \<Rightarrow> string" where
  "getArgoCDCRManifestWorkName sha gitOpsClusterNamespace gitOpsClusterName =
     (let name = ArgoCDCRManifestWorkPrefix @ ''-'' @ gitOpsClusterNamespace @ ''-'' @ gitOpsClusterName in
      if length name \<le> 63 then name
      else take (63 - 9) name @ ''-'' @ take 8 (sha name))"

section \<open>The endpoint in a resource of the user\<close>

definition put_if_blank :: "string \<Rightarrow> string \<Rightarrow> fields \<Rightarrow> fields" where
  "put_if_blank k v m = (case as_string (map_of m k) of
     Some existing \<Rightarrow> if existing = '''' then put k (JStr v) m else m
   | None \<Rightarrow> put k (JStr v) m)"

text \<open>The structured path when the resource has an agent section, else \<open>spec.extraConfig\<close>.\<close>

definition inject_endpoint :: "string \<Rightarrow> string \<Rightarrow> fields \<Rightarrow> fields" where
  "inject_endpoint serverAddress serverPort obj =
     (case Option.bind (as_map (map_of (map_at ''spec'' obj) ''argoCDAgent'')) (\<lambda>argoCDAgent. as_map (map_of argoCDAgent ''agent'')) of
        Some agent \<Rightarrow> modify_at [''spec'', ''argoCDAgent'', ''agent'', ''client''] (\<lambda>client.
          put_if_blank ''principalServerPort'' serverPort (put_if_blank ''principalServerAddress'' serverAddress client)) obj
      | None \<Rightarrow> modify_at [''spec'', ''extraConfig''] (\<lambda>extraConfig.
          put_if_blank ''agent.principal.server.port'' serverPort
            (put_if_blank ''agent.principal.server.address'' serverAddress extraConfig)) obj)"

definition injectServerEndpoint :: "(raw \<Rightarrow> fields result) \<Rightarrow> raw \<Rightarrow> string \<Rightarrow> string \<Rightarrow> raw result" where
  "injectServerEndpoint unmarshal doc serverAddress serverPort =
     (if doc = RawNil then Inl (Plain ''nil raw data'')
      else case unmarshal doc of
        Inl e \<Rightarrow> Inl e
      | Inr obj \<Rightarrow> if \<not> is_argocd_cr obj then Inr doc
          else Inr (json_marshal (inject_endpoint serverAddress serverPort obj)))"

section \<open>Validation\<close>

fun validate_manifests :: "(raw \<Rightarrow> fields result) \<Rightarrow> int \<Rightarrow> raw list \<Rightarrow> bool \<Rightarrow> unit result" where
  "validate_manifests unmarshal i [] foundArgoCDCR =
     (if \<not> foundArgoCDCR then Inl (Plain (''argoCDCRManifestWork.manifests must contain at least one ArgoCD CR '' @
        ''(apiVersion: argoproj.io/v1beta1, kind: ArgoCD)''))
      else Inr ())"
| "validate_manifests unmarshal i (doc # rest) foundArgoCDCR =
     (if doc = RawNil then Inl (Plain (''manifest at index '' @ itoa i @ '' has nil raw data''))
      else case unmarshal doc of
        Inl e \<Rightarrow> Inl (Wrapped (''failed to unmarshal manifest at index '' @ itoa i) e)
      | Inr obj \<Rightarrow> validate_manifests unmarshal (i + 1) rest (foundArgoCDCR \<or> is_argocd_cr obj))"

definition validateArgoCDCRManifestWork :: "(raw \<Rightarrow> fields result) \<Rightarrow> raw list option \<Rightarrow> unit result" where
  "validateArgoCDCRManifestWork unmarshal spec =
     (case spec of
        None \<Rightarrow> Inr ()
      | Some manifests \<Rightarrow>
          if length manifests = 0 then Inl (Plain ''argoCDCRManifestWork.manifests must contain at least one manifest'')
          else validate_manifests unmarshal 0 manifests False)"

section \<open>The default resource\<close>

definition default_cr :: "string \<Rightarrow> string \<Rightarrow> string \<Rightarrow> string \<Rightarrow> fields" where
  "default_cr spokeArgoCDNamespace serverAddress serverPort mode =
     [(''apiVersion'', JStr ''argoproj.io/v1beta1''), (''kind'', JStr ''ArgoCD''),
      (''metadata'', JObj [(''name'', JStr ''argocd''), (''namespace'', JStr spokeArgoCDNamespace)]),
      (''spec'', JObj [
        (''server'', JObj [(''enabled'', JBool False)]),
        (''sourceNamespaces'', JArr [JStr ''*'']),
        (''argoCDAgent'', JObj [(''agent'', JObj [
          (''enabled'', JBool True),
          (''allowedNamespaces'', JArr [JStr ''*'']),
          (''creds'', JStr ''mtls:open-cluster-management:cluster:([^:]+):addon:argocd-agent''),
          (''logLevel'', JStr ''info''), (''logFormat'', JStr ''text''),
          (''client'', JObj [(''principalServerAddress'', JStr serverAddress), (''principalServerPort'', JStr serverPort),
            (''mode'', JStr mode), (''enableWebSocket'', JBool False), (''enableCompression'', JBool False),
            (''keepAliveInterval'', JStr ''50s'')]),
          (''tls'', JObj [
            (''secretName'', JStr ''argocd-agent-open-cluster-management.io-argocd-agent-addon-client-cert''),
            (''rootCASecretName'', JStr ''argocd-agent-ca''), (''insecure'', JBool False)]),
          (''redis'', JObj [(''serverAddress'', JStr ''argocd-redis:6379'')])])])])]"

text \<open>\<open>_ = unstructured.SetNestedField(...)\<close>: an error leaves the object as it is.\<close>

definition set_or_keep :: "cr_lib \<Rightarrow> json \<Rightarrow> string list \<Rightarrow> fields \<Rightarrow> fields" where
  "set_or_keep L v ks obj = (case set_nested_field L v ks obj of Inl _ \<Rightarrow> obj | Inr obj' \<Rightarrow> obj')"

definition agent_image :: "cr_lib \<Rightarrow> 'w client \<Rightarrow> gitops_cluster \<Rightarrow> ('w, string) state" where
  "agent_image L C gitOpsCluster =
     (if mget (m_annotations (gc_meta gitOpsCluster)) AnnotationDisableAgentImageSync = ''true'' then ret ''''
      else do {
        r \<leftarrow> discoverPrincipalImage (nested_string L) C (m_namespace (gc_meta gitOpsCluster));
        ret (case r of Inl _ \<Rightarrow> '''' | Inr img \<Rightarrow> img) })"

definition addon_mode :: "gitops_cluster \<Rightarrow> string" where
  "addon_mode gitOpsCluster =
     (if Mode (ArgoCDAgentAddon (gc_spec gitOpsCluster)) = '''' then ''managed'' else Mode (ArgoCDAgentAddon (gc_spec gitOpsCluster)))"

definition complete_cr :: "cr_lib \<Rightarrow> string \<Rightarrow> string \<Rightarrow> fields \<Rightarrow> fields" where
  "complete_cr L agentImage mode cr =
     (let cr = (if agentImage \<noteq> '''' then set_or_keep L (JStr agentImage) [''spec'', ''argoCDAgent'', ''agent'', ''image''] cr else cr)
      in if mode \<noteq> ''autonomous'' then
           set_or_keep L (JObj [(''enabled'', JBool True), (''createNamespace'', JBool True)])
             [''spec'', ''argoCDAgent'', ''agent'', ''destinationBasedMapping''] cr
         else cr)"

definition buildDefaultArgoCDCR :: "cr_lib \<Rightarrow> 'w client \<Rightarrow> gitops_cluster \<Rightarrow> string \<Rightarrow> string \<Rightarrow> string \<Rightarrow> ('w, fields) state" where
  "buildDefaultArgoCDCR L C gitOpsCluster spokeArgoCDNamespace serverAddress serverPort = do {
     let mode = addon_mode gitOpsCluster;
     agentImage \<leftarrow> agent_image L C gitOpsCluster;
     ret (complete_cr L agentImage mode (default_cr spokeArgoCDNamespace serverAddress serverPort mode)) }"

section \<open>The work\<close>

definition agent_namespace :: "gitops_cluster \<Rightarrow> string" where
  "agent_namespace gitOpsCluster =
     (if AgentNamespace (ArgoCDAgentAddon (gc_spec gitOpsCluster)) \<noteq> ''''
      then AgentNamespace (ArgoCDAgentAddon (gc_spec gitOpsCluster)) else ''argocd'')"

definition inject_or_keep :: "cr_lib \<Rightarrow> string \<Rightarrow> string \<Rightarrow> raw \<Rightarrow> manifest" where
  "inject_or_keep L serverAddress serverPort rawExt =
     (case injectServerEndpoint (unmarshal_unstr L) rawExt serverAddress serverPort of
        Inl _ \<Rightarrow> MRaw rawExt | Inr injectedRaw \<Rightarrow> MRaw injectedRaw)"

definition cr_manifests :: "cr_lib \<Rightarrow> 'w client \<Rightarrow> gitops_cluster \<Rightarrow> string \<Rightarrow> string \<Rightarrow> ('w, manifest list) state" where
  "cr_manifests L C gitOpsCluster serverAddress serverPort =
     (case ArgoCDCRManifestWork (ArgoCDAgentAddon (gc_spec gitOpsCluster)) of
        Some manifests \<Rightarrow> ret (map (inject_or_keep L serverAddress serverPort) manifests)
      | None \<Rightarrow> do {
          defaultCR \<leftarrow> buildDefaultArgoCDCR L C gitOpsCluster (agent_namespace gitOpsCluster) serverAddress serverPort;
          ret [MRaw (json_marshal defaultCR)] })"

definition cr_labels :: "string gomap" where
  "cr_labels = [(''apps.open-cluster-management.io/gitopscluster'', ''true''),
     (''app.kubernetes.io/managed-by'', ''argocd-pull-integration''), (''app.kubernetes.io/component'', ''argocd-cr'')]"

definition cr_work :: "string \<Rightarrow> string \<Rightarrow> manifest list \<Rightarrow> manifest_work" where
  "cr_work manifestWorkName clusterName manifests =
     \<lparr>mw_meta = (new_meta manifestWorkName clusterName)\<lparr>m_labels := cr_labels\<rparr>,
      mw_spec = \<lparr>ws_manifests = manifests, ws_configs = []\<rparr>, mw_feedback = []\<rparr>"

definition cr_work_outdated :: "manifest_work \<Rightarrow> manifest_work \<Rightarrow> bool" where
  "cr_work_outdated existing manifestWork =
     (mw_spec existing \<noteq> mw_spec manifestWork \<or>
      list_ex (\<lambda>(k, v). mget (m_labels (mw_meta existing)) k \<noteq> v) (m_labels (mw_meta manifestWork)))"

definition refresh_cr_work :: "manifest_work \<Rightarrow> manifest_work \<Rightarrow> manifest_work" where
  "refresh_cr_work existing manifestWork = existing\<lparr>mw_spec := mw_spec manifestWork,
     mw_meta := (mw_meta existing)\<lparr>m_labels := put_all (m_labels (mw_meta manifestWork)) (m_labels (mw_meta existing))\<rparr>\<rparr>"

definition store_cr_work :: "'w client \<Rightarrow> string \<Rightarrow> manifest_work \<Rightarrow> ('w, unit result) state" where
  "store_cr_work C clusterName manifestWork = do {
     r \<leftarrow> fetch as_work C (ref_of (OManifestWork manifestWork));
     (case r of
        Inl e \<Rightarrow>
          if is_not_found e then wrapE (''failed to create ArgoCD CR ManifestWork for cluster '' @ clusterName)
            (create C (OManifestWork manifestWork))
          else ret (Inl (Wrapped (''failed to get ArgoCD CR ManifestWork for cluster '' @ clusterName) e))
      | Inr existing \<Rightarrow>
          if \<not> cr_work_outdated existing manifestWork then ret (Inr ())
          else wrapE (''failed to update ArgoCD CR ManifestWork for cluster '' @ clusterName)
            (update C (OManifestWork (refresh_cr_work existing manifestWork)))) }"

definition createArgoCDCRManifestWork :: "cr_lib \<Rightarrow> 'w client \<Rightarrow> gitops_cluster \<Rightarrow> managed_cluster \<Rightarrow> string \<Rightarrow> string \<Rightarrow>
    ('w, unit result) state" where
  "createArgoCDCRManifestWork L C gitOpsCluster managedCluster serverAddress serverPort =
     (let clusterName = m_name (mc_meta managedCluster);
          manifestWorkName = getArgoCDCRManifestWorkName (sha256_hex L) (m_namespace (gc_meta gitOpsCluster)) (m_name (gc_meta gitOpsCluster))
      in if isLocalCluster managedCluster then ret (Inr ())
         else do {
           manifests \<leftarrow> cr_manifests L C gitOpsCluster serverAddress serverPort;
           store_cr_work C clusterName (cr_work manifestWorkName clusterName manifests) })"

definition deleteArgoCDCRManifestWork :: "cr_lib \<Rightarrow> 'w client \<Rightarrow> string \<Rightarrow> string \<Rightarrow> string \<Rightarrow> ('w, unit result) state" where
  "deleteArgoCDCRManifestWork L C clusterName gitOpsClusterNamespace gitOpsClusterName = do {
     r \<leftarrow> fetch as_work C (Ref KManifestWork clusterName
           (getArgoCDCRManifestWorkName (sha256_hex L) gitOpsClusterNamespace gitOpsClusterName));
     (case r of
        Inl e \<Rightarrow> if is_not_found e then ret (Inr ()) else ret (Inl (Wrapped ''failed to get ArgoCD CR ManifestWork'' e))
      | Inr manifestWork \<Rightarrow> do {
          d \<leftarrow> delete_obj C (OManifestWork manifestWork);
          (case d of
             Inl e \<Rightarrow> if \<not> is_not_found e then ret (Inl (Wrapped ''failed to delete ArgoCD CR ManifestWork'' e)) else ret (Inr ())
           | Inr _ \<Rightarrow> ret (Inr ())) }) }"


section \<open>Lemmas\<close>

lemma put_if_blank_same:
  "map_of (put_if_blank k v m) k = (case as_string (map_of m k) of
     Some s \<Rightarrow> Some (JStr (if s = '''' then v else s)) | None \<Rightarrow> Some (JStr v))"
  by (auto simp: put_if_blank_def gomap_simps split: option.splits)

lemma put_if_blank_other: "k' \<noteq> k \<Longrightarrow> map_of (put_if_blank k v m) k' = map_of m k'"
  by (auto simp: put_if_blank_def gomap_simps split: option.splits)

text \<open>The value under a key after the injection: a text of the user that is not empty wins.\<close>

definition chosen :: "json option \<Rightarrow> string \<Rightarrow> string" where
  "chosen given discovered = (case as_string given of None \<Rightarrow> discovered | Some s \<Rightarrow> if s = '''' then discovered else s)"

lemma maps_at_get: "ks \<noteq> [] \<Longrightarrow> get_nested ks (JObj (maps_at path m)) = get_nested (path @ ks) (JObj m)"
  by (induction path arbitrary: m) (auto simp: get_nested_map_at)

lemma inject_pair:
  fixes path :: "string list" and m :: fields and ka kp a p :: string
  defines "m' \<equiv> modify_at path (\<lambda>x. put_if_blank kp p (put_if_blank ka a x)) m"
  assumes "ka \<noteq> kp"
  shows "get_nested (path @ [ka]) (JObj m') = Some (JStr (chosen (get_nested (path @ [ka]) (JObj m)) a))"
    and "get_nested (path @ [kp]) (JObj m') = Some (JStr (chosen (get_nested (path @ [kp]) (JObj m)) p))"
    and "parallel (path @ [ka]) ks \<Longrightarrow> parallel (path @ [kp]) ks \<Longrightarrow> get_nested ks (JObj m') = get_nested ks (JObj m)"
proof -
  have old: "map_of (maps_at path m) k = get_nested (path @ [k]) (JObj m)" for k
    using maps_at_get [of "[k]" path m] by (simp split: option.splits)
  show "get_nested (path @ [ka]) (JObj m') = Some (JStr (chosen (get_nested (path @ [ka]) (JObj m)) a))"
    using assms(2) unfolding m'_def get_nested_modify_at
    by (simp add: put_if_blank_other put_if_blank_same chosen_def old split: option.splits)
  show "get_nested (path @ [kp]) (JObj m') = Some (JStr (chosen (get_nested (path @ [kp]) (JObj m)) p))"
    using assms(2) unfolding m'_def get_nested_modify_at
    by (simp add: put_if_blank_other put_if_blank_same chosen_def old split: option.splits)
  assume par: "parallel (path @ [ka]) ks" "parallel (path @ [kp]) ks"
  show "get_nested ks (JObj m') = get_nested ks (JObj m)"
  proof (cases "prefix path ks")
    case True
    then obtain zs where zs: "ks = path @ zs" by (auto simp: prefix_def)
    with par(1) have "zs \<noteq> []" by (auto simp: parallel_def)
    then obtain b bs where ks: "ks = path @ b # bs" using zs by (cases zs) auto
    with par have "b \<noteq> ka" "b \<noteq> kp" by (auto simp: parallel_def)
    then show ?thesis unfolding m'_def ks by (intro modify_at_below) (simp add: put_if_blank_other)
  next
    case False
    with par(1) have "parallel path ks" using prefix_order.trans [of ks path "path @ [ka]"] by (auto simp: parallel_def)
    then show ?thesis unfolding m'_def by (rule modify_at_other)
  qed
qed

text \<open>Where the endpoint goes, and under which keys.\<close>

definition endpoint_paths :: "fields \<Rightarrow> string list \<times> string list" where
  "endpoint_paths obj =
     (case as_map (get_nested [''spec'', ''argoCDAgent'', ''agent''] (JObj obj)) of
        Some _ \<Rightarrow> ([''spec'', ''argoCDAgent'', ''agent'', ''client'', ''principalServerAddress''],
                   [''spec'', ''argoCDAgent'', ''agent'', ''client'', ''principalServerPort''])
      | None \<Rightarrow> ([''spec'', ''extraConfig'', ''agent.principal.server.address''],
                 [''spec'', ''extraConfig'', ''agent.principal.server.port'']))"

lemma agent_section:
  "Option.bind (as_map (map_of (map_at ''spec'' obj) ''argoCDAgent'')) (\<lambda>argoCDAgent. as_map (map_of argoCDAgent ''agent'')) =
   as_map (get_nested [''spec'', ''argoCDAgent'', ''agent''] (JObj obj))"
  by (cases "map_of obj ''spec''" rule: as_map.cases; cases "map_of (map_at ''spec'' obj) ''argoCDAgent''" rule: as_map.cases)
    (auto simp: map_at_def split: option.splits)

lemma inject_endpoint_spec:
  assumes "endpoint_paths obj = (pa, pp)"
  shows "get_nested pa (JObj (inject_endpoint a p obj)) = Some (JStr (chosen (get_nested pa (JObj obj)) a))"
    and "get_nested pp (JObj (inject_endpoint a p obj)) = Some (JStr (chosen (get_nested pp (JObj obj)) p))"
    and "parallel pa ks \<Longrightarrow> parallel pp ks \<Longrightarrow> get_nested ks (JObj (inject_endpoint a p obj)) = get_nested ks (JObj obj)"
proof -
  note client = inject_pair [of "''principalServerAddress''" "''principalServerPort''"
      "[''spec'', ''argoCDAgent'', ''agent'', ''client'']", unfolded append_Cons append_Nil]
  note extra = inject_pair [of "''agent.principal.server.address''" "''agent.principal.server.port''"
      "[''spec'', ''extraConfig'']", unfolded append_Cons append_Nil]
  have "get_nested pa (JObj (inject_endpoint a p obj)) = Some (JStr (chosen (get_nested pa (JObj obj)) a)) \<and>
    get_nested pp (JObj (inject_endpoint a p obj)) = Some (JStr (chosen (get_nested pp (JObj obj)) p)) \<and>
    (parallel pa ks \<longrightarrow> parallel pp ks \<longrightarrow> get_nested ks (JObj (inject_endpoint a p obj)) = get_nested ks (JObj obj))"
  proof (cases "as_map (get_nested [''spec'', ''argoCDAgent'', ''agent''] (JObj obj))")
    case None
    with assms have paths: "pa = [''spec'', ''extraConfig'', ''agent.principal.server.address'']"
      "pp = [''spec'', ''extraConfig'', ''agent.principal.server.port'']" by (simp_all add: endpoint_paths_def)
    have inj: "inject_endpoint a p obj = modify_at [''spec'', ''extraConfig''] (\<lambda>extraConfig.
        put_if_blank ''agent.principal.server.port'' p (put_if_blank ''agent.principal.server.address'' a extraConfig)) obj"
      unfolding inject_endpoint_def agent_section None by simp
    show ?thesis unfolding paths inj by (intro conjI impI; rule extra; simp)
  next
    case (Some agent)
    with assms have paths: "pa = [''spec'', ''argoCDAgent'', ''agent'', ''client'', ''principalServerAddress'']"
      "pp = [''spec'', ''argoCDAgent'', ''agent'', ''client'', ''principalServerPort'']" by (simp_all add: endpoint_paths_def)
    have inj: "inject_endpoint a p obj = modify_at [''spec'', ''argoCDAgent'', ''agent'', ''client''] (\<lambda>client.
        put_if_blank ''principalServerPort'' p (put_if_blank ''principalServerAddress'' a client)) obj"
      unfolding inject_endpoint_def agent_section Some by simp
    show ?thesis unfolding paths inj by (intro conjI impI; rule client; simp)
  qed
  then show "get_nested pa (JObj (inject_endpoint a p obj)) = Some (JStr (chosen (get_nested pa (JObj obj)) a))"
    "get_nested pp (JObj (inject_endpoint a p obj)) = Some (JStr (chosen (get_nested pp (JObj obj)) p))"
    "parallel pa ks \<Longrightarrow> parallel pp ks \<Longrightarrow> get_nested ks (JObj (inject_endpoint a p obj)) = get_nested ks (JObj obj)"
    by blast+
qed


text \<open>Validation finds what it looks for.\<close>

lemma validate_manifests_ok:
  "validate_manifests u i docs found = Inr () \<longleftrightarrow>
     (\<forall>doc \<in> set docs. doc \<noteq> RawNil \<and> (\<exists>obj. u doc = Inr obj)) \<and>
     (found \<or> (\<exists>doc \<in> set docs. \<exists>obj. u doc = Inr obj \<and> is_argocd_cr obj))"
  by (induction u i docs found rule: validate_manifests.induct) (auto split: sum.splits)

lemma set_or_keep_default:
  assumes "nested_fields (set_nested_field L)" "\<exists>m'. set_nested_field L v ks m = Inr m'"
  shows "get_nested ks (JObj (set_or_keep L v ks m)) = Some v"
    "parallel ks ks' \<Longrightarrow> get_nested ks' (JObj (set_or_keep L v ks m)) = get_nested ks' (JObj m)"
  using assms(2) nested_fields.set_same [OF assms(1)] nested_fields.set_other [OF assms(1)]
  by (auto simp: set_or_keep_def split: sum.splits)

lemma get_nested_inner:
  assumes "get_nested (ks @ k # ks') j = Some x"
  shows "\<exists>m. get_nested ks j = Some (JObj m)"
proof -
  from assms obtain y where "get_nested ks j = Some y" "get_nested (k # ks') y = Some x"
    by (auto simp: get_nested_append bind_eq_Some_conv)
  then show ?thesis by (cases y) auto
qed

lemma set_or_keep_total:
  assumes "nested_fields (set_nested_field L)" "get_nested [''spec'', ''argoCDAgent'', ''agent''] (JObj m) = Some (JObj agent)"
  shows "\<exists>m'. set_nested_field L v [''spec'', ''argoCDAgent'', ''agent'', k] m = Inr m'"
proof (rule nested_fields.set_total [OF assms(1)])
  fix ks1 j assume ks1: "strict_prefix ks1 [''spec'', ''argoCDAgent'', ''agent'', k]" "get_nested ks1 (JObj m) = Some j"
  then have "prefix ks1 ([''spec'', ''argoCDAgent'', ''agent''] @ [k])" "ks1 \<noteq> [''spec'', ''argoCDAgent'', ''agent''] @ [k]"
    by (simp_all add: strict_prefix_def)
  then have "prefix ks1 [''spec'', ''argoCDAgent'', ''agent'']" unfolding prefix_snoc by blast
  then obtain zs where zs: "[''spec'', ''argoCDAgent'', ''agent''] = ks1 @ zs" by (auto simp: prefix_def)
  show "\<exists>x. j = JObj x"
  proof (cases zs)
    case Nil
    with zs ks1(2) assms(2) show ?thesis by simp
  next
    case (Cons a as)
    from get_nested_inner [OF assms(2) [unfolded zs Cons]] ks1(2) show ?thesis by simp
  qed
qed simp


abbreviation agent_path :: "string \<Rightarrow> string list" where
  "agent_path k \<equiv> [''spec'', ''argoCDAgent'', ''agent'', k]"

lemma default_cr_agent: "\<exists>agent. get_nested [''spec'', ''argoCDAgent'', ''agent''] (JObj (default_cr ns a p mode)) = Some (JObj agent) \<and>
    map_of agent ''image'' = None \<and> map_of agent ''destinationBasedMapping'' = None"
  by (simp add: default_cr_def)

lemma set_agent_field:
  assumes "nested_fields (set_nested_field L)" "get_nested [''spec'', ''argoCDAgent'', ''agent''] (JObj m) = Some (JObj agent)"
  shows "get_nested (agent_path k) (JObj (set_or_keep L v (agent_path k) m)) = Some v"
    "parallel (agent_path k) ks \<Longrightarrow> get_nested ks (JObj (set_or_keep L v (agent_path k) m)) = get_nested ks (JObj m)"
    "\<exists>agent'. get_nested [''spec'', ''argoCDAgent'', ''agent''] (JObj (set_or_keep L v (agent_path k) m)) = Some (JObj agent')"
proof -
  note set = set_or_keep_default [OF assms(1) set_or_keep_total [OF assms]]
  show "get_nested (agent_path k) (JObj (set_or_keep L v (agent_path k) m)) = Some v" by (rule set(1))
  then show "\<exists>agent'. get_nested [''spec'', ''argoCDAgent'', ''agent''] (JObj (set_or_keep L v (agent_path k) m)) = Some (JObj agent')"
    by (intro get_nested_inner [of _ k "[]"]) simp
  show "get_nested ks (JObj (set_or_keep L v (agent_path k) m)) = get_nested ks (JObj m)" if "parallel (agent_path k) ks"
    using that by (rule set(2))
qed

lemma complete_cr_spec:
  fixes ns a p mode img :: string and L :: cr_lib
  defines "m \<equiv> default_cr ns a p mode"
  defines "m' \<equiv> complete_cr L img mode m"
  assumes "nested_fields (set_nested_field L)"
  shows "get_nested (agent_path ''image'') (JObj m') = (if img = '''' then None else Some (JStr img))"
    and "get_nested (agent_path ''destinationBasedMapping'') (JObj m') =
      (if mode = ''autonomous'' then None else Some (JObj [(''enabled'', JBool True), (''createNamespace'', JBool True)]))"
    and "parallel (agent_path ''image'') ks \<Longrightarrow> parallel (agent_path ''destinationBasedMapping'') ks \<Longrightarrow>
      get_nested ks (JObj m') = get_nested ks (JObj m)"
proof -
  define i where "i = (if img \<noteq> '''' then set_or_keep L (JStr img) (agent_path ''image'') m else m)"
  have m': "m' = (if mode \<noteq> ''autonomous'' then set_or_keep L (JObj [(''enabled'', JBool True), (''createNamespace'', JBool True)])
      (agent_path ''destinationBasedMapping'') i else i)"
    unfolding m'_def complete_cr_def Let_def i_def by (rule refl)
  from default_cr_agent obtain agent where agent: "get_nested [''spec'', ''argoCDAgent'', ''agent''] (JObj m) = Some (JObj agent)"
    "get_nested (agent_path ''image'') (JObj m) = None" "get_nested (agent_path ''destinationBasedMapping'') (JObj m) = None"
    unfolding m_def by (auto simp: default_cr_def)
  note img = set_agent_field [OF assms(3) agent(1), where k = "''image''" and v = "JStr img"]
  have i: "get_nested (agent_path ''image'') (JObj i) = (if img = '''' then None else Some (JStr img))"
    "parallel (agent_path ''image'') ks \<Longrightarrow> get_nested ks (JObj i) = get_nested ks (JObj m)"
    "\<exists>agent'. get_nested [''spec'', ''argoCDAgent'', ''agent''] (JObj i) = Some (JObj agent')" for ks
    unfolding i_def using img(1,3) img(2) [where ks = ks] agent(1,2) by auto
  from i(3) obtain agent' where ai: "get_nested [''spec'', ''argoCDAgent'', ''agent''] (JObj i) = Some (JObj agent')" by blast
  note dbm = set_agent_field [OF assms(3) ai, where k = "''destinationBasedMapping''"]
  have par: "parallel (agent_path ''destinationBasedMapping'') (agent_path ''image'')"
    "parallel (agent_path ''image'') (agent_path ''destinationBasedMapping'')" by (simp_all add: parallel_def)
  show "get_nested (agent_path ''image'') (JObj m') = (if img = '''' then None else Some (JStr img))"
    unfolding m' i(1) [symmetric] using dbm(2) [OF par(1)] by simp
  show "get_nested (agent_path ''destinationBasedMapping'') (JObj m') =
      (if mode = ''autonomous'' then None else Some (JObj [(''enabled'', JBool True), (''createNamespace'', JBool True)]))"
    unfolding m' using dbm(1) i(2) [OF par(2)] agent(3) by simp
  assume "parallel (agent_path ''image'') ks" "parallel (agent_path ''destinationBasedMapping'') ks"
  then show "get_nested ks (JObj m') = get_nested ks (JObj m)"
    unfolding m' using dbm(2) [where ks = ks] i(2) [where ks = ks] by simp
qed

section \<open>Properties\<close>

text \<open>
  The name of the work has at most 63 characters; short names of two GitOpsClusters of a
  namespace differ, while the names of two GitOpsClusters of different namespaces may coincide.
\<close>

theorem cr_work_name:
  assumes "\<forall>s. length (sha s) = 64"
  shows "length (getArgoCDCRManifestWorkName sha ns name) \<le> 63 \<and>
     (length ns + length name \<le> 46 \<and> length ns + length other \<le> 46 \<longrightarrow>
        (getArgoCDCRManifestWorkName sha ns name = getArgoCDCRManifestWorkName sha ns other \<longleftrightarrow> name = other)) \<and>
     getArgoCDCRManifestWorkName sha (ns @ ''-'' @ name) other = getArgoCDCRManifestWorkName sha ns (name @ ''-'' @ other)"
  using assms by (auto simp: getArgoCDCRManifestWorkName_def ArgoCDCRManifestWorkPrefix_def Let_def)

theorem cr_work_name_witness:
  "length (getArgoCDCRManifestWorkName (\<lambda>_. replicate 64 CHR ''0'') (replicate 40 CHR ''n'') (replicate 40 CHR ''c'')) \<le> 63"
  using cr_work_name [of "\<lambda>_. replicate 64 CHR ''0''" "replicate 40 CHR ''n''" "replicate 40 CHR ''c''"] by simp

text \<open>
  C33: In an ArgoCD resource of the user the address and the port of the principal are those of
  the user when they are texts that are not empty, else the discovered ones; every other value of
  the document is kept.
\<close>

theorem server_endpoint_injected:
  assumes "doc \<noteq> RawNil" and "unmarshal doc = Inr obj" and "is_argocd_cr obj" and "endpoint_paths obj = (pa, pp)"
  shows "\<exists>new. injectServerEndpoint unmarshal doc a p = Inr (RawDoc new) \<and>
     get_nested pa new = Some (JStr (chosen (get_nested pa (JObj obj)) a)) \<and>
     get_nested pp new = Some (JStr (chosen (get_nested pp (JObj obj)) p)) \<and>
     (\<forall>ks. parallel pa ks \<and> parallel pp ks \<longrightarrow> get_nested ks new = map_option json_canon (get_nested ks (JObj obj)))"
  using assms(1-3)
  by (auto simp: injectServerEndpoint_def json_marshal_def get_nested_canon inject_endpoint_spec [OF assms(4)]
      simp del: json_canon.simps(6) get_nested.simps)

definition example_user_cr :: fields where
  "example_user_cr = [(''apiVersion'', JStr ''argoproj.io/v1beta1''), (''kind'', JStr ''ArgoCD''),
     (''spec'', JObj [(''argoCDAgent'', JObj [(''agent'', JObj [(''client'', JObj [(''principalServerAddress'', JStr ''mine'')])])])])]"

theorem server_endpoint_injected_witness:
  "\<exists>new. injectServerEndpoint (\<lambda>_. Inr example_user_cr) (RawDoc JNull) ''found'' ''443'' = Inr (RawDoc new) \<and>
     get_nested [''spec'', ''argoCDAgent'', ''agent'', ''client'', ''principalServerAddress''] new = Some (JStr ''mine'') \<and>
     get_nested [''spec'', ''argoCDAgent'', ''agent'', ''client'', ''principalServerPort''] new = Some (JStr ''443'')"
proof -
  have cr: "is_argocd_cr example_user_cr" by code_simp
  have paths: "endpoint_paths example_user_cr = ([''spec'', ''argoCDAgent'', ''agent'', ''client'', ''principalServerAddress''],
      [''spec'', ''argoCDAgent'', ''agent'', ''client'', ''principalServerPort''])" by code_simp
  have given: "chosen (get_nested [''spec'', ''argoCDAgent'', ''agent'', ''client'', ''principalServerAddress''] (JObj example_user_cr)) ''found'' = ''mine''"
    "chosen (get_nested [''spec'', ''argoCDAgent'', ''agent'', ''client'', ''principalServerPort''] (JObj example_user_cr)) ''443'' = ''443''"
    by code_simp+
  from server_endpoint_injected [of "RawDoc JNull" "\<lambda>_. Inr example_user_cr", OF _ refl, OF _ cr, OF _ paths, of "''found''" "''443''"]
  show ?thesis unfolding given by blast
qed

text \<open>
  The validation accepts exactly no specification at all, or a list of readable manifests one
  of which is an ArgoCD resource.
\<close>

theorem validated_manifests:
  "validateArgoCDCRManifestWork unmarshal spec = Inr () \<longleftrightarrow>
     (case spec of
        None \<Rightarrow> True
      | Some docs \<Rightarrow> list_all (\<lambda>doc. doc \<noteq> RawNil \<and> (\<exists>obj. unmarshal doc = Inr obj)) docs \<and>
          list_ex (\<lambda>doc. \<exists>obj. unmarshal doc = Inr obj \<and> is_argocd_cr obj) docs)"
  by (auto simp: validateArgoCDCRManifestWork_def validate_manifests_ok list_all_iff list_ex_iff split: option.splits)


section \<open>Storing and deleting the work\<close>

definition hub_argocd :: "string \<Rightarrow> objref" where
  "hub_argocd ns = Ref (KUnstr ''argoproj.io/v1beta1'' ''ArgoCD'') ns ''argocd''"

text \<open>The image the hub principal runs, as its resource says.\<close>

definition hub_image :: "cr_lib \<Rightarrow> ('w \<Rightarrow> objref \<Rightarrow> kobj option) \<Rightarrow> 'w \<Rightarrow> string \<Rightarrow> string \<Rightarrow> bool" where
  "hub_image L view w ns img = (\<exists>u. view w (hub_argocd ns) = Some (OUnstr u) \<and>
     nested_string L [''spec'', ''argoCDAgent'', ''principal'', ''image''] (u_fields u) = Inr (Some img))"

text \<open>What the default resource says.\<close>

definition cr_as_promised :: "cr_lib \<Rightarrow> ('w \<Rightarrow> objref \<Rightarrow> kobj option) \<Rightarrow> 'w \<Rightarrow> gitops_cluster \<Rightarrow> string \<Rightarrow> string \<Rightarrow> string \<Rightarrow> fields \<Rightarrow> bool" where
  "cr_as_promised L view w g ns a p cr = (is_argocd_cr cr \<and>
     get_nested [''metadata'', ''namespace''] (JObj cr) = Some (JStr ns) \<and>
     get_nested (agent_path ''client'' @ [''principalServerAddress'']) (JObj cr) = Some (JStr a) \<and>
     get_nested (agent_path ''client'' @ [''principalServerPort'']) (JObj cr) = Some (JStr p) \<and>
     get_nested (agent_path ''client'' @ [''mode'']) (JObj cr) = Some (JStr (addon_mode g)) \<and>
     (get_nested (agent_path ''destinationBasedMapping'') (JObj cr) \<noteq> None \<longleftrightarrow> addon_mode g \<noteq> ''autonomous'') \<and>
     (get_nested (agent_path ''image'') (JObj cr) = None \<or>
        (\<exists>img. get_nested (agent_path ''image'') (JObj cr) = Some (JStr img) \<and> img \<noteq> '''' \<and>
           mget (m_annotations (gc_meta g)) AnnotationDisableAgentImageSync \<noteq> ''true'' \<and>
           hub_image L view w (m_namespace (gc_meta g)) img)))"

lemma complete_cr_promised:
  assumes "nested_fields (set_nested_field L)"
    and "img \<noteq> '''' \<Longrightarrow> mget (m_annotations (gc_meta g)) AnnotationDisableAgentImageSync \<noteq> ''true'' \<and>
      hub_image L view w (m_namespace (gc_meta g)) img"
  shows "cr_as_promised L view w g ns a p (complete_cr L img (addon_mode g) (default_cr ns a p (addon_mode g)))"
proof -
  note spec = complete_cr_spec [OF assms(1)]
  let ?cr = "complete_cr L img (addon_mode g) (default_cr ns a p (addon_mode g))" and ?d = "default_cr ns a p (addon_mode g)"
  have other: "get_nested ks (JObj ?cr) = get_nested ks (JObj ?d)"
    if "parallel (agent_path ''image'') ks" "parallel (agent_path ''destinationBasedMapping'') ks" for ks
    using that by (rule spec(3))
  have "get_nested [''apiVersion''] (JObj ?cr) = Some (JStr ''argoproj.io/v1beta1'')"
    "get_nested [''kind''] (JObj ?cr) = Some (JStr ''ArgoCD'')"
    "get_nested [''metadata'', ''namespace''] (JObj ?cr) = Some (JStr ns)"
    "get_nested (agent_path ''client'' @ [''principalServerAddress'']) (JObj ?cr) = Some (JStr a)"
    "get_nested (agent_path ''client'' @ [''principalServerPort'']) (JObj ?cr) = Some (JStr p)"
    "get_nested (agent_path ''client'' @ [''mode'']) (JObj ?cr) = Some (JStr (addon_mode g))"
    by ((subst other; simp add: parallel_def), simp add: default_cr_def)+
  moreover from this have "is_argocd_cr ?cr" by (auto simp: is_argocd_cr_def get_text_def split: option.splits)
  ultimately show ?thesis
    unfolding cr_as_promised_def spec(1,2) using assms(2) by simp
qed

context kube_api
begin

lemma wp_agent_image:
  "wp (agent_image L C g) (\<lambda>img w'. view w' = view w \<and> (img \<noteq> '''' \<longrightarrow>
     mget (m_annotations (gc_meta g)) AnnotationDisableAgentImageSync \<noteq> ''true'' \<and>
     hub_image L view w (m_namespace (gc_meta g)) img)) w"
proof (cases "mget (m_annotations (gc_meta g)) AnnotationDisableAgentImageSync = ''true''")
  case True
  then show ?thesis by (simp add: agent_image_def wp_ret)
next
  case False
  then show ?thesis
    unfolding agent_image_def if_not_P [OF False] discoverPrincipalImage_def wp_bind
    by (intro wp_fetch) (auto simp: wp_simps hub_image_def hub_argocd_def split: sum.splits option.splits)
qed

lemma wp_default_cr:
  assumes "nested_fields (set_nested_field L)"
  shows "wp (buildDefaultArgoCDCR L C g ns a p) (\<lambda>cr w'. view w' = view w \<and> cr_as_promised L view w g ns a p cr) w"
  unfolding buildDefaultArgoCDCR_def Let_def wp_bind
  by (rule wp_mono [OF wp_agent_image]) (auto simp: wp_ret intro!: complete_cr_promised [OF assms])

end

text \<open>What the work carries: the manifests of the user with the endpoint filled in, or the default resource.\<close>

definition carries :: "cr_lib \<Rightarrow> ('w \<Rightarrow> objref \<Rightarrow> kobj option) \<Rightarrow> 'w \<Rightarrow> gitops_cluster \<Rightarrow> string \<Rightarrow> string \<Rightarrow> manifest list \<Rightarrow> bool" where
  "carries L view w g a p ms =
     (case ArgoCDCRManifestWork (ArgoCDAgentAddon (gc_spec g)) of
        Some docs \<Rightarrow> ms = map (inject_or_keep L a p) docs
      | None \<Rightarrow> \<exists>cr. ms = [MRaw (json_marshal cr)] \<and> cr_as_promised L view w g (agent_namespace g) a p cr)"

definition has_cr_labels :: "string gomap \<Rightarrow> bool" where
  "has_cr_labels labels = list_all (\<lambda>(k, v). mget labels k = v) cr_labels"

definition cr_ref :: "cr_lib \<Rightarrow> gitops_cluster \<Rightarrow> string \<Rightarrow> objref" where
  "cr_ref L g clusterName = Ref KManifestWork clusterName
     (getArgoCDCRManifestWorkName (sha256_hex L) (m_namespace (gc_meta g)) (m_name (gc_meta g)))"

lemma refresh_cr_work_labels:
  "map_of (m_labels (mw_meta (refresh_cr_work existing (cr_work n c ms)))) k =
     (case map_of cr_labels k of Some v \<Rightarrow> Some v | None \<Rightarrow> map_of (m_labels (mw_meta existing)) k)"
proof -
  have "distinct (map fst cr_labels)" by (simp add: cr_labels_def)
  then show ?thesis by (simp add: refresh_cr_work_def cr_work_def map_of_put_all split: option.splits)
qed

lemma refresh_cr_work_sel [simp]:
  "mw_spec (refresh_cr_work x y) = mw_spec y" "m_name (mw_meta (refresh_cr_work x y)) = m_name (mw_meta x)"
  "m_namespace (mw_meta (refresh_cr_work x y)) = m_namespace (mw_meta x)"
  "m_deletion (mw_meta (refresh_cr_work x y)) = m_deletion (mw_meta x)"
  by (simp_all add: refresh_cr_work_def)

lemma refreshed_labels: "has_cr_labels (m_labels (mw_meta (refresh_cr_work existing (cr_work n c ms))))"
  by (simp add: has_cr_labels_def mget_def refresh_cr_work_labels) (simp add: cr_labels_def)

lemma cr_work_sel [simp]:
  "m_name (mw_meta (cr_work n c ms)) = n" "m_namespace (mw_meta (cr_work n c ms)) = c" "m_labels (mw_meta (cr_work n c ms)) = cr_labels"
  "ws_manifests (mw_spec (cr_work n c ms)) = ms"
  by (simp_all add: cr_work_def)

lemma has_cr_labels_new: "has_cr_labels cr_labels"
  by (simp add: has_cr_labels_def mget_def cr_labels_def)

lemma cr_work_current:
  "\<not> cr_work_outdated x (cr_work n c ms) \<longleftrightarrow> mw_spec x = mw_spec (cr_work n c ms) \<and> has_cr_labels (m_labels (mw_meta x))"
  by (auto simp: cr_work_outdated_def has_cr_labels_def list_ex_iff list_all_iff)

context kube_api
begin

lemma wp_store_cr_work:
  assumes "\<forall>x. view w (Ref KManifestWork c n) = Some x \<longrightarrow> \<not> terminating x"
  shows "wp (store_cr_work C c (cr_work n c ms)) (\<lambda>r w'. only_touches view {Ref KManifestWork c n} w w' \<and>
     (r = Inr () \<longrightarrow> (\<exists>mw. view w' (Ref KManifestWork c n) = Some (OManifestWork mw) \<and> ws_manifests (mw_spec mw) = ms \<and>
        has_cr_labels (m_labels (mw_meta mw)))) \<and>
     (\<forall>mw. view w (Ref KManifestWork c n) = Some (OManifestWork mw) \<and> mw_spec mw = mw_spec (cr_work n c ms) \<and>
        has_cr_labels (m_labels (mw_meta mw)) \<longrightarrow> view w' = view w)) w"
    (is "wp _ ?Q w")
proof -
  have ref: "ref_of (OManifestWork (cr_work n c ms)) = Ref KManifestWork c n" by simp
  show ?thesis
    unfolding store_cr_work_def wp_bind ref
  proof (rule wp_fetch, goal_cases)
    case (1 x y w1)
    then have xy: "x = OManifestWork y" by simp
    have ref': "ref_of (OManifestWork (refresh_cr_work y (cr_work n c ms))) = Ref KManifestWork c n"
      using view_ref [OF 1(2)] xy by simp
    have "m_deletion (mw_meta y) = None" using assms 1(2) xy by (auto simp: terminating_def)
    then have "wp (update C (OManifestWork (refresh_cr_work y (cr_work n c ms)))) (\<lambda>r. ?Q (wrap_result msg r)) w1"
      if "cr_work_outdated y (cr_work n c ms)" for msg
      using 1 xy that cr_work_current [of y n c ms] refreshed_labels [of y n c ms]
      by (intro wp_update_work) (auto simp: ref' only_touches_def work_like_def simp del: ref_of_simps)
    with 1 xy show ?case
      using cr_work_current [of y n c ms] by (auto simp: wp_wrapE wp_ret wp_if only_touches_view)
  next
    case (2 e w1)
    have "wp (create C (OManifestWork (cr_work n c ms))) (\<lambda>r. ?Q (wrap_result msg r)) w1" if "is_not_found e" for msg
      using 2 that
      by (intro wp_create_work) (auto simp: ref only_touches_def work_like_def has_cr_labels_new simp del: ref_of_simps)
    with 2 show ?case by (auto simp: wp_wrapE wp_ret wp_if only_touches_view)
  qed
qed

end

lemma wp_createArgoCDCRManifestWork:
  assumes "kube_api C view" and "nested_fields (set_nested_field L)" and "m_name (mc_meta cluster) = name"
    and "\<forall>x. view w (cr_ref L g name) = Some x \<longrightarrow> \<not> terminating x"
  shows "wp (createArgoCDCRManifestWork L C g cluster a p) (\<lambda>r w'. (\<forall>q. q \<noteq> cr_ref L g name \<longrightarrow> view w' q = view w q) \<and>
     (if name = ''local-cluster'' then r = Inr () \<and> view w' = view w
      else r = Inr () \<longrightarrow> (\<exists>mw. view w' (cr_ref L g name) = Some (OManifestWork mw) \<and>
        carries L view w g a p (ws_manifests (mw_spec mw)) \<and> has_cr_labels (m_labels (mw_meta mw))))) w"
    (is "wp _ ?P w")
proof -
  let ?n = "getArgoCDCRManifestWorkName (sha256_hex L) (m_namespace (gc_meta g)) (m_name (gc_meta g))"
  have made: "wp (cr_manifests L C g a p) (\<lambda>ms w1. view w1 = view w \<and> carries L view w g a p ms) w"
    unfolding cr_manifests_def
    by (auto simp: wp_simps carries_def split: option.splits
        intro!: wp_mono [OF kube_api.wp_default_cr [OF assms(1,2)]])
  show ?thesis
  proof (cases "name = ''local-cluster''")
    case True
    with assms(3) show ?thesis by (simp add: createArgoCDCRManifestWork_def isLocalCluster_def wp_ret)
  next
    case False
    then have no: "\<not> isLocalCluster cluster" using assms(3) by (simp add: isLocalCluster_def)
    show ?thesis
      unfolding createArgoCDCRManifestWork_def Let_def assms(3) if_not_P [OF no]
    proof (rule wp_bind_rule [OF made], elim conjE)
      fix ms w1 assume v: "view w1 = view w" "carries L view w g a p ms"
      show "wp (store_cr_work C name (cr_work ?n name ms)) ?P w1"
        by (rule wp_mono [OF kube_api.wp_store_cr_work [OF assms(1)]])
          (use v False assms(4) in \<open>auto simp: only_touches_def cr_ref_def\<close>)
    qed
  qed
qed

text \<open>
  C20: createArgoCDCRManifestWork touches the work of the cluster only, and nothing for
  local-cluster; after a success on a work that was not already being deleted, the work has the
  labels of the controller and carries the injected manifests of the user, or a default resource
  with the endpoint, mode and namespace of the GitOpsCluster, destination based mapping exactly
  outside autonomous mode, and no agent image but that of the hub principal when the sync is not
  disabled.
\<close>

theorem cr_work_delivered:
  assumes "kube_api C view" and "nested_fields (set_nested_field L)" and "m_name (mc_meta cluster) = name"
    and "\<forall>x. view w (cr_ref L g name) = Some x \<longrightarrow> \<not> terminating x"
    and "run_state (createArgoCDCRManifestWork L C g cluster a p) w = (r, w')"
  shows "(\<forall>q. q \<noteq> cr_ref L g name \<longrightarrow> view w' q = view w q) \<and>
     (if name = ''local-cluster'' then r = Inr () \<and> view w' = view w
      else r = Inr () \<longrightarrow> (\<exists>mw. view w' (cr_ref L g name) = Some (OManifestWork mw) \<and>
        carries L view w g a p (ws_manifests (mw_spec mw)) \<and> has_cr_labels (m_labels (mw_meta mw))))"
  by (rule wp_run [OF wp_createArgoCDCRManifestWork [OF assms(1-4)] assms(5)])

definition plain_cr_lib :: cr_lib where
  "plain_cr_lib = \<lparr>unmarshal_unstr = (\<lambda>doc. case doc of RawDoc (JObj m) \<Rightarrow> Inr m | _ \<Rightarrow> Inl (Plain ''invalid character'')),
     nested_string = (\<lambda>ks m. Inr (as_string (get_nested ks (JObj m)))), set_nested_field = set_path,
     sha256_hex = (\<lambda>_. replicate 64 CHR ''0'')\<rparr>"

definition example_hub_world :: mem where
  "example_hub_world = mem_of [OUnstr \<lparr>u_api_version = ''argoproj.io/v1beta1'', u_kind = ''ArgoCD'', u_meta = new_meta ''argocd'' ''argocd'',
     u_fields = [(''spec'', JObj [(''argoCDAgent'', JObj [(''principal'', JObj [(''image'', JStr ''agent:v2'')])])])]\<rparr>]"

theorem cr_work_delivered_witness:
  "\<exists>mw cr. mem_view (snd (run_state (createArgoCDCRManifestWork plain_cr_lib mem_client example_gitops
       \<lparr>mc_meta = new_meta ''cluster1'' ''''\<rparr> ''lb.example.com'' ''443'') example_hub_world))
       (cr_ref plain_cr_lib example_gitops ''cluster1'') = Some (OManifestWork mw) \<and>
     ws_manifests (mw_spec mw) = [MRaw (json_marshal cr)] \<and>
     get_nested (agent_path ''client'' @ [''principalServerAddress'']) (JObj cr) = Some (JStr ''lb.example.com'')"
proof -
  let ?c = "\<lparr>mc_meta = new_meta ''cluster1'' ''''\<rparr>"
  let ?run = "run_state (createArgoCDCRManifestWork plain_cr_lib mem_client example_gitops ?c ''lb.example.com'' ''443'') example_hub_world"
  have ok: "fst ?run = Inr ()" by code_simp
  have nf: "nested_fields (set_nested_field plain_cr_lib)" by (simp add: plain_cr_lib_def path_nested_fields)
  have name: "m_name (mc_meta ?c) = ''cluster1''" by simp
  have "mem_view example_hub_world (cr_ref plain_cr_lib example_gitops ''cluster1'') = None" by code_simp
  then have live: "\<forall>x. mem_view example_hub_world (cr_ref plain_cr_lib example_gitops ''cluster1'') = Some x \<longrightarrow> \<not> terminating x" by simp
  have def: "ArgoCDCRManifestWork (ArgoCDAgentAddon (gc_spec example_gitops)) = None" by (simp add: example_gitops_def)
  from cr_work_delivered [OF mem_kube_api, OF nf, OF name, OF live, of "''lb.example.com''" "''443''" "fst ?run" "snd ?run"] ok def
  show ?thesis unfolding prod.collapse by (auto simp: carries_def cr_as_promised_def)
qed

text \<open>
  deleteArgoCDCRManifestWork touches the work of the cluster only, and after a success the
  work is gone or on its way out.
\<close>

theorem cr_work_deleted:
  assumes "kube_api C view" and "run_state (deleteArgoCDCRManifestWork L C name (m_namespace (gc_meta g)) (m_name (gc_meta g))) w = (r, w')"
  shows "(\<forall>q. q \<noteq> cr_ref L g name \<longrightarrow> view w' q = view w q) \<and> (r = Inr () \<longrightarrow> gone view w' (cr_ref L g name))"
    (is "?P r w'")
proof -
  let ?r = "cr_ref L g name"
  have del: "wp (delete_obj C (OManifestWork mw)) (\<lambda>d. wp (case d of
         Inl e \<Rightarrow> if \<not> is_not_found e then ret (Inl (Wrapped ''failed to delete ArgoCD CR ManifestWork'' e)) else ret (Inr ())
       | Inr _ \<Rightarrow> ret (Inr ())) ?P) w1"
    if "view w1 = view w" "ref_of (OManifestWork mw) = ?r" for mw w1
    by (rule kube_api.wp_delete_obj [OF assms(1)])
      (use that in \<open>auto simp: wp_ret wp_if gone_def simp del: ref_of_simps\<close>)
  have "wp (deleteArgoCDCRManifestWork L C name (m_namespace (gc_meta g)) (m_name (gc_meta g))) ?P w"
    unfolding deleteArgoCDCRManifestWork_def cr_ref_def [symmetric] wp_bind
    by (rule kube_api.wp_fetch [OF assms(1)])
      (use del in \<open>auto simp: wp_ret wp_if wp_bind gone_def simp del: ref_of_simps\<close>)
  then show ?thesis using assms(2) by (rule wp_run)
qed

theorem cr_work_deleted_witness:
  "gone mem_view (snd (run_state (deleteArgoCDCRManifestWork plain_cr_lib mem_client ''cluster1'' ''argocd'' ''gitops'')
     (mem_of [OManifestWork (cr_work ''argocd-agent-cr-argocd-gitops'' ''cluster1'' [])]))) (cr_ref plain_cr_lib example_gitops ''cluster1'')"
proof -
  let ?w = "mem_of [OManifestWork (cr_work ''argocd-agent-cr-argocd-gitops'' ''cluster1'' [])]"
  let ?run = "run_state (deleteArgoCDCRManifestWork plain_cr_lib mem_client ''cluster1'' ''argocd'' ''gitops'') ?w"
  have ok: "fst ?run = Inr ()" by code_simp
  have g: "m_namespace (gc_meta example_gitops) = ''argocd''" "m_name (gc_meta example_gitops) = ''gitops''"
    by (simp_all add: example_gitops_def)
  from cr_work_deleted [OF mem_kube_api, of plain_cr_lib "''cluster1''" example_gitops ?w "fst ?run" "snd ?run"] ok
  show ?thesis unfolding prod.collapse g by simp
qed

end
