(* ===== verification/Addon_Template.thy ===== *)
theory Addon_Template
  imports Addon_Management
begin

text \<open>
  \<open>internal/controller/addon_template_management.go\<close>: the AddOnTemplate of a GitOpsCluster, with the manifests the addon framework
  deploys on a managed cluster. A manifest the code holds as a typed object is the document of the fields it sets. The environment
  variables \<open>CONTROLLER_IMAGE\<close> and \<open>ARGOCD_OPERATOR_IMAGE\<close> are the arguments \<open>controller_image\<close> and \<open>operator_image\<close>, empty when unset.
\<close>

section \<open>The manifests\<close>

definition OperatorImageEnvVar :: string where
  "OperatorImageEnvVar = ''ARGOCD_OPERATOR_IMAGE''"

definition addon_namespace :: string where
  "addon_namespace = ''open-cluster-management-agent-addon''"

definition env_var :: "string \<Rightarrow> string \<Rightarrow> json" where
  "env_var name val = JObj [(''name'', JStr name), (''value'', JStr val)]"

definition addon_env :: "string \<Rightarrow> json" where
  "addon_env operatorImage = JArr [env_var ''ARGOCD_NAMESPACE'' ''{{ARGOCD_NAMESPACE}}'',
     env_var ''ARGOCD_OPERATOR_NAMESPACE'' ''{{ARGOCD_OPERATOR_NAMESPACE}}'', env_var OperatorImageEnvVar operatorImage]"

definition addon_container :: "string \<Rightarrow> string \<Rightarrow> string \<Rightarrow> string \<Rightarrow> (string \<times> json) list" where
  "addon_container name addonImage arg operatorImage =
     [(''name'', JStr name), (''image'', JStr addonImage), (''imagePullPolicy'', JStr ''IfNotPresent''),
      (''command'', JArr [JStr ''/manager'']), (''args'', JArr [JStr arg]), (''env'', addon_env operatorImage)]"

definition cleanup_job :: "string \<Rightarrow> string \<Rightarrow> json" where
  "cleanup_job addonImage operatorImage = JObj [
     (''apiVersion'', JStr ''batch/v1''), (''kind'', JStr ''Job''),
     (''metadata'', JObj [(''name'', JStr ''argocd-agent-addon-cleanup''), (''namespace'', JStr addon_namespace),
       (''annotations'', JObj [(''addon.open-cluster-management.io/addon-pre-delete'', JStr '''')])]),
     (''spec'', JObj [(''template'', JObj [(''spec'', JObj [
       (''serviceAccountName'', JStr ''argocd-agent-addon''), (''restartPolicy'', JStr ''Never''),
       (''containers'', JArr [JObj (addon_container ''cleanup'' addonImage ''--mode=cleanup'' operatorImage)])])])])]"

definition addon_service_account :: json where
  "addon_service_account = JObj [(''apiVersion'', JStr ''v1''), (''kind'', JStr ''ServiceAccount''),
     (''metadata'', JObj [(''name'', JStr ''argocd-agent-addon''), (''namespace'', JStr addon_namespace)])]"

definition addon_cluster_role_binding :: json where
  "addon_cluster_role_binding = JObj [(''apiVersion'', JStr ''rbac.authorization.k8s.io/v1''), (''kind'', JStr ''ClusterRoleBinding''),
     (''metadata'', JObj [(''name'', JStr ''argocd-agent-addon'')]),
     (''roleRef'', JObj [(''apiGroup'', JStr ''rbac.authorization.k8s.io''), (''kind'', JStr ''ClusterRole''), (''name'', JStr ''cluster-admin'')]),
     (''subjects'', JArr [JObj [(''kind'', JStr ''ServiceAccount''), (''name'', JStr ''argocd-agent-addon''),
       (''namespace'', JStr addon_namespace)]])]"

definition addon_deployment :: "string \<Rightarrow> string \<Rightarrow> json" where
  "addon_deployment addonImage operatorImage = JObj [
     (''apiVersion'', JStr ''apps/v1''), (''kind'', JStr ''Deployment''),
     (''metadata'', JObj [(''name'', JStr ''argocd-agent-addon''), (''namespace'', JStr addon_namespace),
       (''labels'', JObj [(''app'', JStr ''argocd-agent-addon'')])]),
     (''spec'', JObj [(''replicas'', JNum 1),
       (''selector'', JObj [(''matchLabels'', JObj [(''app'', JStr ''argocd-agent-addon'')])]),
       (''template'', JObj [
         (''metadata'', JObj [(''labels'', JObj [(''app'', JStr ''argocd-agent-addon'')])]),
         (''spec'', JObj [(''serviceAccountName'', JStr ''argocd-agent-addon''),
           (''containers'', JArr [JObj (addon_container ''argocd-agent-addon'' addonImage ''--mode=addon'' operatorImage @
             [(''securityContext'', JObj [(''readOnlyRootFilesystem'', JBool True), (''allowPrivilegeEscalation'', JBool False),
                (''runAsNonRoot'', JBool True), (''capabilities'', JObj [(''drop'', JArr [JStr ''ALL''])])]),
              (''volumeMounts'', JArr [JObj [(''mountPath'', JStr ''/tmp''), (''name'', JStr ''tmp-volume'')]])])]),
           (''volumes'', JArr [JObj [(''name'', JStr ''tmp-volume''), (''emptyDir'', JObj [])]])])])])]"

definition buildAddonManifests :: "string \<Rightarrow> string \<Rightarrow> manifest list" where
  "buildAddonManifests addonImage operatorImage =
     [MStruct (cleanup_job addonImage operatorImage), MStruct addon_service_account, MStruct addon_cluster_role_binding,
      MStruct (addon_deployment addonImage operatorImage)]"

section \<open>The template\<close>

definition getControllerImage :: "string \<Rightarrow> string result" where
  "getControllerImage controller_image =
     (if controller_image = '''' then
        Inl (Plain ''CONTROLLER_IMAGE environment variable is not set - this must be configured in the deployment'')
      else Inr controller_image)"

definition getAddOnTemplateName :: "gitops_cluster \<Rightarrow> string" where
  "getAddOnTemplateName gitOpsCluster =
     ''argocd-agent-addon-'' @ m_namespace (gc_meta gitOpsCluster) @ ''-'' @ m_name (gc_meta gitOpsCluster)"

definition template_labels :: "gitops_cluster \<Rightarrow> string gomap" where
  "template_labels gitOpsCluster = managed_labels ''addon-template'' @
     [(''gitopscluster.apps.open-cluster-management.io/name'', m_name (gc_meta gitOpsCluster)),
      (''gitopscluster.apps.open-cluster-management.io/namespace'', m_namespace (gc_meta gitOpsCluster))]"

definition build_template :: "gitops_cluster \<Rightarrow> string \<Rightarrow> string \<Rightarrow> addon_template" where
  "build_template gitOpsCluster addonImage operator_image =
     \<lparr>at_meta = (new_meta (getAddOnTemplateName gitOpsCluster) '''')\<lparr>m_labels := template_labels gitOpsCluster\<rparr>,
      at_addon_name = ArgoCDAgentAddonName,
      at_manifests = buildAddonManifests addonImage operator_image,
      at_registration = [\<lparr>cs_signer_name = ''open-cluster-management.io/argocd-agent-addon'', cs_ca_name = ''argocd-agent-ca'',
        cs_ca_namespace = m_namespace (gc_meta gitOpsCluster)\<rparr>]\<rparr>"

definition refresh_template :: "addon_template \<Rightarrow> addon_template \<Rightarrow> addon_template" where
  "refresh_template existing new = new\<lparr>at_meta := (at_meta existing)\<lparr>m_labels := m_labels (at_meta new)\<rparr>\<rparr>"

definition EnsureAddOnTemplate :: "'w client \<Rightarrow> string \<Rightarrow> string \<Rightarrow> gitops_cluster \<Rightarrow> ('w, unit result) state" where
  "EnsureAddOnTemplate C controller_image operator_image gitOpsCluster =
     bindE (ret (wrap_result ''failed to get controller image'' (getControllerImage controller_image))) (\<lambda>addonImage. do {
       let addonTemplate = build_template gitOpsCluster addonImage operator_image;
       r \<leftarrow> fetch as_addon_template C (Ref KAddOnTemplate '''' (getAddOnTemplateName gitOpsCluster));
       (case r of
          Inr existing \<Rightarrow> update C (OAddOnTemplate (refresh_template existing addonTemplate))
        | Inl e \<Rightarrow>
            if \<not> is_not_found e then ret (Inl (Wrapped ''failed to get AddOnTemplate'' e))
            else create C (OAddOnTemplate addonTemplate)) })"

section \<open>Lemmas\<close>

definition template_ref :: "gitops_cluster \<Rightarrow> objref" where
  "template_ref g = Ref KAddOnTemplate '''' (getAddOnTemplateName g)"

text \<open>A template that tells the addon framework what to deploy for a GitOpsCluster, and by which CA its certificates are signed.\<close>

definition template_of :: "gitops_cluster \<Rightarrow> string \<Rightarrow> string \<Rightarrow> addon_template \<Rightarrow> bool" where
  "template_of g addonImage operatorImage t = (at_addon_name t = ArgoCDAgentAddonName \<and>
     at_manifests t = buildAddonManifests addonImage operatorImage \<and> m_labels (at_meta t) = template_labels g \<and>
     (\<exists>signer. at_registration t = [signer] \<and> cs_ca_name signer = ''argocd-agent-ca'' \<and> cs_ca_namespace signer = m_namespace (gc_meta g)))"

lemma template_created:
  "same_content (OAddOnTemplate (build_template g i oi)) y \<Longrightarrow> \<exists>t. y = OAddOnTemplate t \<and> template_of g i oi t"
  by (auto simp: same_content_def template_of_def build_template_def)

lemma template_updated:
  "same_content (OAddOnTemplate (refresh_template x (build_template g i oi))) y \<Longrightarrow> \<exists>t. y = OAddOnTemplate t \<and> template_of g i oi t"
  by (auto simp: same_content_def template_of_def build_template_def refresh_template_def)

lemma refresh_template_sel [simp]:
  "m_name (at_meta (refresh_template x y)) = m_name (at_meta x)" "m_namespace (at_meta (refresh_template x y)) = m_namespace (at_meta x)"
  "m_deletion (at_meta (refresh_template x y)) = m_deletion (at_meta x)"
  by (simp_all add: refresh_template_def)

lemma build_template_ref: "ref_of (OAddOnTemplate (build_template g i oi)) = template_ref g"
  by (simp add: build_template_def template_ref_def)

context kube_api
begin

lemma wp_EnsureAddOnTemplate:
  assumes "\<forall>x. view w (template_ref g) = Some x \<longrightarrow> \<not> terminating x"
  shows "wp (EnsureAddOnTemplate C img oi g) (\<lambda>r w'. only_touches view {template_ref g} w w' \<and>
     (img = '''' \<longrightarrow> view w' = view w \<and> r \<noteq> Inr ()) \<and>
     (r = Inr () \<longrightarrow> (\<exists>t. view w' (template_ref g) = Some (OAddOnTemplate t) \<and> template_of g img oi t))) w"
    (is "wp _ ?Q w")
proof (cases "img = ''''")
  case True
  then show ?thesis by (simp add: EnsureAddOnTemplate_def getControllerImage_def wp_simps)
next
  case False
  have upd: "wp (update C (OAddOnTemplate (refresh_template x (build_template g img oi)))) ?Q w1"
    if v: "view w1 = view w" "view w (template_ref g) = Some (OAddOnTemplate x)" for x w1
  proof -
    have ref: "ref_of (OAddOnTemplate (refresh_template x (build_template g img oi))) = template_ref g"
      using view_ref [OF v(2)] by simp
    have live: "m_deletion (at_meta x) = None" using assms v(2) by (auto simp: terminating_def)
    show ?thesis
      by (rule wp_update_unit, unfold ref)
        (use v False live in \<open>auto simp: only_touches_def dest!: template_updated\<close>)
  qed
  have crt: "wp (create C (OAddOnTemplate (build_template g img oi))) ?Q w1" if "view w1 = view w" for w1
    by (rule wp_create_unit, unfold build_template_ref)
      (use that False in \<open>auto simp: only_touches_def dest!: template_created\<close>)
  define Q where "Q = ?Q"
  have err: "Q (Inl e) w1" if "view w1 = view w" for e w1
    using that False by (simp add: Q_def only_touches_view)
  from False show ?thesis
    unfolding EnsureAddOnTemplate_def template_ref_def [symmetric] Let_def Q_def [symmetric]
    by (auto simp: getControllerImage_def wp_bindE wp_ret wp_bind wp_if
        intro!: wp_fetch upd [folded Q_def] crt [folded Q_def] err)
qed

end

section \<open>Properties\<close>

text \<open>The container of a workload, and what a document of a manifest says under a path.\<close>

definition container_of :: "manifest \<Rightarrow> fields option" where
  "container_of m = (case m of
     MStruct doc \<Rightarrow> (case get_nested [''spec'', ''template'', ''spec'', ''containers''] doc of Some (JArr [JObj c]) \<Rightarrow> Some c | _ \<Rightarrow> None)
   | _ \<Rightarrow> None)"

theorem addon_containers:
  "map container_of (buildAddonManifests img op) =
     [Some (addon_container ''cleanup'' img ''--mode=cleanup'' op), None, None, container_of (MStruct (addon_deployment img op))] \<and>
   list_all (\<lambda>m. case container_of m of None \<Rightarrow> True | Some c \<Rightarrow> map_of c ''image'' = Some (JStr img) \<and>
      (\<exists>before. map_of c ''env'' = Some (JArr (before @ [env_var OperatorImageEnvVar op]))))
     (buildAddonManifests img op)"
  by (simp add: buildAddonManifests_def container_of_def cleanup_job_def addon_deployment_def addon_service_account_def
      addon_cluster_role_binding_def addon_container_def addon_env_def)

text \<open>
  C29: EnsureAddOnTemplate touches the template of the GitOpsCluster only; without a controller
  image it fails and changes nothing; after a success the template has the manifests of the image,
  the labels of the GitOpsCluster and the CA of its namespace as signer, whether it is new or
  replaced an older one that was not being deleted.
\<close>

theorem addon_template_ensured:
  assumes "kube_api C view" and "\<forall>x. view w (template_ref g) = Some x \<longrightarrow> \<not> terminating x"
    and "run_state (EnsureAddOnTemplate C img oi g) w = (r, w')"
  shows "(\<forall>q. q \<noteq> template_ref g \<longrightarrow> view w' q = view w q) \<and>
     (img = '''' \<longrightarrow> view w' = view w \<and> r \<noteq> Inr ()) \<and>
     (r = Inr () \<longrightarrow> (\<exists>t. view w' (template_ref g) = Some (OAddOnTemplate t) \<and> template_of g img oi t))"
  using wp_run [OF kube_api.wp_EnsureAddOnTemplate [OF assms(1,2)] assms(3)] by (simp add: only_touches_def)

theorem addon_template_ensured_witness:
  "\<exists>t. mem_view (snd (run_state (EnsureAddOnTemplate mem_client ''img:v2'' '''' example_gitops)
       (mem_of [OAddOnTemplate (build_template example_gitops ''img:v1'' '''')]))) (template_ref example_gitops) = Some (OAddOnTemplate t) \<and>
     template_of example_gitops ''img:v2'' '''' t"
proof -
  let ?w = "mem_of [OAddOnTemplate (build_template example_gitops ''img:v1'' '''')]"
  let ?run = "run_state (EnsureAddOnTemplate mem_client ''img:v2'' '''' example_gitops) ?w"
  have ok: "fst ?run = Inr ()" by code_simp
  have old: "mem_view ?w (template_ref example_gitops) = Some (OAddOnTemplate (build_template example_gitops ''img:v1'' ''''))"
    by code_simp
  have live: "\<forall>x. mem_view ?w (template_ref example_gitops) = Some x \<longrightarrow> \<not> terminating x"
    unfolding old by (simp add: terminating_def build_template_def)
  from addon_template_ensured [OF mem_kube_api, OF live, of "''img:v2''" "''''" "fst ?run" "snd ?run"] ok
  show ?thesis unfolding prod.collapse by blast
qed

end
