(* ===== verification/GitOps_Controller.thy ===== *)
theory GitOps_Controller
  imports Agent_Clusters CR_Manifest_Work Addon_Template
begin

text \<open>
  \<open>internal/controller/gitopscluster_controller.go\<close>: the reconciler of a GitOpsCluster. It prepares the hub (RBAC, server discovery,
  keys and certificates, the AddOnTemplate), evaluates the placement, and then looks after every selected cluster. The fields of
  the reconciler, the environment and the libraries its parts use are the record \<open>reconciler\<close>.
\<close>

section \<open>The reconciler\<close>

record ('w, 'ca) reconciler =
  r_client :: "'w client"
  r_certs :: "('w, 'ca, certificate list) cert_lib"
  r_x509 :: "('w, 'ca) x509_lib"
  r_parse_url :: "string \<Rightarrow> url result"
  r_proxy :: proxy_settings
  r_cr :: cr_lib
  r_codec :: secret_codec
  r_jwt_key :: "string result"
  r_controller_image :: string
  r_operator_image :: string
  r_find_condition :: "condition list \<Rightarrow> string \<Rightarrow> condition option"
  r_set_condition :: "condition list \<Rightarrow> condition \<Rightarrow> condition list"

section \<open>Conditions\<close>

definition ConditionRBACReady :: string where "ConditionRBACReady = ''RBACReady''"
definition ConditionServerDiscovered :: string where "ConditionServerDiscovered = ''ServerDiscovered''"
definition ConditionJWTSecretReady :: string where "ConditionJWTSecretReady = ''JWTSecretReady''"
definition ConditionCACertificateReady :: string where "ConditionCACertificateReady = ''CACertificateReady''"
definition ConditionPrincipalCertificateReady :: string where "ConditionPrincipalCertificateReady = ''PrincipalCertificateReady''"
definition ConditionResourceProxyCertificateReady :: string where
  "ConditionResourceProxyCertificateReady = ''ResourceProxyCertificateReady''"
definition ConditionPlacementEvaluated :: string where "ConditionPlacementEvaluated = ''PlacementEvaluated''"
definition ConditionClustersImported :: string where "ConditionClustersImported = ''ClustersImported''"
definition ConditionManifestWorkCreated :: string where "ConditionManifestWorkCreated = ''ManifestWorkCreated''"
definition ConditionArgoCDCRDelivered :: string where "ConditionArgoCDCRDelivered = ''ArgoCDCRDelivered''"
definition ConditionAddonConfigured :: string where "ConditionAddonConfigured = ''AddonConfigured''"
definition ConditionPlacementTolerationConfigured :: string where
  "ConditionPlacementTolerationConfigured = ''PlacementTolerationConfigured''"
definition ConditionAddOnTemplateReady :: string where "ConditionAddOnTemplateReady = ''AddOnTemplateReady''"
definition ConditionRemovedClustersCleanedUp :: string where "ConditionRemovedClustersCleanedUp = ''RemovedClustersCleanedUp''"

definition ReasonSuccess :: string where "ReasonSuccess = ''Success''"
definition ReasonFailed :: string where "ReasonFailed = ''Failed''"
definition ReasonInProgress :: string where "ReasonInProgress = ''InProgress''"
definition ReasonServerNotDiscovered :: string where "ReasonServerNotDiscovered = ''ServerNotDiscovered''"
definition ReasonNoClusters :: string where "ReasonNoClusters = ''NoClusters''"

text \<open>\<open>Status().Update\<close> overwrites the object with the reply; a failure is only logged.\<close>

definition write_conditions :: "('w, 'ca) reconciler \<Rightarrow> gitops_cluster \<Rightarrow> ('w, gitops_cluster) state" where
  "write_conditions R g = do {
     r \<leftarrow> c_update_status (r_client R) (OGitOpsCluster g);
     ret (case r of Inl _ \<Rightarrow> g | Inr x \<Rightarrow> (case as_gitops x of None \<Rightarrow> g | Some g' \<Rightarrow> g')) }"

definition add_condition :: "('w, 'ca) reconciler \<Rightarrow> gitops_cluster \<Rightarrow> string \<Rightarrow> condition_status \<Rightarrow> string \<Rightarrow> string \<Rightarrow>
    ('w, gitops_cluster) state" where
  "add_condition R g conditionType status reason message = do {
     now \<leftarrow> c_now_text (r_client R);
     ret (g\<lparr>gc_conditions := r_set_condition R (gc_conditions g)
       \<lparr>cond_type = conditionType, cond_status = status, cond_observed_generation = m_generation (gc_meta g),
        cond_transition_time = now, cond_reason = reason, cond_message = message\<rparr>\<rparr>) }"

definition setCondition :: "('w, 'ca) reconciler \<Rightarrow> gitops_cluster \<Rightarrow> string \<Rightarrow> condition_status \<Rightarrow> string \<Rightarrow> string \<Rightarrow>
    ('w, gitops_cluster) state" where
  "setCondition R g conditionType status reason message = do {
     g \<leftarrow> add_condition R g conditionType status reason message;
     write_conditions R g }"

definition condition_types :: "string list" where
  "condition_types = [ConditionRBACReady, ConditionServerDiscovered, ConditionJWTSecretReady, ConditionCACertificateReady,
     ConditionPrincipalCertificateReady, ConditionResourceProxyCertificateReady, ConditionPlacementTolerationConfigured,
     ConditionAddOnTemplateReady, ConditionPlacementEvaluated, ConditionClustersImported, ConditionManifestWorkCreated,
     ConditionArgoCDCRDelivered, ConditionAddonConfigured]"

fun add_missing_conditions :: "('w, 'ca) reconciler \<Rightarrow> string list \<Rightarrow> gitops_cluster \<times> bool \<Rightarrow> ('w, gitops_cluster \<times> bool) state" where
  "add_missing_conditions R [] acc = ret acc"
| "add_missing_conditions R (condType # rest) (g, needsUpdate) =
     (if r_find_condition R (gc_conditions g) condType = None then do {
        g \<leftarrow> add_condition R g condType CondUnknown ReasonInProgress ''Reconciliation in progress'';
        add_missing_conditions R rest (g, True) }
      else add_missing_conditions R rest (g, needsUpdate))"

definition initializeConditions :: "('w, 'ca) reconciler \<Rightarrow> gitops_cluster \<Rightarrow> ('w, gitops_cluster) state" where
  "initializeConditions R gitOpsCluster = do {
     (g, needsUpdate) \<leftarrow> add_missing_conditions R condition_types (gitOpsCluster, False);
     (if needsUpdate then write_conditions R g else ret g) }"

section \<open>Names of clusters in messages\<close>

fun join_spaces :: "string list \<Rightarrow> string" where
  "join_spaces [] = ''''"
| "join_spaces [x] = x"
| "join_spaces (x # xs) = x @ '' '' @ join_spaces xs"

definition show_strings :: "string list \<Rightarrow> string" where
  "show_strings xs = ''['' @ join_spaces xs @ '']''"

definition joinClusterNames :: "string list \<Rightarrow> string" where
  "joinClusterNames clusters =
     (if length clusters = 0 then ''''
      else if length clusters \<le> 3 then show_strings clusters
      else show_strings (take 3 clusters) @ ''... ('' @ itoa (int (length clusters)) @ '' total)'')"

definition count_text :: "'a list \<Rightarrow> string" where
  "count_text xs = itoa (int (length xs))"

section \<open>The placement\<close>

definition required_tolerations :: "toleration list" where
  "required_tolerations =
     [\<lparr>tol_key = ''cluster.open-cluster-management.io/unreachable'', tol_operator = ''Exists'', tol_value = ''''\<rparr>,
      \<lparr>tol_key = ''cluster.open-cluster-management.io/unavailable'', tol_operator = ''Exists'', tol_value = ''''\<rparr>]"

definition tolerates :: "toleration list \<Rightarrow> toleration \<Rightarrow> bool" where
  "tolerates tolerations reqTol = list_ex (\<lambda>existingTol. tol_key existingTol = tol_key reqTol \<and>
     tol_operator existingTol = tol_operator reqTol) tolerations"

fun add_tolerations :: "toleration list \<Rightarrow> toleration list \<times> bool \<Rightarrow> toleration list \<times> bool" where
  "add_tolerations [] acc = acc"
| "add_tolerations (reqTol # rest) (tolerations, needsUpdate) =
     (if tolerates tolerations reqTol then add_tolerations rest (tolerations, needsUpdate)
      else add_tolerations rest (tolerations @ [reqTol], True))"

definition ensurePlacementTolerations :: "'w client \<Rightarrow> placement \<Rightarrow> ('w, unit result) state" where
  "ensurePlacementTolerations C placement =
     (case add_tolerations required_tolerations (pl_tolerations placement, False) of
        (tolerations, needsUpdate) \<Rightarrow>
          if needsUpdate then wrapE ''failed to update placement with tolerations''
            (update C (OPlacement (placement\<lparr>pl_tolerations := tolerations\<rparr>)))
          else ret (Inr ()))"

definition placement_label :: string where
  "placement_label = ''cluster.open-cluster-management.io/placement''"

text \<open>A cluster that cannot be read is skipped.\<close>

fun get_clusters :: "'w client \<Rightarrow> string list \<Rightarrow> ('w, managed_cluster list) state" where
  "get_clusters C [] = ret []"
| "get_clusters C (clusterName # rest) = do {
     r \<leftarrow> fetch as_managed_cluster C (Ref KManagedCluster '''' clusterName);
     clusters \<leftarrow> get_clusters C rest;
     ret (case r of Inl _ \<Rightarrow> clusters | Inr managedCluster \<Rightarrow> managedCluster # clusters) }"

definition configure_tolerations :: "('w, 'ca) reconciler \<Rightarrow> gitops_cluster \<Rightarrow> placement \<Rightarrow> ('w, gitops_cluster) state" where
  "configure_tolerations R g placement = do {
     t \<leftarrow> ensurePlacementTolerations (r_client R) placement;
     (case t of
        Inl e \<Rightarrow> setCondition R g ConditionPlacementTolerationConfigured CondFalse ReasonFailed
          (''Failed to configure placement tolerations: '' @ error_text e)
      | Inr _ \<Rightarrow> setCondition R g ConditionPlacementTolerationConfigured CondTrue ReasonSuccess
          ''Placement tolerations configured successfully'') }"

definition decided_clusters :: "'w client \<Rightarrow> string \<Rightarrow> string \<Rightarrow> ('w, managed_cluster list result) state" where
  "decided_clusters C namespace placementName =
     bindE (wrapE ''failed to list PlacementDecisions''
       (list_as as_decision C KPlacementDecision (Some namespace) [(placement_label, placementName)])) (\<lambda>decisions. do {
         clusters \<leftarrow> get_clusters C (concat (map pd_clusters decisions));
         ret (Inr clusters) })"

definition getManagedClustersFromPlacement :: "('w, 'ca) reconciler \<Rightarrow> gitops_cluster \<Rightarrow>
    ('w, managed_cluster list result \<times> gitops_cluster) state" where
  "getManagedClustersFromPlacement R g =
     (let C = r_client R; namespace = m_namespace (gc_meta g); placementName = PlacementRefName (gc_spec g) in
      if PlacementRefKind (gc_spec g) \<noteq> ''Placement''
      then ret (Inl (Plain (''invalid placement kind: '' @ PlacementRefKind (gc_spec g) @ '', expected Placement'')), g)
      else do {
        r \<leftarrow> fetch as_placement C (Ref KPlacement namespace placementName);
        (case r of
           Inl e \<Rightarrow> ret (Inl (Wrapped ''failed to get Placement'' e), g)
         | Inr placement \<Rightarrow> do {
             g \<leftarrow> configure_tolerations R g placement;
             clusters \<leftarrow> decided_clusters C namespace placementName;
             ret (clusters, g) }) })"


section \<open>Clusters that left the placement\<close>

text \<open>\<open>Get\<close>, then \<open>Delete\<close>; errors are only logged.\<close>

definition discard :: "'w client \<Rightarrow> (kobj \<Rightarrow> 'o option) \<Rightarrow> ('o \<Rightarrow> kobj) \<Rightarrow> objref \<Rightarrow> ('w, unit) state" where
  "discard C as_o o_of q = do {
     r \<leftarrow> fetch as_o C q;
     (case r of Inl _ \<Rightarrow> ret () | Inr x \<Rightarrow> log_error (delete_obj C (o_of x))) }"

definition cluster_secret_ref :: "string \<Rightarrow> string \<Rightarrow> objref" where
  "cluster_secret_ref argoCDNamespace clusterName = Ref KSecret argoCDNamespace (''cluster-'' @ clusterName)"

definition remove_cluster :: "('w, 'ca) reconciler \<Rightarrow> gitops_cluster \<Rightarrow> managed_cluster_addon \<Rightarrow> ('w, bool) state" where
  "remove_cluster R g addon = do {
     let C = r_client R;
     let clusterName = m_namespace (mca_meta addon);
     d \<leftarrow> delete_obj C (OManagedClusterAddOn addon);
     (if (case d of Inl e \<Rightarrow> \<not> is_not_found e | Inr _ \<Rightarrow> False) then ret False
      else do {
        _ \<leftarrow> discard C as_work OManifestWork (Ref KManifestWork clusterName ArgoCDAgentCAManifestWorkName);
        _ \<leftarrow> log_error (deleteArgoCDCRManifestWork (r_cr R) C clusterName (m_namespace (gc_meta g)) (m_name (gc_meta g)));
        _ \<leftarrow> discard C as_secret OSecret (cluster_secret_ref (m_namespace (gc_meta g)) clusterName);
        ret True }) }"

fun remove_clusters :: "('w, 'ca) reconciler \<Rightarrow> gitops_cluster \<Rightarrow> string list \<Rightarrow> managed_cluster_addon list \<Rightarrow> int \<Rightarrow> ('w, int) state" where
  "remove_clusters R g current [] clustersRemoved = ret clustersRemoved"
| "remove_clusters R g current (addon # rest) clustersRemoved =
     (if m_name (mca_meta addon) = ArgoCDAgentAddonName \<and> m_namespace (mca_meta addon) \<notin> set current then do {
        removed \<leftarrow> remove_cluster R g addon;
        remove_clusters R g current rest (if removed then clustersRemoved + 1 else clustersRemoved) }
      else remove_clusters R g current rest clustersRemoved)"

definition cleanupRemovedClusters :: "('w, 'ca) reconciler \<Rightarrow> gitops_cluster \<Rightarrow> managed_cluster list \<Rightarrow> ('w, int result) state" where
  "cleanupRemovedClusters R g currentClusters =
     bindE (wrapE ''failed to list ManagedClusterAddons''
       (list_as as_addon (r_client R) KManagedClusterAddOn None [(''app.kubernetes.io/managed-by'', ''argocd-pull-integration'')]))
       (\<lambda>addonList. do {
         n \<leftarrow> remove_clusters R g (map (\<lambda>c. m_name (mc_meta c)) currentClusters) addonList 0;
         ret (Inr n) })"

definition buildAddonVariables :: "gitops_cluster \<Rightarrow> string gomap" where
  "buildAddonVariables g =
     (let spec = ArgoCDAgentAddon (gc_spec g) in
      (if AgentNamespace spec \<noteq> '''' then [(''ARGOCD_NAMESPACE'', AgentNamespace spec)] else []) @
      (if OperatorNamespace spec \<noteq> '''' then [(''ARGOCD_OPERATOR_NAMESPACE'', OperatorNamespace spec)] else []))"

section \<open>Preparing the hub\<close>

text \<open>A step whose failure ends the run, with the condition that reports it.\<close>

definition require :: "('w, 'ca) reconciler \<Rightarrow> gitops_cluster \<Rightarrow> string \<Rightarrow> string \<Rightarrow> string \<Rightarrow> string \<Rightarrow> ('w, unit result) state \<Rightarrow>
    ('w, gitops_cluster result) state" where
  "require R g conditionType reason failed succeeded m = do {
     r \<leftarrow> m;
     (case r of
        Inl e \<Rightarrow> do { _ \<leftarrow> setCondition R g conditionType CondFalse reason (failed @ '': '' @ error_text e); ret (Inl e) }
      | Inr _ \<Rightarrow> do { g \<leftarrow> setCondition R g conditionType CondTrue ReasonSuccess succeeded; ret (Inr g) }) }"

definition ensure_rbac :: "('w, 'ca) reconciler \<Rightarrow> string \<Rightarrow> gitops_cluster \<Rightarrow> ('w, gitops_cluster result) state" where
  "ensure_rbac R ns g = require R g ConditionRBACReady ReasonFailed ''Failed to ensure RBAC'' ''RBAC resources created successfully''
     (EnsureAddonManagerRBAC (r_client R) ns)"

definition save_discovered :: "('w, 'ca) reconciler \<Rightarrow> bool \<Rightarrow> gitops_cluster \<Rightarrow> ('w, gitops_cluster result) state" where
  "save_discovered R specUpdated g =
     (if specUpdated then wrapE ''failed to update GitOpsCluster spec'' (update_as as_gitops (r_client R) (OGitOpsCluster g))
      else ret (Inr g))"

definition report_server :: "('w, 'ca) reconciler \<Rightarrow> gitops_cluster \<Rightarrow> ('w, (string \<times> string \<times> gitops_cluster) result) state" where
  "report_server R g =
     (let serverAddress = PrincipalServerAddress (ArgoCDAgentAddon (gc_spec g));
          serverPort = PrincipalServerPort (ArgoCDAgentAddon (gc_spec g)) in
      if serverAddress = '''' \<or> serverPort = '''' then do {
        _ \<leftarrow> setCondition R g ConditionServerDiscovered CondFalse ReasonServerNotDiscovered ''Server address and/or port are empty'';
        ret (Inl (Plain ''server address and/or port are empty after discovery'')) }
      else do {
        g \<leftarrow> setCondition R g ConditionServerDiscovered CondTrue ReasonSuccess (''Server at '' @ serverAddress @ '':'' @ serverPort);
        ret (Inr (serverAddress, serverPort, g)) })"

definition discover_server :: "('w, 'ca) reconciler \<Rightarrow> string \<Rightarrow> gitops_cluster \<Rightarrow> ('w, (string \<times> string \<times> gitops_cluster) result) state" where
  "discover_server R ns g = do {
     r \<leftarrow> EnsureServerAddressAndPort (r_client R) g ns;
     (case r of
        Inl e \<Rightarrow> do {
          _ \<leftarrow> setCondition R g ConditionServerDiscovered CondFalse ReasonServerNotDiscovered (''Server discovery failed: '' @ error_text e);
          ret (Inl e) }
      | Inr (specUpdated, g) \<Rightarrow> bindE (save_discovered R specUpdated g) (report_server R)) }"

definition ensure_keys :: "('w, 'ca) reconciler \<Rightarrow> string \<Rightarrow> string \<Rightarrow> gitops_cluster \<Rightarrow> ('w, gitops_cluster result) state" where
  "ensure_keys R ns serverAddress g =
     bindE (require R g ConditionJWTSecretReady ReasonFailed ''Failed to create JWT secret'' ''JWT secret created successfully''
       (EnsureArgoCDAgentJWTSecret (r_jwt_key R) (r_client R) ns)) (\<lambda>g.
     bindE (require R g ConditionCACertificateReady ReasonFailed ''Failed to create CA certificate'' ''CA certificate created successfully''
       (EnsureArgoCDAgentCASecret (r_certs R) ns)) (\<lambda>g.
     bindE (require R g ConditionPrincipalCertificateReady ReasonFailed ''Failed to generate principal certificate''
       ''Principal certificate generated successfully'' (EnsurePrincipalCertificate (r_client R) (r_certs R) ns serverAddress)) (\<lambda>g.
     require R g ConditionResourceProxyCertificateReady ReasonFailed ''Failed to generate resource proxy certificate''
       ''Resource proxy certificate generated successfully'' (EnsureResourceProxyCertificate (r_client R) (r_certs R) ns))))"

definition ensure_template :: "('w, 'ca) reconciler \<Rightarrow> gitops_cluster \<Rightarrow> ('w, gitops_cluster result) state" where
  "ensure_template R g = require R g ConditionAddOnTemplateReady ReasonFailed ''Failed to ensure AddOnTemplate''
     ''AddOnTemplate created/updated successfully'' (EnsureAddOnTemplate (r_client R) (r_controller_image R) (r_operator_image R) g)"

definition prepare_hub :: "('w, 'ca) reconciler \<Rightarrow> string \<Rightarrow> gitops_cluster \<Rightarrow> ('w, (string \<times> string \<times> gitops_cluster) result) state" where
  "prepare_hub R ns g =
     bindE (ensure_rbac R ns g) (\<lambda>g.
     bindE (discover_server R ns g) (\<lambda>(serverAddress, serverPort, g).
     bindE (ensure_keys R ns serverAddress g) (\<lambda>g.
     bindE (ensure_template R g) (\<lambda>g. ret (Inr (serverAddress, serverPort, g))))))"

definition evaluate_placement :: "('w, 'ca) reconciler \<Rightarrow> gitops_cluster \<Rightarrow> ('w, (managed_cluster list \<times> gitops_cluster) result) state" where
  "evaluate_placement R g = do {
     (r, g) \<leftarrow> getManagedClustersFromPlacement R g;
     (case r of
        Inl e \<Rightarrow> do {
          _ \<leftarrow> setCondition R g ConditionPlacementEvaluated CondFalse ReasonFailed (''Failed to evaluate placement: '' @ error_text e);
          ret (Inl e) }
      | Inr managedClusters \<Rightarrow> do {
          g \<leftarrow> (if length managedClusters = 0
            then setCondition R g ConditionPlacementEvaluated CondTrue ReasonNoClusters ''No managed clusters selected by placement''
            else setCondition R g ConditionPlacementEvaluated CondTrue ReasonSuccess
              (''Evaluated '' @ count_text managedClusters @ '' managed clusters''));
          ret (Inr (managedClusters, g)) }) }"

section \<open>Looking after the clusters\<close>

definition is_panic :: "go_error \<Rightarrow> bool" where
  "is_panic e = (case e of Panic _ \<Rightarrow> True | _ \<Rightarrow> False)"

text \<open>A loop that collects the names of the clusters it failed for; a panic ends it.\<close>

fun each_failed :: "(managed_cluster \<Rightarrow> ('w, unit result) state) \<Rightarrow> managed_cluster list \<Rightarrow> string list \<Rightarrow> ('w, string list result) state" where
  "each_failed f [] failed = ret (Inr failed)"
| "each_failed f (c # rest) failed = do {
     r \<leftarrow> f c;
     (case r of
        Inl e \<Rightarrow> if is_panic e then ret (Inl e) else each_failed f rest (failed @ [m_name (mc_meta c)])
      | Inr _ \<Rightarrow> each_failed f rest failed) }"

definition report_clusters :: "('w, 'ca) reconciler \<Rightarrow> string \<Rightarrow> string \<Rightarrow> string \<Rightarrow> gitops_cluster \<Rightarrow> string list \<Rightarrow>
    ('w, gitops_cluster result) state" where
  "report_clusters R conditionType failed_text succeeded g failed = do {
     g \<leftarrow> (if length failed > 0
       then setCondition R g conditionType CondFalse ReasonFailed (failed_text @ '': '' @ joinClusterNames failed)
       else setCondition R g conditionType CondTrue ReasonSuccess succeeded);
     ret (Inr g) }"

definition import_clusters :: "('w, 'ca) reconciler \<Rightarrow> string \<Rightarrow> managed_cluster list \<Rightarrow> gitops_cluster \<Rightarrow> ('w, gitops_cluster result) state" where
  "import_clusters R ns clusters g =
     (if length clusters > 0 then
        bindE (each_failed (\<lambda>c. importManagedClusterToArgoCD (r_client R) (r_certs R) (r_x509 R) (r_parse_url R) (r_proxy R) ns c
            (PlacementRefName (gc_spec g))) clusters [])
          (report_clusters R ConditionClustersImported ''Failed to import clusters''
            (''Imported '' @ count_text clusters @ '' clusters to ArgoCD'') g)
      else ret (Inr g))"

definition distribute_ca :: "('w, 'ca) reconciler \<Rightarrow> string \<Rightarrow> managed_cluster list \<Rightarrow> gitops_cluster \<Rightarrow> ('w, gitops_cluster result) state" where
  "distribute_ca R ns clusters g =
     (if length clusters > 0 then
        bindE (each_failed (createArgoCDAgentManifestWork (r_client R) (r_codec R) ns (agent_namespace g)) clusters [])
          (report_clusters R ConditionManifestWorkCreated ''Failed to create ManifestWorks for clusters''
            (''Created ManifestWorks for '' @ count_text clusters @ '' clusters'') g)
      else ret (Inr g))"

text \<open>An invalid specification ends the run without an error: the answer is \<open>None\<close>.\<close>

definition deliver_crs :: "('w, 'ca) reconciler \<Rightarrow> string \<Rightarrow> string \<Rightarrow> managed_cluster list \<Rightarrow> gitops_cluster \<Rightarrow>
    ('w, gitops_cluster option result) state" where
  "deliver_crs R serverAddress serverPort clusters g =
     (case validateArgoCDCRManifestWork (unmarshal_unstr (r_cr R)) (ArgoCDCRManifestWork (ArgoCDAgentAddon (gc_spec g))) of
        Inl e \<Rightarrow> do {
          _ \<leftarrow> setCondition R g ConditionArgoCDCRDelivered CondFalse ReasonFailed (''Invalid ArgoCDCRManifestWork: '' @ error_text e);
          ret (Inr None) }
      | Inr _ \<Rightarrow>
          let others = filter (\<lambda>c. \<not> isLocalCluster c) clusters in
          bindE (each_failed (\<lambda>c. createArgoCDCRManifestWork (r_cr R) (r_client R) g c serverAddress serverPort) others []) (\<lambda>failed. do {
            let deliveredCount = int (length others) - int (length failed);
            g \<leftarrow> (if length failed > 0 then setCondition R g ConditionArgoCDCRDelivered CondFalse ReasonFailed
                    (''Failed to deliver ArgoCD CR to clusters: '' @ joinClusterNames failed)
                  else if deliveredCount > 0 then setCondition R g ConditionArgoCDCRDelivered CondTrue ReasonSuccess
                    (''Delivered ArgoCD CR to '' @ itoa deliveredCount @ '' clusters'')
                  else setCondition R g ConditionArgoCDCRDelivered CondTrue ReasonNoClusters
                    ''No non-local clusters to deliver ArgoCD CR to'');
            ret (Inr (Some g)) }))"

definition clean_up :: "('w, 'ca) reconciler \<Rightarrow> managed_cluster list \<Rightarrow> gitops_cluster \<Rightarrow> ('w, gitops_cluster) state" where
  "clean_up R clusters g = do {
     r \<leftarrow> cleanupRemovedClusters R g clusters;
     (case r of
        Inl e \<Rightarrow> setCondition R g ConditionRemovedClustersCleanedUp CondFalse ReasonFailed
          (''Failed to cleanup removed clusters: '' @ error_text e)
      | Inr clustersRemoved \<Rightarrow>
          if clustersRemoved > 0 then setCondition R g ConditionRemovedClustersCleanedUp CondTrue ReasonSuccess
            (''Cleaned up '' @ itoa clustersRemoved @ '' removed cluster(s)'')
          else ret g) }"

definition configure_addons :: "('w, 'ca) reconciler \<Rightarrow> managed_cluster list \<Rightarrow> gitops_cluster \<Rightarrow> ('w, gitops_cluster result) state" where
  "configure_addons R clusters g =
     (if length clusters > 0 then
        bindE (each_failed (\<lambda>c.
            bindE (EnsureAddOnDeploymentConfig (r_client R) (m_name (mc_meta c), buildAddonVariables g)) (\<lambda>_.
            EnsureManagedClusterAddon (r_client R) (m_name (mc_meta c), g))) clusters [])
          (report_clusters R ConditionAddonConfigured ''Failed to configure addon for clusters''
            (''Addon configured for '' @ count_text clusters @ '' clusters'') g)
      else ret (Inr g))"

definition serve_clusters :: "('w, 'ca) reconciler \<Rightarrow> string \<Rightarrow> string \<Rightarrow> string \<Rightarrow> managed_cluster list \<Rightarrow> gitops_cluster \<Rightarrow>
    ('w, unit result) state" where
  "serve_clusters R ns serverAddress serverPort clusters g =
     bindE (import_clusters R ns clusters g) (\<lambda>g.
     bindE (distribute_ca R ns clusters g) (\<lambda>g.
     bindE (deliver_crs R serverAddress serverPort clusters g) (\<lambda>delivered.
       case delivered of
         None \<Rightarrow> ret (Inr ())
       | Some g \<Rightarrow> do { g \<leftarrow> clean_up R clusters g; bindE (configure_addons R clusters g) (\<lambda>_. ret (Inr ())) })))"

definition reconcile_gitops :: "('w, 'ca) reconciler \<Rightarrow> string \<Rightarrow> string \<Rightarrow> ('w, unit result) state" where
  "reconcile_gitops R namespace name = do {
     r \<leftarrow> fetch as_gitops (r_client R) (Ref KGitOpsCluster namespace name);
     (case r of
        Inl e \<Rightarrow> if \<not> is_not_found e then ret (Inl e) else ret (Inr ())
      | Inr gitOpsCluster \<Rightarrow> do {
          g \<leftarrow> initializeConditions R gitOpsCluster;
          let argoCDNamespace = m_namespace (gc_meta g);
          bindE (prepare_hub R argoCDNamespace g) (\<lambda>(serverAddress, serverPort, g).
          bindE (evaluate_placement R g) (\<lambda>(managedClusters, g).
          serve_clusters R argoCDNamespace serverAddress serverPort managedClusters g)) }) }"

section \<open>Events\<close>

definition placementDecisionMapper :: "'w client \<Rightarrow> kobj \<Rightarrow> ('w, (string \<times> string) list) state" where
  "placementDecisionMapper C obj =
     (case as_decision obj of
        None \<Rightarrow> ret []
      | Some placementDecision \<Rightarrow>
          (case map_of (m_labels (pd_meta placementDecision)) placement_label of
             None \<Rightarrow> ret []
           | Some placementName \<Rightarrow> do {
               r \<leftarrow> list_as as_gitops C KGitOpsCluster (Some (m_namespace (pd_meta placementDecision))) [];
               ret (case r of
                 Inl _ \<Rightarrow> []
               | Inr gitOpsClusters \<Rightarrow> map (\<lambda>g. (m_namespace (gc_meta g), m_name (gc_meta g)))
                   (filter (\<lambda>g. PlacementRefName (gc_spec g) = placementName \<and> PlacementRefKind (gc_spec g) = ''Placement'')
                     gitOpsClusters)) }))"

end
