(* ===== verification/GitOps_Run.thy ===== *)
theory GitOps_Run
  imports GitOps_Controller
begin

text \<open>
  What one run of the GitOpsCluster reconciler may write: the objects of the hub, named by \<open>hub_objects\<close>, and those of a
  managed cluster, named by \<open>cluster_objects\<close>, and the Placements it may refer to. Each step of the run gets a frame rule for any set
  of objects that contains its own; the rules compose to the frame of the whole run (\<open>wp_reconcile_gitops\<close>), for any bound on the name
  of the Placement that holds after the preparation of the hub.
\<close>

section \<open>Frames of the steps\<close>

lemma touches_subset: "wp m (\<lambda>_. only_touches view S w) w \<Longrightarrow> S \<subseteq> T \<Longrightarrow> wp m (\<lambda>_. only_touches view T w) w"
  by (erule wp_mono) (rule only_touches_mono)

lemma touches_quiet: "wp m (\<lambda>_ w'. view w' = view w) w \<Longrightarrow> wp m (\<lambda>_. only_touches view S w) w"
  by (erule wp_mono) (rule only_touches_view)

lemma touches_ensured: "wp m (ensured view t g w) w \<Longrightarrow> t \<in> S \<Longrightarrow> wp m (\<lambda>_. only_touches view S w) w"
  by (erule wp_mono) (auto simp: ensured_def only_touches_def)

lemma touches_after: "only_touches view S w w1 \<Longrightarrow> wp m (\<lambda>_. only_touches view S w1) w1 \<Longrightarrow> wp m (\<lambda>_. only_touches view S w) w1"
  by (erule wp_mono) (rule only_touches_trans)

context kube_api
begin

lemma touches_create_unless_exists: "ref_of x \<in> S \<Longrightarrow> wp (create_unless_exists C m x) (\<lambda>_. only_touches view S w) w"
  unfolding create_unless_exists_def by (intro touches)

lemma touches_ensure_object:
  assumes found: "\<And>x y w1. view w r = Some x \<Longrightarrow> as_o x = Some y \<Longrightarrow> wp (found y) (\<lambda>_. only_touches view S w1) w1"
    and build: "\<And>w1. wp build (\<lambda>b w2. only_touches view S w1 w2 \<and> (\<forall>x. b = Inr x \<longrightarrow> ref_of x \<in> S)) w1"
  shows "wp (ensure_object C as_o r c m found build) (\<lambda>_. only_touches view S w) w"
  unfolding ensure_object_def wp_bind
proof (rule wp_fetch, goal_cases)
  case (1 x y w1)
  then show ?case by (auto intro: touches_after [OF only_touches_view [OF 1(1)]] found)
next
  case (2 e w1)
  have "wp (bindE build (create_unless_exists C m)) (\<lambda>_. only_touches view S w1) w1"
  proof (rule wp_bindE_rule [OF build])
    fix x w2 assume "only_touches view S w1 w2 \<and> (\<forall>y. Inr x = Inr y \<longrightarrow> ref_of y \<in> S)"
    then show "wp (create_unless_exists C m x) (\<lambda>_. only_touches view S w1) w2"
      by (auto elim!: touches_after intro!: touches_create_unless_exists simp del: ref_of_simps)
  qed simp
  from touches_after [OF only_touches_view [OF 2(1)] this] 2(1) show ?case
    by (simp add: wp_ret only_touches_view)
qed

lemma touches_rbac:
  assumes "Ref KRole ns AddonManagerRoleName \<in> S" "Ref KRoleBinding ns AddonManagerRoleBindingName \<in> S"
  shows "wp (EnsureAddonManagerRBAC C ns) (\<lambda>_. only_touches view S w) w"
  unfolding EnsureAddonManagerRBAC_def
  by (intro touches touches_ensured [OF addon_role.wp_summary] touches_ensured [OF addon_role_binding.wp_summary] kube_api_axioms assms)

lemma touches_jwt: "Ref KSecret ns ArgoCDAgentJWTSecretName \<in> S \<Longrightarrow> wp (EnsureArgoCDAgentJWTSecret gen_key C ns) (\<lambda>_. only_touches view S w) w"
  by (rule touches_ensured [OF jwt.wp_summary]) (rule kube_api_axioms)

lemma touches_discover: "wp (EnsureServerAddressAndPort C g ns) (\<lambda>_. only_touches view S w) w"
  unfolding EnsureServerAddressAndPort_def
  by (intro touches touches_quiet [OF wp_mono [OF wp_discover]]) blast

lemma touches_template: "template_ref g \<in> S \<Longrightarrow> wp (EnsureAddOnTemplate C img oi g) (\<lambda>_. only_touches view S w) w"
  unfolding EnsureAddOnTemplate_def template_ref_def [symmetric] Let_def wp_bindE wp_ret
proof (cases "getControllerImage img", goal_cases)
  case (2 i)
  have ref: "ref_of (OAddOnTemplate (refresh_template x (build_template g i oi))) = template_ref g"
    if "ref_of (OAddOnTemplate x) = template_ref g" for x
    using that by simp
  from 2 show ?case unfolding 2(2) wrap_result_simps sum.case wp_bind
    by (intro wp_fetch)
      (auto simp: wp_simps only_touches_view only_touches_def ref build_template_ref simp del: ref_of_simps
        intro!: wp_mono [OF wp_touches_update [of _ S]] wp_mono [OF wp_touches_create [of _ S]])
qed simp

end

lemma touches_ca:
  assumes "cert_rotation L view" "certificate_objects ns \<subseteq> S"
  shows "wp (EnsureArgoCDAgentCASecret L ns) (\<lambda>_. only_touches view S w) w"
proof -
  have ca: "Ref KSecret ns ArgoCDAgentCASecretName \<in> S" "Ref KConfigMap ns ca_bundle_name \<in> S"
    using assms(2) by (auto simp: certificate_objects_def)
  have sign: "wp (ensure_signing L ns ArgoCDAgentCASecretName v) (\<lambda>_. only_touches view S w1) w1" for v w1
    by (rule cert_rotation.wp_signing [OF assms(1)]) (rule only_touchesI [OF ca(1)], simp)+
  have trust: "wp (ensure_bundle L ns ca_bundle_name c) (\<lambda>_. only_touches view S w1) w1" for c w1
    by (rule cert_rotation.wp_bundle [OF assms(1)]) (rule only_touchesI [OF ca(2)], simp)
  show ?thesis
    unfolding EnsureArgoCDAgentCASecret_def
    by (intro touches sign trust cert_rotation.touches_setup [OF assms(1)])
qed

lemma touches_principal:
  assumes "kube_api C view" "cert_rotation L view" "certificate_objects ns \<union> principal_deployments ns \<subseteq> S"
  shows "wp (EnsurePrincipalCertificate C L ns a) (\<lambda>_. only_touches view S w) w"
proof (rule wp_mono [OF wp_EnsurePrincipalCertificate [OF assms(1,2)]])
  fix r :: "unit result" and w' assume "rotation_post view ns w w'"
  then have "only_touches view (certificate_objects ns \<union> principal_deployments ns) w w'"
    unfolding rotation_post_def only_touches_def by blast
  then show "only_touches view S w w'" using assms(3) by (rule only_touches_mono)
qed

lemma touches_resource_proxy:
  assumes "kube_api C view" "cert_rotation L view" "certificate_objects ns \<subseteq> S" "Ref KSecret ns ArgoCDAgentResourceProxyTLSSecretName \<in> S"
  shows "wp (EnsureResourceProxyCertificate C L ns) (\<lambda>_. only_touches view S w) w"
proof -
  have verify: "wp (verifyCACertificateExists C ns) (\<lambda>_. only_touches view S w1) w1" for w1
    unfolding verifyCACertificateExists_def by (intro touches kube_api.wp_touches_fetch [OF assms(1)])
  have hosts: "wp (getResourceProxyHostNames C ns) (\<lambda>_. only_touches view S w1) w1" for w1
    unfolding getResourceProxyHostNames_def findArgoCDAgentPrincipalService_def Let_def
    by (intro touches kube_api.wp_touches_fetch [OF assms(1)])
  have target: "wp (ensure_target L ns ArgoCDAgentResourceProxyTLSSecretName v hs c b) (\<lambda>_. only_touches view S w1) w1" for v hs c b w1
    by (rule cert_rotation.wp_target [OF assms(2)]) (rule only_touchesI [OF assms(4)], simp)
  show ?thesis
    unfolding EnsureResourceProxyCertificate_def
    by (intro touches verify hosts target cert_rotation.touches_setup [OF assms(2)] cert_rotation.touches_loadCA [OF assms(2)])
      (use assms(3) in \<open>auto simp: certificate_objects_def\<close>)
qed

section \<open>Conditions\<close>

text \<open>A step that writes into \<open>S\<close> and keeps the GitOpsCluster in memory the one named \<open>n\<close>.\<close>

abbreviation gref :: "gitops_cluster \<Rightarrow> objref" where
  "gref g \<equiv> ref_of (OGitOpsCluster g)"

definition keeps :: "('w \<Rightarrow> objref \<Rightarrow> kobj option) \<Rightarrow> objref set \<Rightarrow> objref \<Rightarrow> ('r \<Rightarrow> gitops_cluster set) \<Rightarrow> 'w \<Rightarrow> 'r \<Rightarrow> 'w \<Rightarrow> bool" where
  "keeps view S n gs w r w' = (only_touches view S w w' \<and> (\<forall>g \<in> gs r. gref g = n))"

lemma wp_keeps_bindE:
  assumes "wp m (keeps view S n gs w) w" "\<And>e. hs (Inl e) = {}"
    and "\<And>x w1. \<forall>g \<in> gs (Inr x). gref g = n \<Longrightarrow> wp (f x) (keeps view S n hs w1) w1"
  shows "wp (bindE m f) (keeps view S n hs w) w"
proof (rule wp_bindE_rule [OF assms(1)])
  fix x w1 assume "keeps view S n gs w (Inr x) w1"
  with assms(3) [of x w1] show "wp (f x) (keeps view S n hs w) w1"
    by (auto simp: keeps_def elim!: wp_mono intro: only_touches_trans)
qed (simp add: keeps_def assms(2))

lemma wp_keeps_next:
  assumes "wp m (keeps view S n Basic_BNFs.setr w) w" "\<And>e. hs (Inl e) = {}"
    and "\<And>g w1. gref g = n \<Longrightarrow> wp (f g) (keeps view S n hs w1) w1"
  shows "wp (bindE m f) (keeps view S n hs w) w"
  by (rule wp_keeps_bindE [OF assms(1)]) (simp_all add: assms(2,3) del: ref_of_simps)

lemma wp_keeps_bind:
  assumes "wp m (keeps view S n gs w) w" "\<And>x w1. \<forall>g \<in> gs x. gref g = n \<Longrightarrow> wp (f x) (keeps view S n hs w1) w1"
  shows "wp (m \<bind> f) (keeps view S n hs w) w"
proof (rule wp_bind_rule [OF assms(1)])
  fix x w1 assume "keeps view S n gs w x w1"
  with assms(2) [of x w1] show "wp (f x) (keeps view S n hs w) w1"
    by (auto simp: keeps_def elim!: wp_mono intro: only_touches_trans)
qed

lemma wp_keeps_ret: "\<forall>g \<in> gs r. gref g = n \<Longrightarrow> wp (ret r) (keeps view S n gs w) w"
  by (simp add: wp_ret keeps_def)

lemma wp_keeps_touches: "wp m (keeps view S n gs w) w \<Longrightarrow> wp m (\<lambda>_. only_touches view S w) w"
  by (erule wp_mono) (simp add: keeps_def)

lemma wp_touches_keeps: "wp m (\<lambda>_. only_touches view S w) w \<Longrightarrow> wp m (keeps view S n (\<lambda>_. {}) w) w"
  by (erule wp_mono) (simp add: keeps_def)

abbreviation this_one :: "gitops_cluster \<Rightarrow> gitops_cluster set" where
  "this_one g \<equiv> {g}"

lemma keeps_write_conditions:
  assumes "kube_api (r_client R) view" "gref g = n" "n \<in> S"
  shows "wp (write_conditions R g) (keeps view S n this_one w) w"
  unfolding write_conditions_def wp_bind
proof (rule kube_api.wp_update_status [OF assms(1)], goal_cases)
  case (1 y w1 old)
  have "ref_of y = n" if "as_gitops y = Some g'" for g'
    using same_content_ref [OF 1(2)] kube_api.view_ref [OF assms(1) 1(1)] assms(2) by (simp add: ref_of_def)
  with 1 assms show ?case
    by (auto simp: wp_ret keeps_def only_touches_def split: option.splits)
next
  case (2 e w1)
  have "only_touches view S w w1" by (rule only_touchesI [OF assms(3)]) (use 2(1) assms(2) in simp)
  with assms(2) show ?case by (simp add: wp_ret keeps_def)
qed

lemma keeps_add_condition:
  assumes "kube_api (r_client R) view" "gref g = n"
  shows "wp (add_condition R g t s r m) (keeps view S n this_one w) w"
  unfolding add_condition_def wp_bind
  by (rule kube_api.wp_now_text [OF assms(1)]) (use assms(2) in \<open>simp add: wp_ret keeps_def only_touches_view\<close>)

lemma keeps_setCondition:
  assumes "kube_api (r_client R) view" "gref g = n" "n \<in> S"
  shows "wp (setCondition R g t s r m) (keeps view S n this_one w) w"
  unfolding setCondition_def
  by (rule wp_keeps_bind [OF keeps_add_condition [OF assms(1,2)]]) (simp add: keeps_write_conditions [OF assms(1) _ assms(3)])

lemma keeps_add_missing:
  assumes "kube_api (r_client R) view" "gref g = n"
  shows "wp (add_missing_conditions R ts (g, b)) (keeps view S n (\<lambda>p. {fst p}) w) w"
  using assms(2)
proof (induction ts arbitrary: g b w)
  case Nil
  then show ?case by (simp add: wp_keeps_ret)
next
  case (Cons t ts)
  show ?case
    unfolding add_missing_conditions.simps
    by (auto intro!: wp_keeps_bind [OF keeps_add_condition [OF assms(1) Cons.prems]] Cons simp del: ref_of_simps)
qed

lemma keeps_initialize:
  assumes "kube_api (r_client R) view" "gref g = n" "n \<in> S"
  shows "wp (initializeConditions R g) (keeps view S n this_one w) w"
  unfolding initializeConditions_def
proof (rule wp_keeps_bind [OF keeps_add_missing [OF assms(1,2)]])
  fix p :: "gitops_cluster \<times> bool" and w1 assume "\<forall>g \<in> {fst p}. gref g = n"
  then have "gref (fst p) = n" by blast
  then show "wp (case p of (g, needsUpdate) \<Rightarrow> if needsUpdate then write_conditions R g else ret g) (keeps view S n this_one w1) w1"
    using keeps_write_conditions [OF assms(1) _ assms(3)] by (cases p) (simp add: wp_keeps_ret del: ref_of_simps)
qed

lemma keeps_require:
  assumes "kube_api (r_client R) view" "gref g = n" "n \<in> S" "\<And>w1. wp m (\<lambda>_. only_touches view S w1) w1"
  shows "wp (require R g t reason failed succeeded m) (keeps view S n Basic_BNFs.setr w) w"
  unfolding require_def
proof (rule wp_keeps_bind [OF wp_touches_keeps [OF assms(4)]])
  fix r :: "unit result" and w1
  show "wp (case r of
        Inl e \<Rightarrow> setCondition R g t CondFalse reason (failed @ '': '' @ error_text e) \<bind> (\<lambda>_. ret (Inl e))
      | Inr _ \<Rightarrow> setCondition R g t CondTrue ReasonSuccess succeeded \<bind> (\<lambda>g. ret (Inr g)))
      (keeps view S n Basic_BNFs.setr w1) w1"
    by (cases r) (auto intro!: wp_keeps_bind [OF keeps_setCondition [OF assms(1-3)]] wp_keeps_ret simp del: ref_of_simps)
qed

section \<open>Preparing the hub\<close>

lemma set_server_ref [simp]: "gc_meta (set_server a p g) = gc_meta g"
  by (simp add: set_server_def)

text \<open>The objects of the hub that belong to a GitOpsCluster, apart from the Placement it refers to.\<close>

definition hub_objects :: "string \<Rightarrow> string \<Rightarrow> objref set" where
  "hub_objects ns name = {Ref KGitOpsCluster ns name, Ref KRole ns AddonManagerRoleName, Ref KRoleBinding ns AddonManagerRoleBindingName,
     Ref KSecret ns ArgoCDAgentJWTSecretName, Ref KSecret ns ArgoCDAgentResourceProxyTLSSecretName,
     Ref KAddOnTemplate '''' (''argocd-agent-addon-'' @ ns @ ''-'' @ name)} \<union>
     certificate_objects ns \<union> principal_deployments ns"

lemma hub_template: "gref g = Ref KGitOpsCluster ns name \<Longrightarrow> template_ref g \<in> hub_objects ns name"
  by (auto simp: hub_objects_def template_ref_def getAddOnTemplateName_def)

lemma hub_self: "Ref KGitOpsCluster ns name \<in> hub_objects ns name"
  by (simp add: hub_objects_def)

abbreviation third :: "('a \<times> 'b \<times> gitops_cluster) result \<Rightarrow> gitops_cluster set" where
  "third r \<equiv> (snd \<circ> snd) ` Basic_BNFs.setr r"

lemma keeps_discovery:
  assumes "gref g = n"
  shows "wp (EnsureServerAddressAndPort C g ns) (\<lambda>r _. \<forall>p \<in> Basic_BNFs.setr r. gref (snd p) = n) w"
  unfolding EnsureServerAddressAndPort_def
  using assms by (auto simp: wp_simps split: sum.splits prod.splits intro!: wp_mono [OF wp_True])

lemma keeps_report_server:
  assumes "kube_api (r_client R) view" "gref g = n" "n \<in> S"
  shows "wp (report_server R g) (keeps view S n third w) w"
  unfolding report_server_def Let_def
  by (auto intro!: wp_keeps_bind [OF keeps_setCondition [OF assms]] wp_keeps_ret simp del: ref_of_simps)

lemma keeps_save_discovered:
  assumes "kube_api (r_client R) view" "gref g = n" "n \<in> S"
  shows "wp (save_discovered R b g) (keeps view S n Basic_BNFs.setr w) w"
proof -
  have "wp (update_as as_gitops (r_client R) (OGitOpsCluster g)) (keeps view S n Basic_BNFs.setr w) w"
  proof (rule kube_api.wp_update_as [OF assms(1)], goal_cases)
    case (1 y z w1 old)
    have "ref_of y = n"
      using same_content_ref [OF 1(2)] assms(2) by (simp add: ref_of_def)
    with 1 assms show ?case by (auto simp: keeps_def only_touches_def)
  next
    case (2 e y w1 old)
    have "only_touches view S w w1" by (rule only_touchesI [OF assms(3)]) (use 2(4) assms(2) in simp)
    then show ?case by (simp add: keeps_def)
  next
    case (3 e w1)
    have "only_touches view S w w1" by (rule only_touchesI [OF assms(3)]) (use 3(1) assms(2) in simp)
    then show ?case by (simp add: keeps_def)
  qed
  then show ?thesis
    unfolding save_discovered_def wp_if wp_wrapE
    by (auto simp: keeps_def wp_ret assms(2) wrap_result_def split: sum.splits elim!: wp_mono simp del: ref_of_simps)
qed

lemma keeps_discover_server:
  assumes "kube_api (r_client R) view" "gref g = n" "n \<in> S"
  shows "wp (discover_server R ns g) (keeps view S n third w) w"
  unfolding discover_server_def
proof (rule wp_keeps_bind [where gs = "\<lambda>r. snd ` Basic_BNFs.setr r"])
  show "wp (EnsureServerAddressAndPort (r_client R) g ns) (keeps view S n (\<lambda>r. snd ` Basic_BNFs.setr r) w) w"
    unfolding keeps_def ball_simps
    by (rule wp_conj [OF kube_api.touches_discover [OF assms(1)] keeps_discovery [OF assms(2)]])
next
  fix r :: "(bool \<times> gitops_cluster) result" and w1
  assume r: "\<forall>g \<in> snd ` Basic_BNFs.setr r. gref g = n"
  show "wp (case r of
        Inl e \<Rightarrow> setCondition R g ConditionServerDiscovered CondFalse ReasonServerNotDiscovered
            (''Server discovery failed: '' @ error_text e) \<bind> (\<lambda>_. ret (Inl e))
      | Inr (specUpdated, g) \<Rightarrow> bindE (save_discovered R specUpdated g) (report_server R)) (keeps view S n third w1) w1"
  proof (cases r)
    case (Inl e)
    then show ?thesis
      by (auto intro!: wp_keeps_bind [OF keeps_setCondition [OF assms]] wp_keeps_ret simp del: ref_of_simps)
  next
    case (Inr p)
    with r have "gref (snd p) = n" by simp
    then show ?thesis unfolding Inr sum.case case_prod_beta
      by (intro wp_keeps_bindE [OF keeps_save_discovered [OF assms(1) _ assms(3)]] keeps_report_server [OF assms(1) _ assms(3)]) auto
  qed
qed

lemma keeps_prepare_hub:
  assumes "kube_api (r_client R) view" "cert_rotation (r_certs R) view"
    and "gref g = n" "n = Ref KGitOpsCluster ns name" "hub_objects ns name \<subseteq> S"
  shows "wp (prepare_hub R ns g) (keeps view S n third w) w"
proof -
  have objs: "n \<in> S" "Ref KRole ns AddonManagerRoleName \<in> S" "Ref KRoleBinding ns AddonManagerRoleBindingName \<in> S"
    "Ref KSecret ns ArgoCDAgentJWTSecretName \<in> S" "Ref KSecret ns ArgoCDAgentResourceProxyTLSSecretName \<in> S"
    "certificate_objects ns \<subseteq> S" "certificate_objects ns \<union> principal_deployments ns \<subseteq> S"
    using assms(5) unfolding assms(4) hub_objects_def by blast+
  note step = keeps_require [OF assms(1) _ objs(1)]
  have rbac: "wp (ensure_rbac R ns g) (keeps view S n Basic_BNFs.setr w1) w1" if "gref g = n" for g w1
    unfolding ensure_rbac_def by (intro step that kube_api.touches_rbac [OF assms(1)] objs)
  have keys: "wp (ensure_keys R ns a g) (keeps view S n Basic_BNFs.setr w1) w1" if "gref g = n" for a g w1
    unfolding ensure_keys_def
    by (intro wp_keeps_next step kube_api.touches_jwt [OF assms(1)] touches_ca [OF assms(2)] touches_principal [OF assms(1,2)]
        touches_resource_proxy [OF assms(1,2)] that objs) simp_all
  have template: "wp (ensure_template R g) (keeps view S n Basic_BNFs.setr w1) w1" if "gref g = n" for g w1
    unfolding ensure_template_def
    using hub_template [OF that [unfolded assms(4)]] assms(5)
    by (intro step that kube_api.touches_template [OF assms(1)]) blast
  show ?thesis
    unfolding prepare_hub_def case_prod_beta
    by (intro wp_keeps_next [OF rbac] wp_keeps_bindE [OF keeps_discover_server [OF assms(1) _ objs(1)]]
        wp_keeps_next [OF keys] wp_keeps_next [OF template] wp_keeps_ret assms(3))
      (simp_all del: ref_of_simps)
qed

section \<open>Looking after a cluster\<close>

definition cluster_objects :: "('w, 'ca) reconciler \<Rightarrow> string \<Rightarrow> string \<Rightarrow> string \<Rightarrow> objref set" where
  "cluster_objects R ns name c = client_objects ns c \<union>
     {cluster_secret_ref ns c, Ref KManifestWork c ArgoCDAgentCAManifestWorkName,
      Ref KManifestWork c (getArgoCDCRManifestWorkName (sha256_hex (r_cr R)) ns name), addon_ref c, addon_config_ref_of c}"

lemma touches_import:
  assumes "kube_api C view" "cert_rotation L view" "secret_lister X view"
    and "client_objects ns (m_name (mc_meta c)) \<subseteq> S" "cluster_secret_ref ns (m_name (mc_meta c)) \<in> S"
  shows "wp (importManagedClusterToArgoCD C L X parse_url P ns c p) (\<lambda>_. only_touches view S w) w"
proof -
  have data: "wp (buildArgoCDClusterSecretData C L X parse_url P ns c) (\<lambda>_. only_touches view S w1) w1" for w1
    by (rule touches_subset [OF _ assms(4)], rule wp_mono [OF wp_build_data [OF assms(1-3)]]) blast
  have upd: "wp (updateArgoCDClusterSecret C (buildArgoCDClusterSecretData C L X parse_url P ns c) s n p)
       (\<lambda>_. only_touches view S w1) w1" if "ref_of (OSecret s) \<in> S" for s n w1
    unfolding updateArgoCDClusterSecret_def Let_def
    by (intro touches data kube_api.wp_touches_update [OF assms(1)]) (use that in simp)
  show ?thesis
    unfolding importManagedClusterToArgoCD_def createArgoCDClusterSecret_def Let_def
  proof (rule wp_touches_wrapE, rule kube_api.touches_ensure_object [OF assms(1)], goal_cases)
    case (1 x s w1)
    note x = 1(1)
    note y = 1(2)
    have "ref_of x = cluster_secret_ref ns (m_name (mc_meta c))"
      unfolding cluster_secret_ref_def using x by (rule kube_api.view_ref [OF assms(1)])
    with y assms(5) have "ref_of (OSecret s) \<in> S"
      by (simp del: ref_of_simps)
    then show ?case by (rule upd)
  next
    case (2 w1)
    show ?case unfolding wp_bindE wp_wrapE
      by (rule wp_mono [OF data])
        (use assms(5) in \<open>auto simp: wp_ret new_cluster_secret_def cluster_secret_ref_def wrap_result_def split: sum.splits\<close>)
  qed
qed

context kube_api
begin

lemma touches_store_ca:
  assumes "ref_of (OManifestWork mw) \<in> S"
  shows "wp (store_ca_work C J c cert mw) (\<lambda>_. only_touches view S w) w"
  unfolding store_ca_work_def wp_bind
proof (rule wp_fetch, goal_cases)
  case (1 x y w1)
  then have "ref_of (OManifestWork (propagate (y\<lparr>mw_spec := mw_spec mw\<rparr>))) \<in> S"
    using assms by simp
  then have "wp (update C (OManifestWork (propagate (y\<lparr>mw_spec := mw_spec mw\<rparr>)))) (\<lambda>_. only_touches view S w) w1"
    by (intro touches_after [OF only_touches_view [OF 1(1)]] wp_touches_update)
  then show ?case by (simp add: wp_wrapE wp_ret wp_if only_touches_view [OF 1(1)])
next
  case (2 e w1)
  have "wp (create C (OManifestWork (propagate mw))) (\<lambda>_. only_touches view S w) w1"
    by (intro touches_after [OF only_touches_view [OF 2(1)]] wp_touches_create) (use assms in simp)
  then show ?case by (simp add: wp_wrapE wp_ret wp_if only_touches_view [OF 2(1)])
qed

lemma touches_distribute:
  assumes "Ref KManifestWork (m_name (mc_meta c)) ArgoCDAgentCAManifestWorkName \<in> S"
  shows "wp (createArgoCDAgentManifestWork C J ns spoke c) (\<lambda>_. only_touches view S w) w"
proof -
  have ca: "wp (getArgoCDAgentCACertString C ns) (\<lambda>_. only_touches view S w1) w1" for w1
    by (rule touches_quiet, rule wp_mono [OF wp_ca_cert]) blast
  have store: "wp (store_ca_work C J (m_name (mc_meta c)) cert mw) (\<lambda>_. only_touches view S w1) w1"
    if "buildArgoCDAgentManifestWork J (m_name (mc_meta c)) spoke cert = Some mw" for cert mw w1
    by (rule touches_store_ca) (use built_ref [OF that] assms in simp)
  have deliver: "wp (case buildArgoCDAgentManifestWork J (m_name (mc_meta c)) spoke cert of
       None \<Rightarrow> ret (Inl (Panic ''nil pointer dereference''))
     | Some mw \<Rightarrow> store_ca_work C J (m_name (mc_meta c)) cert mw) (\<lambda>_. only_touches view S w1) w1" for cert w1
    using store [of cert] by (auto intro: touches split: option.split)
  show ?thesis
    unfolding createArgoCDAgentManifestWork_def Let_def
    by (rule wp_touches_if [OF _ wp_touches_bindE [OF wp_touches_wrapE [OF ca] deliver]]) (rule touches)
qed

lemma touches_store_cr:
  assumes "Ref KManifestWork c n \<in> S"
  shows "wp (store_cr_work C c (cr_work n c ms)) (\<lambda>_. only_touches view S w) w"
  unfolding store_cr_work_def wp_bind
proof (rule wp_fetch, goal_cases)
  case (1 x y w1)
  then have "ref_of (OManifestWork (refresh_cr_work y (cr_work n c ms))) \<in> S" using assms by simp
  then have "wp (update C (OManifestWork (refresh_cr_work y (cr_work n c ms)))) (\<lambda>_. only_touches view S w) w1"
    by (intro touches_after [OF only_touches_view [OF 1(1)]] wp_touches_update)
  then show ?case by (simp add: wp_wrapE wp_ret wp_if only_touches_view [OF 1(1)])
next
  case (2 e w1)
  have "wp (create C (OManifestWork (cr_work n c ms))) (\<lambda>_. only_touches view S w) w1"
    by (intro touches_after [OF only_touches_view [OF 2(1)]] wp_touches_create) (use assms in simp)
  then show ?case by (simp add: wp_wrapE wp_ret wp_if only_touches_view [OF 2(1)])
qed

lemma touches_deliver:
  assumes "cr_ref L g (m_name (mc_meta c)) \<in> S"
  shows "wp (createArgoCDCRManifestWork L C g c a p) (\<lambda>_. only_touches view S w) w"
proof -
  have ms: "wp (cr_manifests L C g a p) (\<lambda>_. only_touches view S w1) w1" for w1
    unfolding cr_manifests_def buildDefaultArgoCDCR_def Let_def
    by (intro touches touches_quiet [OF wp_mono [OF wp_agent_image]]) blast
  show ?thesis
    unfolding createArgoCDCRManifestWork_def Let_def
    by (intro touches ms touches_store_cr) (use assms in \<open>simp add: cr_ref_def\<close>)
qed

lemma touches_addon_config:
  assumes "addon_config_ref_of c \<in> S"
  shows "wp (EnsureAddOnDeploymentConfig C (c, vs)) (\<lambda>_. only_touches view S w) w"
  unfolding EnsureAddOnDeploymentConfig_def prod.case
proof (rule touches_ensure_object, goal_cases)
  case (1 x y w1)
  have "ref_of (OAddOnDeploymentConfig y) \<in> S" using view_ref [OF 1(1)] 1(2) assms by simp
  then show ?case unfolding updateAddOnDeploymentConfig_def Let_def by (intro touches) simp
qed (use assms in \<open>simp add: wp_ret new_addon_config_def\<close>)

lemma touches_addon:
  assumes "addon_ref c \<in> S"
  shows "wp (EnsureManagedClusterAddon C (c, g)) (\<lambda>_. only_touches view S w) w"
  unfolding EnsureManagedClusterAddon_def prod.case Let_def
proof (rule touches_ensure_object, goal_cases)
  case (1 x y w1)
  have "ref_of (OManagedClusterAddOn y) \<in> S" using view_ref [OF 1(1)] 1(2) assms by simp
  then show ?case unfolding ensureAddonConfig_def by (intro touches) simp
qed (use assms in \<open>simp add: wp_ret new_addon_def\<close>)

end

section \<open>The placement\<close>

text \<open>
  The names of the clusters that the PlacementDecisions of some Placements of a namespace select, and of those with an addon the
  controller made.
\<close>

definition decided :: "('w \<Rightarrow> objref \<Rightarrow> kobj option) \<Rightarrow> 'w \<Rightarrow> string \<Rightarrow> (string \<Rightarrow> bool) \<Rightarrow> string set" where
  "decided view w ns P = {c. \<exists>d p. view w (ref_of (OPlacementDecision d)) = Some (OPlacementDecision d) \<and> m_namespace (pd_meta d) = ns \<and>
     map_of (m_labels (pd_meta d)) placement_label = Some p \<and> P p \<and> c \<in> set (pd_clusters d)}"

definition served :: "('w \<Rightarrow> objref \<Rightarrow> kobj option) \<Rightarrow> 'w \<Rightarrow> string set" where
  "served view w = {c. \<exists>a. view w (addon_ref c) = Some (OManagedClusterAddOn a) \<and>
     map_of (m_labels (mca_meta a)) ''app.kubernetes.io/managed-by'' = Some ''argocd-pull-integration''}"

lemma decided_cong: "(\<And>q. ref_kind q = KPlacementDecision \<Longrightarrow> view w' q = view w q) \<Longrightarrow> decided view w' ns P = decided view w ns P"
  by (simp add: decided_def)

lemma served_cong: "(\<And>q. ref_kind q = KManagedClusterAddOn \<Longrightarrow> view w' q = view w q) \<Longrightarrow> served view w' = served view w"
  by (simp add: served_def)

context kube_api
begin

lemma wp_get_clusters:
  "wp (get_clusters C names) (\<lambda>cs w'. view w' = view w \<and>
     (\<forall>c \<in> set cs. view w (Ref KManagedCluster '''' (m_name (mc_meta c))) = Some (OManagedCluster c) \<and> m_name (mc_meta c) \<in> set names)) w"
proof (induction names arbitrary: w)
  case Nil
  then show ?case by (simp add: wp_simps)
next
  case (Cons name names)
  show ?case
    unfolding get_clusters.simps wp_bind
  proof (rule wp_fetch, goal_cases)
    case (1 x c w1)
    then have "m_name (mc_meta c) = name" by auto
    with 1 show ?case
      by (auto simp: wp_ret intro!: wp_mono [OF Cons.IH])
  next
    case (2 e w1)
    then show ?case by (auto simp: wp_ret intro!: wp_mono [OF Cons.IH])
  qed
qed

lemma wp_decided_clusters:
  "wp (decided_clusters C ns p) (\<lambda>r w'. view w' = view w \<and> (\<forall>cs. r = Inr cs \<longrightarrow>
     (\<forall>c \<in> set cs. view w (Ref KManagedCluster '''' (m_name (mc_meta c))) = Some (OManagedCluster c) \<and>
        (\<exists>d. view w (ref_of (OPlacementDecision d)) = Some (OPlacementDecision d) \<and> m_namespace (pd_meta d) = ns \<and>
           map_of (m_labels (pd_meta d)) placement_label = Some p \<and> m_name (mc_meta c) \<in> set (pd_clusters d))))) w"
    (is "wp _ ?Q w")
  unfolding decided_clusters_def wp_bindE wp_wrapE
proof (rule wp_list_as, goal_cases)
  case (1 xs w1)
  have d: "view w (ref_of (OPlacementDecision d)) = Some (OPlacementDecision d) \<and> m_namespace (pd_meta d) = ns \<and>
      map_of (m_labels (pd_meta d)) placement_label = Some p" if "d \<in> set (List.map_filter as_decision xs)" for d
    using that 1(3) [of "OPlacementDecision d"] by (auto simp: set_map_filter in_ns_def labels_match_def)
  show ?case
    unfolding wrap_result_simps sum.case wp_bind
    by (rule wp_mono [OF wp_get_clusters]) (use 1(1) d in \<open>fastforce simp: wp_ret simp del: ref_of_simps\<close>)
qed simp

lemma touches_tolerations:
  assumes "ref_of (OPlacement p) \<in> S"
  shows "wp (ensurePlacementTolerations C p) (\<lambda>_. only_touches view S w) w"
  unfolding ensurePlacementTolerations_def by (intro touches) (use assms in simp)

end

lemma keeps_configure_tolerations:
  assumes "kube_api (r_client R) view" "gref g = n" "n \<in> S" "ref_of (OPlacement p) \<in> S"
  shows "wp (configure_tolerations R g p) (keeps view S n this_one w) w"
  unfolding configure_tolerations_def
proof (rule wp_keeps_bind [OF wp_touches_keeps [OF kube_api.touches_tolerations [OF assms(1,4)]]])
  fix t :: "unit result" and w1
  show "wp (case t of
        Inl e \<Rightarrow> setCondition R g ConditionPlacementTolerationConfigured CondFalse ReasonFailed
          (''Failed to configure placement tolerations: '' @ error_text e)
      | Inr _ \<Rightarrow> setCondition R g ConditionPlacementTolerationConfigured CondTrue ReasonSuccess
          ''Placement tolerations configured successfully'') (keeps view S n this_one w1) w1"
    by (cases t) (simp_all add: keeps_setCondition [OF assms(1-3)] del: ref_of_simps)
qed

text \<open>The clusters a run looks after are decided for its placement, and the placement is the only object besides itself it writes for that.\<close>

definition placed :: "('w \<Rightarrow> objref \<Rightarrow> kobj option) \<Rightarrow> string \<Rightarrow> string \<Rightarrow> managed_cluster list result \<times> gitops_cluster \<Rightarrow> 'w \<Rightarrow> bool" where
  "placed view ns p rg w' = (\<forall>cs. fst rg = Inr cs \<longrightarrow> (\<forall>c \<in> set cs.
     view w' (Ref KManagedCluster '''' (m_name (mc_meta c))) = Some (OManagedCluster c) \<and>
     (\<exists>d. view w' (ref_of (OPlacementDecision d)) = Some (OPlacementDecision d) \<and> m_namespace (pd_meta d) = ns \<and>
        map_of (m_labels (pd_meta d)) placement_label = Some p \<and> m_name (mc_meta c) \<in> set (pd_clusters d))))"

lemma wp_getManagedClusters:
  assumes "kube_api (r_client R) view" "gref g = n" "n = Ref KGitOpsCluster ns name"
    and "n \<in> S" "Ref KPlacement ns (PlacementRefName (gc_spec g)) \<in> S"
  shows "wp (getManagedClustersFromPlacement R g) (\<lambda>r w'. keeps view S n (\<lambda>p. {snd p}) w r w' \<and>
     placed view ns (PlacementRefName (gc_spec g)) r w') w"
    (is "wp _ ?Q w")
proof -
  have ns: "m_namespace (gc_meta g) = ns" using assms(2,3) by simp
  have quiet: "?Q (Inl e, g) w1" if "view w1 = view w" for e w1
    using that assms(2) by (simp add: keeps_def placed_def only_touches_view)
  have list: "wp (decided_clusters (r_client R) ns (PlacementRefName (gc_spec g))) (\<lambda>cs. wp (ret (cs, g')) ?Q) w2"
    if "keeps view S n this_one w g' w2" for g' w2
    unfolding wp_ret
    by (rule wp_mono [OF kube_api.wp_decided_clusters [OF assms(1)]])
      (use that in \<open>auto simp: keeps_def placed_def only_touches_def simp del: ref_of_simps\<close>)
  show ?thesis
    unfolding getManagedClustersFromPlacement_def Let_def ns wp_if wp_bind
  proof (cases "PlacementRefKind (gc_spec g) \<noteq> ''Placement''", simp_all only: if_True if_False not_False_eq_True not_True_eq_False wp_ret)
    case False
    show "wp (fetch as_placement (r_client R) (Ref KPlacement ns (PlacementRefName (gc_spec g)))) (\<lambda>r. wp (case r of
        Inl e \<Rightarrow> ret (Inl (Wrapped ''failed to get Placement'' e), g)
      | Inr placement \<Rightarrow> configure_tolerations R g placement \<bind> (\<lambda>g'.
          decided_clusters (r_client R) ns (PlacementRefName (gc_spec g)) \<bind> (\<lambda>cs. ret (cs, g')))) ?Q) w"
    proof (rule kube_api.wp_fetch [OF assms(1)], goal_cases)
      case (1 x p w1)
      then have "ref_of (OPlacement p) \<in> S" using assms(5) by simp
      note conf = keeps_configure_tolerations [OF assms(1,2,4) this, of w1]
      show ?case unfolding sum.case wp_bind
        by (rule wp_mono [OF conf], rule list) (use 1(1) in \<open>auto simp: keeps_def only_touches_def\<close>)
    qed (simp add: wp_ret quiet)
  qed (rule quiet [OF refl])
qed

section \<open>The clusters\<close>

definition only_panics :: "'a result \<Rightarrow> bool" where
  "only_panics r = (\<forall>e. r = Inl e \<longrightarrow> is_panic e)"

lemma only_panics_Inr [simp]: "only_panics (Inr x)"
  by (simp add: only_panics_def)

lemma only_panics_bindE:
  "wp m (\<lambda>r _. only_panics r) w \<Longrightarrow> (\<And>x w1. wp (f x) (\<lambda>r _. only_panics r) w1) \<Longrightarrow> wp (bindE m f) (\<lambda>r _. only_panics r) w"
  unfolding wp_bindE by (erule wp_mono) (auto simp: only_panics_def split: sum.splits)

lemma only_panics_ret: "wp (ret (Inr x)) (\<lambda>r _. only_panics r) w"
  by (simp add: wp_ret)

lemma only_panics_bind_ret: "wp (m \<bind> (\<lambda>x. ret (Inr (f x)))) (\<lambda>r _. only_panics r) w"
  by (simp add: wp_bind wp_ret)

lemma only_panics_each_failed: "wp (each_failed f cs failed) (\<lambda>r _. only_panics r) w"
proof (induction cs arbitrary: failed w)
  case (Cons c cs)
  have "wp (case r of Inl e \<Rightarrow> if is_panic e then ret (Inl e) else each_failed f cs (failed @ [m_name (mc_meta c)])
      | Inr _ \<Rightarrow> each_failed f cs failed) (\<lambda>r _. only_panics r) w1" for r :: "unit result" and w1
    using Cons by (cases r) (auto simp: wp_ret only_panics_def [of "Inl _"])
  then show ?case unfolding each_failed.simps by (rule wp_bind_rule [OF wp_True])
qed (simp add: wp_simps)

lemma only_panics_report: "wp (report_clusters R t x y g failed) (\<lambda>r _. only_panics r) w"
  unfolding report_clusters_def by (rule only_panics_bind_ret)

lemma only_panics_serve: "wp (serve_clusters R ns a p cs g) (\<lambda>r _. only_panics r) w"
proof -
  have import: "wp (import_clusters R ns cs g) (\<lambda>r _. only_panics r) w1" for g w1
    unfolding import_clusters_def wp_if
    by (simp add: only_panics_bindE [OF only_panics_each_failed only_panics_report] only_panics_ret)
  have distribute: "wp (distribute_ca R ns cs g) (\<lambda>r _. only_panics r) w1" for g w1
    unfolding distribute_ca_def wp_if
    by (simp add: only_panics_bindE [OF only_panics_each_failed only_panics_report] only_panics_ret)
  have deliver: "wp (deliver_crs R a p cs g) (\<lambda>r _. only_panics r) w1" for g w1
    unfolding deliver_crs_def Let_def wp_sum
    by (auto simp: only_panics_bind_ret intro!: only_panics_bindE [OF only_panics_each_failed] split: sum.split)
  have configure: "wp (configure_addons R cs g) (\<lambda>r _. only_panics r) w1" for g w1
    unfolding configure_addons_def wp_if
    by (simp add: only_panics_bindE [OF only_panics_each_failed only_panics_report] only_panics_ret)
  have rest: "wp (clean_up R cs g \<bind> (\<lambda>g. bindE (configure_addons R cs g) (\<lambda>_. ret (Inr ())))) (\<lambda>r _. only_panics r) w1" for g w1
    by (rule wp_bind_rule [OF wp_True]) (rule only_panics_bindE [OF configure only_panics_ret])
  show ?thesis
    unfolding serve_clusters_def
    by (intro only_panics_bindE import distribute deliver) (auto simp: only_panics_ret rest split: option.split)
qed

lemma keeps_then:
  assumes "wp m (keeps view S n gs w) w" "\<And>e. hs (Inl e) = {}" "S \<subseteq> T"
    and "\<And>x w1. only_touches view S w w1 \<Longrightarrow> \<forall>g \<in> gs (Inr x). gref g = n \<Longrightarrow> wp (f x) (keeps view T n hs w1) w1"
  shows "wp (bindE m f) (keeps view T n hs w) w"
proof (rule wp_bindE_rule [OF assms(1)])
  fix x w1 assume "keeps view S n gs w (Inr x) w1"
  with assms(3) assms(4) [of w1 x] show "wp (f x) (keeps view T n hs w) w1"
    by (auto simp: keeps_def elim!: wp_mono intro: only_touches_trans [OF only_touches_mono])
qed (use assms(2,3) in \<open>auto simp: keeps_def intro: only_touches_mono\<close>)

lemma touches_each_failed:
  assumes "\<And>c w1. c \<in> set cs \<Longrightarrow> wp (f c) (\<lambda>_. only_touches view S w1) w1"
  shows "wp (each_failed f cs failed) (\<lambda>_. only_touches view S w) w"
  using assms
proof (induction cs arbitrary: failed w)
  case (Cons c cs)
  show ?case unfolding each_failed.simps
    by (intro touches Cons) simp_all
qed (simp add: wp_simps)

lemma keeps_report:
  assumes "kube_api (r_client R) view" "gref g = n" "n \<in> S"
  shows "wp (report_clusters R t x y g failed) (keeps view S n Basic_BNFs.setr w) w"
  unfolding report_clusters_def
  by (rule wp_keeps_bind [where gs = this_one])
    (auto intro!: keeps_setCondition assms wp_keeps_ret simp del: ref_of_simps)

text \<open>A loop over the clusters, then its report.\<close>

lemma keeps_loop:
  assumes "kube_api (r_client R) view" "gref g = n" "n \<in> S"
    and "\<And>c w1. c \<in> set cs \<Longrightarrow> wp (f c) (\<lambda>_. only_touches view S w1) w1"
  shows "wp (if length cs > 0 then bindE (each_failed f cs []) (report_clusters R t x y g) else ret (Inr g))
    (keeps view S n Basic_BNFs.setr w) w"
  unfolding wp_if
  by (auto intro!: wp_keeps_bindE [OF wp_touches_keeps [OF touches_each_failed [OF assms(4)]]] keeps_report [OF assms(1-3)]
      wp_keeps_ret simp: assms(2) simp del: ref_of_simps)

lemma keeps_import:
  assumes "kube_api (r_client R) view" "cert_rotation (r_certs R) view" "secret_lister (r_x509 R) view" "gref g = n" "n \<in> S"
    and "\<And>c. c \<in> set cs \<Longrightarrow> client_objects ns (m_name (mc_meta c)) \<subseteq> S \<and> cluster_secret_ref ns (m_name (mc_meta c)) \<in> S"
  shows "wp (import_clusters R ns cs g) (keeps view S n Basic_BNFs.setr w) w"
  unfolding import_clusters_def
  by (rule keeps_loop [OF assms(1,4,5)]) (use assms(6) touches_import [OF assms(1-3)] in blast)

lemma keeps_distribute:
  assumes "kube_api (r_client R) view" "gref g = n" "n \<in> S"
    and "\<And>c. c \<in> set cs \<Longrightarrow> Ref KManifestWork (m_name (mc_meta c)) ArgoCDAgentCAManifestWorkName \<in> S"
  shows "wp (distribute_ca R ns cs g) (keeps view S n Basic_BNFs.setr w) w"
  unfolding distribute_ca_def
  by (rule keeps_loop [OF assms(1-3)]) (rule kube_api.touches_distribute [OF assms(1)], rule assms(4))

lemma keeps_configure:
  assumes "kube_api (r_client R) view" "gref g = n" "n \<in> S"
    and "\<And>c. c \<in> set cs \<Longrightarrow> addon_ref (m_name (mc_meta c)) \<in> S \<and> addon_config_ref_of (m_name (mc_meta c)) \<in> S"
  shows "wp (configure_addons R cs g) (keeps view S n Basic_BNFs.setr w) w"
  unfolding configure_addons_def
  by (rule keeps_loop [OF assms(1-3)], rule wp_touches_bindE)
    (use assms(4) in \<open>auto intro!: kube_api.touches_addon_config [OF assms(1)] kube_api.touches_addon [OF assms(1)]\<close>)

lemma keeps_deliver:
  assumes "kube_api (r_client R) view" "gref g = n" "n \<in> S"
    and "\<And>c. c \<in> set cs \<Longrightarrow> cr_ref (r_cr R) g (m_name (mc_meta c)) \<in> S"
  shows "wp (deliver_crs R a p cs g) (keeps view S n (\<lambda>r. \<Union> (set_option ` Basic_BNFs.setr r)) w) w"
proof -
  have loop: "wp (each_failed (\<lambda>c. createArgoCDCRManifestWork (r_cr R) (r_client R) g c a p) (filter (\<lambda>c. \<not> isLocalCluster c) cs) [])
      (keeps view S n (\<lambda>_. {}) w) w"
    by (rule wp_touches_keeps, rule touches_each_failed) (use assms(4) in \<open>auto intro!: kube_api.touches_deliver [OF assms(1)]\<close>)
  have set: "wp (setCondition R g t s r m \<bind> (\<lambda>g. ret (Inr (Some g)))) (keeps view S n (\<lambda>r. \<Union> (set_option ` Basic_BNFs.setr r)) w1) w1"
    for t s r m w1
    by (rule wp_keeps_bind [OF keeps_setCondition [OF assms(1-3)]]) (simp add: wp_keeps_ret)
  show ?thesis
  proof (cases "validateArgoCDCRManifestWork (unmarshal_unstr (r_cr R)) (ArgoCDCRManifestWork (ArgoCDAgentAddon (gc_spec g)))")
    case (Inl e)
    then show ?thesis
      unfolding deliver_crs_def
      by (auto intro!: wp_keeps_bind [OF keeps_setCondition [OF assms(1-3)]] wp_keeps_ret simp del: ref_of_simps)
  next
    case (Inr u)
    then show ?thesis
      unfolding deliver_crs_def Let_def
      by (auto intro!: wp_keeps_bindE [OF loop] set simp del: ref_of_simps)
  qed
qed

section \<open>Clusters that left\<close>

context kube_api
begin

lemma touches_discard:
  assumes "q \<in> S" "\<And>x y. as_o x = Some y \<Longrightarrow> o_of y = x"
  shows "wp (discard C as_o o_of q) (\<lambda>_. only_touches view S w) w"
  unfolding discard_def wp_bind
proof (rule wp_fetch, goal_cases)
  case (1 x y w1)
  then have "ref_of (o_of y) \<in> S" using assms by simp
  then have "wp (log_error (delete_obj C (o_of y))) (\<lambda>_. only_touches view S w1) w1" by (intro touches)
  from touches_after [OF only_touches_view [OF 1(1)] this] show ?case by simp
qed (simp add: wp_ret only_touches_view)

lemma touches_delete_cr:
  assumes "Ref KManifestWork c (getArgoCDCRManifestWorkName (sha256_hex L) ns name) \<in> S"
  shows "wp (deleteArgoCDCRManifestWork L C c ns name) (\<lambda>_. only_touches view S w) w"
  unfolding deleteArgoCDCRManifestWork_def wp_bind
proof (rule wp_fetch, goal_cases)
  case (1 x y w1)
  then have "ref_of (OManifestWork y) \<in> S" using assms by simp
  then have "wp (delete_obj C (OManifestWork y) \<bind> (\<lambda>d. case d of
       Inl e \<Rightarrow> if \<not> is_not_found e then ret (Inl (Wrapped ''failed to delete ArgoCD CR ManifestWork'' e)) else ret (Inr ())
     | Inr _ \<Rightarrow> ret (Inr ()))) (\<lambda>_. only_touches view S w1) w1"
    by (intro touches)
  from touches_after [OF only_touches_view [OF 1(1)] this] show ?case by simp
qed (simp add: wp_ret only_touches_view)

lemma wp_managed_addons:
  "wp (list_as as_addon C KManagedClusterAddOn None [(''app.kubernetes.io/managed-by'', ''argocd-pull-integration'')]) (\<lambda>r w'.
     view w' = view w \<and> (\<forall>addons. r = Inr addons \<longrightarrow> (\<forall>a. a \<in> set addons \<longleftrightarrow>
       view w (ref_of (OManagedClusterAddOn a)) = Some (OManagedClusterAddOn a) \<and>
       map_of (m_labels (mca_meta a)) ''app.kubernetes.io/managed-by'' = Some ''argocd-pull-integration''))) w"
proof (rule wp_list_as, goal_cases)
  case (1 xs w1)
  have "a \<in> set (List.map_filter as_addon xs) \<longleftrightarrow> OManagedClusterAddOn a \<in> set xs" for a
    by (auto simp: set_map_filter)
  with 1(1) 1(3) show ?case by (auto simp: in_ns_def labels_match_def simp del: ref_of_simps)
qed simp

end

text \<open>What is cleaned up for a cluster.\<close>

definition cleaned_objects :: "('w, 'ca) reconciler \<Rightarrow> gitops_cluster \<Rightarrow> string \<Rightarrow> objref set" where
  "cleaned_objects R g c = {addon_ref c, Ref KManifestWork c ArgoCDAgentCAManifestWorkName, cr_ref (r_cr R) g c,
     cluster_secret_ref (m_namespace (gc_meta g)) c}"

lemma cleaned_cluster_objects: "gref g = Ref KGitOpsCluster ns name \<Longrightarrow> cleaned_objects R g c \<subseteq> cluster_objects R ns name c"
  by (auto simp: cleaned_objects_def cluster_objects_def cr_ref_def)

lemma touches_remove_cluster:
  assumes "kube_api (r_client R) view" "m_name (mca_meta a) = ArgoCDAgentAddonName" "cleaned_objects R g (m_namespace (mca_meta a)) \<subseteq> S"
  shows "wp (remove_cluster R g a) (\<lambda>_. only_touches view S w) w"
  unfolding remove_cluster_def Let_def
  by (intro touches kube_api.wp_touches_delete_obj [OF assms(1)] kube_api.touches_discard [OF assms(1)]
      kube_api.touches_delete_cr [OF assms(1)])
    (use assms(2,3) in \<open>auto simp: cleaned_objects_def cr_ref_def\<close>)

lemma touches_remove_clusters:
  assumes "kube_api (r_client R) view"
    and "\<And>a. a \<in> set addons \<Longrightarrow> m_name (mca_meta a) = ArgoCDAgentAddonName \<Longrightarrow> m_namespace (mca_meta a) \<notin> set current \<Longrightarrow>
      cleaned_objects R g (m_namespace (mca_meta a)) \<subseteq> S"
  shows "wp (remove_clusters R g current addons k) (\<lambda>_. only_touches view S w) w"
  using assms(2)
proof (induction addons arbitrary: k w)
  case (Cons a addons)
  show ?case unfolding remove_clusters.simps
    by (intro touches Cons.IH touches_remove_cluster [OF assms(1)] Cons.prems) auto
qed (simp add: wp_simps)

lemma touches_cleanup:
  assumes "kube_api (r_client R) view"
    and "\<And>c. c \<in> served view w - (\<lambda>c. m_name (mc_meta c)) ` set clusters \<Longrightarrow> cleaned_objects R g c \<subseteq> S"
  shows "wp (cleanupRemovedClusters R g clusters) (\<lambda>_. only_touches view S w) w"
  unfolding cleanupRemovedClusters_def wp_bindE wp_wrapE
proof (rule wp_mono [OF kube_api.wp_managed_addons [OF assms(1)]], elim conjE)
  fix r :: "managed_cluster_addon list result" and w1
  assume w1: "view w1 = view w" and r: "\<forall>addons. r = Inr addons \<longrightarrow> (\<forall>a. a \<in> set addons \<longleftrightarrow>
       view w (ref_of (OManagedClusterAddOn a)) = Some (OManagedClusterAddOn a) \<and>
       map_of (m_labels (mca_meta a)) ''app.kubernetes.io/managed-by'' = Some ''argocd-pull-integration'')"
  show "case wrap_result ''failed to list ManagedClusterAddons'' r of Inl e \<Rightarrow> only_touches view S w w1
    | Inr addonList \<Rightarrow> wp (do {
         n \<leftarrow> remove_clusters R g (map (\<lambda>c. m_name (mc_meta c)) clusters) addonList 0;
         ret (Inr n) }) (\<lambda>_. only_touches view S w) w1"
  proof (cases r)
    case (Inl e)
    then show ?thesis by (simp add: only_touches_view [OF w1])
  next
    case (Inr addons)
    have "cleaned_objects R g (m_namespace (mca_meta a)) \<subseteq> S"
      if "a \<in> set addons" "m_name (mca_meta a) = ArgoCDAgentAddonName"
        "m_namespace (mca_meta a) \<notin> set (map (\<lambda>c. m_name (mc_meta c)) clusters)" for a
      using that r [rule_format, OF Inr, of a] by (intro assms(2)) (auto simp: served_def)
    from touches_remove_clusters [OF assms(1) this, where w = w1]
    have "wp (do { n \<leftarrow> remove_clusters R g (map (\<lambda>c. m_name (mc_meta c)) clusters) addons 0; ret (Inr n) })
       (\<lambda>_. only_touches view S w1) w1"
      by (intro touches)
    from touches_after [OF only_touches_view [OF w1] this] show ?thesis by (simp add: Inr)
  qed
qed

lemma keeps_clean_up:
  assumes "kube_api (r_client R) view" "gref g = Ref KGitOpsCluster ns name" "Ref KGitOpsCluster ns name \<in> S"
    and "\<And>c. c \<in> served view w - (\<lambda>c. m_name (mc_meta c)) ` set clusters \<Longrightarrow> cluster_objects R ns name c \<subseteq> S"
  shows "wp (clean_up R clusters g) (keeps view S (Ref KGitOpsCluster ns name) this_one w) w"
  unfolding clean_up_def
proof (rule wp_keeps_bind [OF wp_touches_keeps [OF touches_cleanup [OF assms(1) order_trans [OF cleaned_cluster_objects [OF assms(2)] assms(4)]]]])
  fix r :: "int result" and w1
  show "wp (case r of
        Inl e \<Rightarrow> setCondition R g ConditionRemovedClustersCleanedUp CondFalse ReasonFailed
          (''Failed to cleanup removed clusters: '' @ error_text e)
      | Inr k \<Rightarrow> if k > 0 then setCondition R g ConditionRemovedClustersCleanedUp CondTrue ReasonSuccess
            (''Cleaned up '' @ itoa k @ '' removed cluster(s)'') else ret g)
      (keeps view S (Ref KGitOpsCluster ns name) this_one w1) w1"
    using assms(2) by (cases r) (simp_all add: keeps_setCondition [OF assms(1-3)] wp_keeps_ret del: ref_of_simps)
qed

section \<open>The whole run\<close>

text \<open>The clusters a run may write for: those selected now, and those with an addon of the controller.\<close>

definition run_objects :: "('w, 'ca) reconciler \<Rightarrow> string \<Rightarrow> string \<Rightarrow> string set \<Rightarrow> objref set" where
  "run_objects R ns name cs = insert (Ref KGitOpsCluster ns name) (\<Union>c \<in> cs. cluster_objects R ns name c)"

lemma cluster_objects_run:
  "c \<in> cs \<Longrightarrow> cluster_objects R ns name c \<subseteq> run_objects R ns name cs"
  by (auto simp: run_objects_def)

lemma keeps_serve:
  fixes clusters :: "managed_cluster list"
  assumes "kube_api (r_client R) view" "cert_rotation (r_certs R) view" "secret_lister (r_x509 R) view"
    and "gref g = Ref KGitOpsCluster ns name"
  defines "names \<equiv> (\<lambda>c. m_name (mc_meta c)) ` set clusters"
  shows "wp (serve_clusters R ns a p clusters g)
    (keeps view (run_objects R ns name (names \<union> served view w)) (Ref KGitOpsCluster ns name) (\<lambda>_. {}) w) w"
proof -
  let ?n = "Ref KGitOpsCluster ns name"
  define T where "T = run_objects R ns name (names \<union> served view w)"
  define S where "S = {q \<in> T. ref_kind q \<noteq> KManagedClusterAddOn}"
  have self: "?n \<in> S" "?n \<in> T" by (simp_all add: S_def T_def run_objects_def)
  have sub: "S \<subseteq> T" by (auto simp: S_def)
  have mine: "cluster_objects R ns name (m_name (mc_meta c)) \<subseteq> T" if "c \<in> set clusters" for c
    unfolding T_def by (rule cluster_objects_run) (use that in \<open>simp add: names_def\<close>)
  have objs: "client_objects ns (m_name (mc_meta c)) \<subseteq> S \<and> cluster_secret_ref ns (m_name (mc_meta c)) \<in> S"
      "Ref KManifestWork (m_name (mc_meta c)) ArgoCDAgentCAManifestWorkName \<in> S"
      "Ref KManifestWork (m_name (mc_meta c)) (getArgoCDCRManifestWorkName (sha256_hex (r_cr R)) ns name) \<in> S"
      "addon_ref (m_name (mc_meta c)) \<in> T \<and> addon_config_ref_of (m_name (mc_meta c)) \<in> T" if "c \<in> set clusters" for c
    using mine [OF that] by (auto simp: S_def cluster_objects_def client_objects_def cluster_secret_ref_def)
  have cr: "cr_ref (r_cr R) g (m_name (mc_meta c)) \<in> S" if "c \<in> set clusters" "gref g = ?n" for c g
    using objs(3) [OF that(1)] that(2) by (simp add: cr_ref_def)
  have rest: "wp (clean_up R clusters g \<bind> (\<lambda>g. bindE (configure_addons R clusters g) (\<lambda>_. ret (Inr ()))))
      (keeps view T ?n (\<lambda>_. {}) w1) w1" if "only_touches view S w w1" "gref g = ?n" for g w1
  proof (rule wp_keeps_bind)
    have "served view w1 = served view w"
      by (rule served_cong) (use that(1) in \<open>auto simp: only_touches_def S_def\<close>)
    then show "wp (clean_up R clusters g) (keeps view T ?n this_one w1) w1"
      by (intro keeps_clean_up assms(1) that(2) self) (auto simp: T_def intro: cluster_objects_run [THEN subsetD])
  next
    fix g w2 assume "\<forall>g \<in> this_one g. gref g = ?n"
    then show "wp (bindE (configure_addons R clusters g) (\<lambda>_. ret (Inr ()))) (keeps view T ?n (\<lambda>_. {}) w2) w2"
      by (intro wp_keeps_next [OF keeps_configure [OF assms(1) _ self(2) objs(4)]] wp_keeps_ret) auto
  qed
  have "wp (serve_clusters R ns a p clusters g) (keeps view T ?n (\<lambda>_. {}) w) w"
    unfolding serve_clusters_def
  proof (rule keeps_then [OF keeps_import [OF assms(1-4) self(1) objs(1)] _ sub], assumption, goal_cases)
    case (2 g1 w1)
    show ?case
    proof (rule keeps_then [OF keeps_distribute [OF assms(1) _ self(1) objs(2)] _ sub], goal_cases)
      case (4 g2 w2)
      show ?case
      proof (rule keeps_then [OF keeps_deliver [OF assms(1) _ self(1) cr] _ sub], goal_cases)
        case (5 d w3)
        from 2(1) 4(1) 5(1) have "only_touches view S w w3" by (blast intro: only_touches_trans)
        then show ?case using rest [of w3] 5(2) by (cases d) (simp_all add: wp_keeps_ret)
      qed (use 4(2) in simp_all)
    qed (use 2(2) in simp_all)
  qed simp
  then show ?thesis by (simp add: T_def)
qed

text \<open>With the Placements it may refer to, which a predicate on their names tells.\<close>

definition placed_objects :: "string \<Rightarrow> string \<Rightarrow> (string \<Rightarrow> bool) \<Rightarrow> objref set" where
  "placed_objects ns name P = hub_objects ns name \<union> Ref KPlacement ns ` Collect P"

lemma placed_self: "Ref KGitOpsCluster ns name \<in> placed_objects ns name P"
  by (simp add: placed_objects_def hub_self)

lemma hub_kinds: "q \<in> placed_objects ns name P \<Longrightarrow> ref_kind q \<notin> {KPlacementDecision, KManagedClusterAddOn, KManagedCluster}"
  by (auto simp: placed_objects_def hub_objects_def certificate_objects_def)

lemma hub_decided: "only_touches view (placed_objects ns name P) w w' \<Longrightarrow> decided view w' ns' P' = decided view w ns' P'"
  by (rule decided_cong) (auto simp: only_touches_def dest: hub_kinds)

lemma hub_served: "only_touches view (placed_objects ns name P) w w' \<Longrightarrow> served view w' = served view w"
  by (rule served_cong) (auto simp: only_touches_def dest: hub_kinds)

definition evaluated :: "('w \<Rightarrow> objref \<Rightarrow> kobj option) \<Rightarrow> string \<Rightarrow> string \<Rightarrow> (string \<Rightarrow> bool) \<Rightarrow> 'w \<Rightarrow>
    (managed_cluster list \<times> gitops_cluster) result \<Rightarrow> 'w \<Rightarrow> bool" where
  "evaluated view ns name P w r w' =
     (keeps view (placed_objects ns name P) (Ref KGitOpsCluster ns name) (\<lambda>r. snd ` Basic_BNFs.setr r) w r w' \<and>
     (\<forall>cs g. r = Inr (cs, g) \<longrightarrow> (\<lambda>c. m_name (mc_meta c)) ` set cs \<subseteq> decided view w ns P))"

lemma evaluated_after:
  assumes "only_touches view (placed_objects ns name P) w w1" "evaluated view ns name P w1 r w2"
  shows "evaluated view ns name P w r w2"
  using assms hub_decided [OF assms(1), of ns P] by (auto simp: evaluated_def keeps_def intro: only_touches_trans)

lemma wp_evaluate_placement:
  assumes "kube_api (r_client R) view" "gref g = Ref KGitOpsCluster ns name" "P (PlacementRefName (gc_spec g))"
  shows "wp (evaluate_placement R g) (evaluated view ns name P w) w"
proof -
  let ?n = "Ref KGitOpsCluster ns name" and ?S = "placed_objects ns name P"
  have place: "Ref KPlacement ns (PlacementRefName (gc_spec g)) \<in> ?S" using assms(3) by (simp add: placed_objects_def)
  have set: "wp (setCondition R g' t s r m) (\<lambda>g'' w2. keeps view ?S ?n this_one w1 g'' w2) w1" if "gref g' = ?n" for g' t s r m w1
    by (rule keeps_setCondition [OF assms(1) that placed_self])
  show ?thesis
    unfolding evaluate_placement_def wp_bind case_prod_beta
  proof (rule wp_mono [OF wp_getManagedClusters [OF assms(1,2) refl placed_self place]], elim conjE)
    fix rg :: "managed_cluster list result \<times> gitops_cluster" and w1
    assume k: "keeps view ?S ?n (\<lambda>p. {snd p}) w rg w1" and p: "placed view ns (PlacementRefName (gc_spec g)) rg w1"
    obtain r g' where rg: "rg = (r, g')" by (cases rg)
    with k have w1: "only_touches view ?S w w1" and g': "gref g' = ?n" by (simp_all add: keeps_def)
    show "wp (case fst rg of
        Inl e \<Rightarrow> do {
          _ \<leftarrow> setCondition R (snd rg) ConditionPlacementEvaluated CondFalse ReasonFailed (''Failed to evaluate placement: '' @ error_text e);
          ret (Inl e) }
      | Inr managedClusters \<Rightarrow> do {
          g \<leftarrow> (if length managedClusters = 0
            then setCondition R (snd rg) ConditionPlacementEvaluated CondTrue ReasonNoClusters ''No managed clusters selected by placement''
            else setCondition R (snd rg) ConditionPlacementEvaluated CondTrue ReasonSuccess
              (''Evaluated '' @ count_text managedClusters @ '' managed clusters''));
          ret (Inr (managedClusters, g)) }) (evaluated view ns name P w) w1"
    proof (cases r)
      case (Inl e)
      then show ?thesis unfolding rg fst_conv snd_conv sum.case wp_bind wp_ret
        by (simp only: sum.case wp_bind wp_ret, intro wp_mono [OF set [OF g']])
          (auto simp: evaluated_def keeps_def simp del: ref_of_simps intro: only_touches_trans [OF w1])
    next
      case (Inr cs)
      have "m_name (mc_meta c) \<in> decided view w ns P" if "c \<in> set cs" for c
      proof -
        have "m_name (mc_meta c) \<in> decided view w1 ns P"
          using p that assms(3) by (fastforce simp: placed_def rg Inr decided_def simp del: ref_of_simps)
        then show ?thesis using hub_decided [OF w1, of ns P] by simp
      qed
      then have "evaluated view ns name P w (Inr (cs, g'')) w2" if "keeps view ?S ?n this_one w1 g'' w2" for g'' w2
        using that w1 by (auto simp: evaluated_def keeps_def intro: only_touches_trans)
      then have "wp (setCondition R g' t s rs m) (\<lambda>g''. evaluated view ns name P w (Inr (cs, g''))) w1" for t s rs m
        by (rule wp_mono [OF set [OF g']])
      then show ?thesis by (cases cs) (simp_all add: rg Inr wp_bind wp_ret)
    qed
  qed
qed

text \<open>What a run leaves: it writes for the hub and the clusters, and only for the hub when it fails.\<close>

definition run_post :: "('w, 'ca) reconciler \<Rightarrow> ('w \<Rightarrow> objref \<Rightarrow> kobj option) \<Rightarrow> string \<Rightarrow> string \<Rightarrow> (string \<Rightarrow> bool) \<Rightarrow> 'w \<Rightarrow>
    unit result \<Rightarrow> 'w \<Rightarrow> bool" where
  "run_post R view ns name P w r w' =
     (only_touches view (placed_objects ns name P \<union> run_objects R ns name (decided view w ns P \<union> served view w)) w w' \<and>
      (\<forall>e. r = Inl e \<and> \<not> is_panic e \<longrightarrow> only_touches view (placed_objects ns name P) w w'))"

lemma run_post_hub: "only_touches view (placed_objects ns name P) w w' \<Longrightarrow> run_post R view ns name P w r w'"
  by (auto simp: run_post_def intro: only_touches_mono)

lemma wp_serve_after:
  assumes "kube_api (r_client R) view" "cert_rotation (r_certs R) view" "secret_lister (r_x509 R) view"
    and "gref g = Ref KGitOpsCluster ns name" "only_touches view (placed_objects ns name P) w w1"
    and "(\<lambda>c. m_name (mc_meta c)) ` set clusters \<subseteq> decided view w ns P"
  shows "wp (serve_clusters R ns a p clusters g) (run_post R view ns name P w) w1"
proof (rule wp_mono [OF wp_conj [OF keeps_serve [OF assms(1-4)] only_panics_serve]], elim conjE)
  let ?run = "run_objects R ns name (decided view w ns P \<union> served view w)"
  fix r :: "unit result" and w2
  assume k: "keeps view (run_objects R ns name ((\<lambda>c. m_name (mc_meta c)) ` set clusters \<union> served view w1))
      (Ref KGitOpsCluster ns name) (\<lambda>_. {}) w1 r w2" and r: "only_panics r"
  have "run_objects R ns name ((\<lambda>c. m_name (mc_meta c)) ` set clusters \<union> served view w1) \<subseteq> ?run"
    using assms(6) unfolding hub_served [OF assms(5)] run_objects_def by blast
  with k have "only_touches view ?run w1 w2" by (auto simp: keeps_def intro: only_touches_mono)
  then have "only_touches view (placed_objects ns name P \<union> ?run) w w2"
    using assms(5) by (auto intro: only_touches_trans [OF only_touches_mono only_touches_mono])
  with r show "run_post R view ns name P w r w2" by (auto simp: run_post_def only_panics_def)
qed

text \<open>The part of a run before the placement, after which the GitOpsCluster in memory names a Placement.\<close>

abbreviation preparation :: "('w, 'ca) reconciler \<Rightarrow> gitops_cluster \<Rightarrow> ('w, (string \<times> string \<times> gitops_cluster) result) state" where
  "preparation R g \<equiv> initializeConditions R g \<bind> (\<lambda>g. prepare_hub R (m_namespace (gc_meta g)) g)"

definition names_placement :: "(string \<Rightarrow> bool) \<Rightarrow> (string \<times> string \<times> gitops_cluster) result \<Rightarrow> bool" where
  "names_placement P r = (\<forall>g \<in> third r. P (PlacementRefName (gc_spec g)))"

lemma keeps_preparation:
  assumes "kube_api (r_client R) view" "cert_rotation (r_certs R) view" "gref g = Ref KGitOpsCluster ns name"
  shows "wp (preparation R g) (keeps view (placed_objects ns name P) (Ref KGitOpsCluster ns name) third w) w"
proof (rule wp_keeps_bind [OF keeps_initialize [OF assms(1,3) placed_self]])
  fix g' w1 assume "\<forall>g \<in> this_one g'. gref g = Ref KGitOpsCluster ns name"
  then have g': "gref g' = Ref KGitOpsCluster ns name" "m_namespace (gc_meta g') = ns" by auto
  show "wp (prepare_hub R (m_namespace (gc_meta g')) g')
      (keeps view (placed_objects ns name P) (Ref KGitOpsCluster ns name) third w1) w1"
    unfolding g'(2) by (rule keeps_prepare_hub [OF assms(1,2) g'(1) refl]) (simp add: placed_objects_def)
qed

lemma wp_reconcile_gitops:
  assumes "kube_api (r_client R) view" "cert_rotation (r_certs R) view" "secret_lister (r_x509 R) view"
    and "\<And>g w1. view w (Ref KGitOpsCluster ns name) = Some (OGitOpsCluster g) \<Longrightarrow> view w1 = view w \<Longrightarrow>
      wp (preparation R g) (\<lambda>r _. names_placement P r) w1"
  shows "wp (reconcile_gitops R ns name) (run_post R view ns name P w) w"
proof -
  let ?n = "Ref KGitOpsCluster ns name" and ?S = "placed_objects ns name P" and ?Q = "run_post R view ns name P w"
  have evaluate: "wp (bindE (evaluate_placement R g) (\<lambda>(managedClusters, g). serve_clusters R ns a p managedClusters g)) ?Q w2"
    if "gref g = ?n" "only_touches view ?S w w2" "P (PlacementRefName (gc_spec g))" for g a p w2
  proof (rule wp_bindE_rule [OF wp_evaluate_placement [where P = P, OF assms(1) that(1,3)]], goal_cases)
    case (1 e w3)
    then have "only_touches view ?S w2 w3" by (simp add: evaluated_def keeps_def)
    then show ?case by (intro run_post_hub only_touches_trans [OF that(2)])
  next
    case (2 x w3)
    from evaluated_after [OF that(2) 2]
    show ?case
      by (cases x) (auto simp: evaluated_def keeps_def simp del: ref_of_simps intro!: wp_serve_after [OF assms(1-3)])
  qed
  show ?thesis
    unfolding reconcile_gitops_def wp_bind
  proof (rule kube_api.wp_fetch [OF assms(1)], goal_cases)
    case (1 x g w1)
    then have stored: "view w ?n = Some (OGitOpsCluster g)" "gref g = ?n" and w1: "only_touches view ?S w w1"
      by (auto simp: only_touches_view)
    from wp_conj [OF keeps_preparation [OF assms(1,2) stored(2)] assms(4) [OF stored(1) 1(1)]]
    have "wp (initializeConditions R g) (\<lambda>g. wp (prepare_hub R (m_namespace (gc_meta g)) g) (\<lambda>r w2.
        keeps view ?S ?n third w1 r w2 \<and> names_placement P r)) w1"
      unfolding wp_bind .
    then have "wp (initializeConditions R g) (\<lambda>g w2. m_namespace (gc_meta g) = ns \<and>
        wp (prepare_hub R (m_namespace (gc_meta g)) g) (\<lambda>r w2. keeps view ?S ?n third w1 r w2 \<and> names_placement P r) w2) w1"
      by (rule wp_mono [OF wp_conj [OF keeps_initialize [OF assms(1) stored(2) placed_self]]]) (auto simp: keeps_def)
    then show ?case
      unfolding sum.case wp_bind Let_def
    proof (rule wp_mono, elim conjE)
      fix g1 w2
      assume ns: "m_namespace (gc_meta g1) = ns" and
        prep: "wp (prepare_hub R (m_namespace (gc_meta g1)) g1) (\<lambda>r w2. keeps view ?S ?n third w1 r w2 \<and> names_placement P r) w2"
      show "wp (bindE (prepare_hub R (m_namespace (gc_meta g1)) g1) (\<lambda>(a, p, g). bindE (evaluate_placement R g)
          (\<lambda>(managedClusters, g). serve_clusters R (m_namespace (gc_meta g1)) a p managedClusters g))) ?Q w2"
      proof (rule wp_bindE_rule [OF prep], goal_cases)
        case (1 e w3)
        then have "only_touches view ?S w1 w3" by (simp add: keeps_def)
        then show ?case by (rule run_post_hub [OF only_touches_trans [OF w1]])
      next
        case (2 x w3)
        then have "gref (snd (snd x)) = ?n" "only_touches view ?S w w3" "P (PlacementRefName (gc_spec (snd (snd x))))"
          by (auto simp: keeps_def names_placement_def simp del: ref_of_simps intro: only_touches_trans [OF w1])
        from evaluate [OF this] show ?case by (simp add: case_prod_beta ns)
      qed
    qed
  next
    case (2 e w1)
    then show ?case by (auto simp: wp_simps intro!: run_post_hub only_touches_view)
  qed
qed

lemma wp_reconcile_any_placement:
  assumes "kube_api (r_client R) view" "cert_rotation (r_certs R) view" "secret_lister (r_x509 R) view"
  shows "wp (reconcile_gitops R ns name) (run_post R view ns name (\<lambda>_. True) w) w"
  by (rule wp_reconcile_gitops [OF assms]) (simp add: names_placement_def wp_True)

section \<open>Properties\<close>

text \<open>
  C5: A run that returns an error (other than a panic) has written nothing outside the objects of
  the hub and the Placements of its namespace: no managed cluster is touched before the hub is
  prepared and the placement evaluated, and failures for single clusters do not fail the run.
\<close>

theorem failed_run_spares_clusters:
  assumes "kube_api (r_client R) view" and "cert_rotation (r_certs R) view" and "secret_lister (r_x509 R) view"
    and "run_state (reconcile_gitops R ns name) w = (Inl e, w')" and "\<not> is_panic e"
    and "q \<notin> hub_objects ns name" and "\<And>p. q \<noteq> Ref KPlacement ns p"
  shows "view w' q = view w q"
proof -
  have "q \<notin> placed_objects ns name (\<lambda>_. True)" using assms(6,7) by (auto simp: placed_objects_def)
  with wp_run [OF wp_reconcile_any_placement [OF assms(1-3)] assms(4)] assms(5) show ?thesis
    by (simp add: run_post_def only_touches_def)
qed

text \<open>A reconciler over the in-memory client.\<close>

definition mem_reconciler :: "(mem, unit) reconciler" where
  "mem_reconciler = \<lparr>r_client = mem_client, r_certs = mem_cluster_certs, r_x509 = mem_x509, r_parse_url = (\<lambda>_. Inr example_url),
     r_proxy = \<lparr>ResourceProxyServer = '''', ResourceProxyTLSServerName = ''''\<rparr>, r_cr = plain_cr_lib, r_codec = plain_codec,
     r_jwt_key = Inr ''KEY'', r_controller_image = ''img'', r_operator_image = '''',
     r_find_condition = lookup_condition, r_set_condition = upsert_condition\<rparr>"

lemma mem_reconciler_laws:
  "kube_api (r_client mem_reconciler) mem_view" "cert_rotation (r_certs mem_reconciler) mem_view"
  "secret_lister (r_x509 mem_reconciler) mem_view"
  by (simp_all add: mem_reconciler_def mem_kube_api mem_cluster_certs.cert_rotation_axioms mem_secret_lister)

text \<open>A cluster is placed; the address of the principal is not known, and there is no Service that tells it.\<close>

definition example_run_gitops :: gitops_cluster where
  "example_run_gitops = \<lparr>gc_meta = new_meta ''gitops'' ''argocd'',
     gc_spec = \<lparr>PlacementRefKind = ''Placement'', PlacementRefName = ''all'',
       ArgoCDAgentAddon = \<lparr>PrincipalServerAddress = '''', PrincipalServerPort = '''', Mode = '''', OperatorNamespace = '''',
         AgentNamespace = '''', ArgoCDCRManifestWork = None\<rparr>\<rparr>,
     gc_conditions = []\<rparr>"

definition example_run_world :: mem where
  "example_run_world = mem_of [OGitOpsCluster example_run_gitops, OManagedCluster example_managed_cluster,
     OPlacement \<lparr>pl_meta = new_meta ''all'' ''argocd'', pl_tolerations = []\<rparr>,
     OPlacementDecision \<lparr>pd_meta = (new_meta ''all-1'' ''argocd'')\<lparr>m_labels := [(placement_label, ''all'')]\<rparr>, pd_clusters = [''cluster1'']\<rparr>,
     OSecret \<lparr>sec_meta = new_meta ''user'' ''default'', sec_type = ''Opaque'', sec_data = [(''k'', ''v'')], sec_string_data = []\<rparr>]"

theorem failed_run_spares_clusters_witness:
  "mem_view (snd (run_state (reconcile_gitops mem_reconciler ''argocd'' ''gitops'') example_run_world)) (addon_ref ''cluster1'') = None"
proof -
  let ?run = "run_state (reconcile_gitops mem_reconciler ''argocd'' ''gitops'') example_run_world"
  have "(case fst ?run of Inl e \<Rightarrow> \<not> is_panic e | Inr _ \<Rightarrow> False)" by code_simp
  then obtain e where e: "\<not> is_panic e" "fst ?run = Inl e" by (cases "fst ?run") auto
  then have run: "?run = (Inl e, snd ?run)" by (metis prod.collapse)
  have q: "addon_ref ''cluster1'' \<notin> hub_objects ''argocd'' ''gitops''" by (simp add: hub_objects_def certificate_objects_def)
  have p: "addon_ref ''cluster1'' \<noteq> Ref KPlacement ''argocd'' p" for p by simp
  have none: "mem_view example_run_world (addon_ref ''cluster1'') = None" by code_simp
  from failed_run_spares_clusters [OF mem_reconciler_laws, OF run, OF e(1), OF q, OF p] none show ?thesis by metis
qed

end
