(* ===== verification/GitOps_Steps.thy ===== *)
theory GitOps_Steps
  imports GitOps_Run
begin

text \<open>
  What single steps of the GitOpsCluster reconciler achieve: the conditions it starts with, the tolerations it adds to a
  placement, the clusters a placement selects, the cleanup of clusters that left, and the events that trigger a run.
\<close>

section \<open>Conditions\<close>

text \<open>Conditions that were there are kept, and those added say that the run is in progress.\<close>

definition in_progress :: "condition \<Rightarrow> bool" where
  "in_progress c = (cond_status c = CondUnknown \<and> cond_reason c = ReasonInProgress)"

definition completes :: "(condition list \<Rightarrow> string \<Rightarrow> condition option) \<Rightarrow> string set \<Rightarrow> condition list \<Rightarrow> condition list \<Rightarrow> bool" where
  "completes find_c types old new = (\<forall>t. case find_c old t of
     Some c \<Rightarrow> find_c new t = Some c
   | None \<Rightarrow> if t \<in> types then (\<exists>c. find_c new t = Some c \<and> in_progress c) else find_c new t = None)"

lemma completes_Cons: "find_c old t = Some c \<Longrightarrow> completes find_c (insert t (set ts)) old new = completes find_c (set ts) old new"
  unfolding completes_def by (rule all_cong1) (auto split: option.split)

lemma wp_add_missing:
  assumes "kube_api (r_client R) view" "status_conditions (r_find_condition R) (r_set_condition R)"
  shows "wp (add_missing_conditions R ts (g, b)) (\<lambda>(g', b') w'. view w' = view w \<and> gc_meta g' = gc_meta g \<and>
     (b' \<longleftrightarrow> b \<or> (\<exists>t \<in> set ts. r_find_condition R (gc_conditions g) t = None)) \<and>
     completes (r_find_condition R) (set ts) (gc_conditions g) (gc_conditions g') \<and>
     (\<not> b' \<longrightarrow> g' = g)) w"
proof (induction ts arbitrary: g b w)
  case Nil
  then show ?case by (simp add: wp_ret completes_def split: option.split)
next
  case (Cons t ts)
  show ?case
  proof (cases "r_find_condition R (gc_conditions g) t")
    case (Some c)
    with Cons.IH [of g b w] show ?thesis
      by (auto simp: completes_Cons elim!: wp_mono)
  next
    case None
    let ?g = "\<lambda>now. g\<lparr>gc_conditions := r_set_condition R (gc_conditions g)
       \<lparr>cond_type = t, cond_status = CondUnknown, cond_observed_generation = m_generation (gc_meta g),
        cond_transition_time = now, cond_reason = ReasonInProgress, cond_message = ''Reconciliation in progress''\<rparr>\<rparr>"
    have added: "\<exists>c. r_find_condition R (gc_conditions (?g now)) t = Some c \<and> in_progress c" for now
      using status_conditions.set_find_same [OF assms(2), of "gc_conditions g"
          "\<lparr>cond_type = t, cond_status = CondUnknown, cond_observed_generation = m_generation (gc_meta g),
            cond_transition_time = now, cond_reason = ReasonInProgress, cond_message = ''Reconciliation in progress''\<rparr>"]
      by (auto simp: same_verdict_def in_progress_def)
    have others: "r_find_condition R (gc_conditions (?g now)) t' = r_find_condition R (gc_conditions g) t'" if "t' \<noteq> t" for now t'
      using status_conditions.set_find_other [OF assms(2)] that by simp
    have compl: "completes (r_find_condition R) (set (t # ts)) (gc_conditions g) new"
      if "completes (r_find_condition R) (set ts) (gc_conditions (?g now)) new" for now new
      unfolding completes_def
    proof (intro allI)
      fix t'
      show "case r_find_condition R (gc_conditions g) t' of Some c \<Rightarrow> r_find_condition R new t' = Some c
        | None \<Rightarrow> if t' \<in> set (t # ts) then \<exists>c. r_find_condition R new t' = Some c \<and> in_progress c else r_find_condition R new t' = None"
        using that [unfolded completes_def, rule_format, of t'] others [of t' now] added [of now] None
        by (cases "t' = t") (auto split: option.splits)
    qed
    show ?thesis
      unfolding add_missing_conditions.simps None if_P [OF refl] add_condition_def wp_bind wp_ret
    proof (rule kube_api.wp_now_text [OF assms(1)])
      fix now w1 assume w1: "view w1 = view w"
      show "wp (add_missing_conditions R ts (?g now, True)) (\<lambda>(g', b') w'. view w' = view w \<and> gc_meta g' = gc_meta g \<and>
     (b' \<longleftrightarrow> b \<or> (\<exists>t \<in> set (t # ts). r_find_condition R (gc_conditions g) t = None)) \<and>
         completes (r_find_condition R) (set (t # ts)) (gc_conditions g) (gc_conditions g') \<and> (\<not> b' \<longrightarrow> g' = g)) w1"
        by (rule wp_mono [OF Cons.IH]) (use w1 None in \<open>auto intro: compl [simplified]\<close>)
    qed
  qed
qed

text \<open>
  C34: initializeConditions keeps every condition that is there, gives each of the thirteen
  tracked types that is missing the status Unknown with the reason InProgress, adds no other type,
  touches only the GitOpsCluster, and nothing when all are there; a failed write of the status
  does not change the conditions in memory.
\<close>

theorem conditions_initialized:
  assumes "kube_api (r_client R) view" and "status_conditions (r_find_condition R) (r_set_condition R)"
    and "run_state (initializeConditions R g) w = (g', w')"
  shows "completes (r_find_condition R) (set condition_types) (gc_conditions g) (gc_conditions g') \<and>
     (\<forall>q. q \<noteq> ref_of (OGitOpsCluster g) \<longrightarrow> view w' q = view w q) \<and>
     ((\<forall>t \<in> set condition_types. r_find_condition R (gc_conditions g) t \<noteq> None) \<longrightarrow> g' = g \<and> view w' = view w)"
    (is "?P g' w'")
proof -
  have "wp (initializeConditions R g) ?P w"
    unfolding initializeConditions_def wp_bind
  proof (rule wp_mono [OF wp_add_missing [OF assms(1,2)]], goal_cases)
    case (1 p w1)
    obtain g1 b1 where p: "p = (g1, b1)" by (cases p)
    from 1 have w1: "view w1 = view w" "gc_meta g1 = gc_meta g"
      and b1: "b1 \<longleftrightarrow> (\<exists>t \<in> set condition_types. r_find_condition R (gc_conditions g) t = None)" "\<not> b1 \<longrightarrow> g1 = g"
      and c: "completes (r_find_condition R) (set condition_types) (gc_conditions g) (gc_conditions g1)"
      by (simp_all add: p)
    have ref: "ref_of (OGitOpsCluster g1) = ref_of (OGitOpsCluster g)" using w1(2) by simp
    show ?case
    proof (cases b1)
      case False
      with w1 b1 c show ?thesis by (simp add: p wp_ret)
    next
      case True
      have "wp (write_conditions R g1) ?P w1"
        unfolding write_conditions_def wp_bind
      proof (rule kube_api.wp_update_status [OF assms(1)], goal_cases)
        case (1 y w2 old)
        have "gc_conditions g2 = gc_conditions g1" if "as_gitops y = Some g2" for g2
          using 1(2) that kube_api.view_ref [OF assms(1) 1(1)]
          by (cases old) (auto simp: same_content_def)
        with 1 True b1 c w1 show ?case
          by (auto simp: wp_ret ref split: option.split simp del: ref_of_simps)
      next
        case (2 e w2)
        with True b1 c w1 show ?case by (auto simp: wp_ret ref simp del: ref_of_simps)
      qed
      with True show ?thesis by (simp add: p)
    qed
  qed
  then show ?thesis using assms(3) by (rule wp_run)
qed

theorem conditions_initialized_witness:
  "gc_conditions (fst (run_state (initializeConditions mem_reconciler example_run_gitops) example_run_world)) \<noteq> []"
proof -
  let ?run = "run_state (initializeConditions mem_reconciler example_run_gitops) example_run_world"
  have laws: "status_conditions (r_find_condition mem_reconciler) (r_set_condition mem_reconciler)"
    by (simp add: mem_reconciler_def upsert_status_conditions)
  have none: "r_find_condition mem_reconciler (gc_conditions example_run_gitops) ConditionRBACReady = None" by code_simp
  have "ConditionRBACReady \<in> set condition_types" by (simp add: condition_types_def)
  with conditions_initialized [OF mem_reconciler_laws(1), OF laws, of example_run_gitops example_run_world "fst ?run" "snd ?run"] none
  have "r_find_condition mem_reconciler (gc_conditions (fst ?run)) ConditionRBACReady \<noteq> None"
    unfolding prod.collapse by (fastforce simp: completes_def dest: spec [of _ ConditionRBACReady])
  then show ?thesis by (auto simp: mem_reconciler_def lookup_condition_def)
qed

section \<open>The placement\<close>

lemma tolerates_append: "tolerates ts t \<Longrightarrow> tolerates (ts @ us) t"
  by (auto simp: tolerates_def)

lemma add_tolerations_True: "add_tolerations rs (ts, True) = (ts', b') \<Longrightarrow> b'"
  by (induction rs arbitrary: ts) (auto split: if_splits)

lemma add_tolerations_appends:
  "add_tolerations rs (ts, b) = (ts', b') \<Longrightarrow> (\<exists>added. ts' = ts @ added \<and> set added \<subseteq> set rs) \<and> (\<forall>t \<in> set rs. tolerates ts' t) \<and>
     ((\<forall>t \<in> set rs. tolerates ts t) \<longrightarrow> b' = b \<and> ts' = ts) \<and> (\<not> b' \<longrightarrow> ts' = ts)"
proof (induction rs arbitrary: ts b)
  case (Cons r rs)
  show ?case
  proof (cases "tolerates ts r")
    case True
    with Cons.prems have run: "add_tolerations rs (ts, b) = (ts', b')" by simp
    from Cons.IH [OF run] True show ?thesis by (auto intro: tolerates_append)
  next
    case False
    with Cons.prems have run: "add_tolerations rs (ts @ [r], True) = (ts', b')" by simp
    from Cons.IH [OF run] obtain added where added: "ts' = ts @ [r] @ added" "set added \<subseteq> set rs" and
      rest: "\<forall>t \<in> set rs. tolerates ts' t" "\<not> b' \<longrightarrow> ts' = ts @ [r]" by auto
    have b': "b'" using run by (rule add_tolerations_True)
    have "tolerates ts' r" by (simp add: added(1) tolerates_def)
    moreover have "\<exists>more. ts' = ts @ more \<and> set more \<subseteq> set (r # rs)" using added by auto
    ultimately show ?thesis using rest(1) b' False by auto
  qed
qed simp

text \<open>
  ensurePlacementTolerations touches the placement only, and not even that when both
  tolerations are there; after a success the placement has its old tolerations first, then some of
  the required ones, and tolerates both unreachable and unavailable clusters.
\<close>

theorem placement_tolerations_added:
  assumes "kube_api C view" and "view w (ref_of (OPlacement p)) = Some (OPlacement p)" and "m_deletion (pl_meta p) = None"
    and "run_state (ensurePlacementTolerations C p) w = (r, w')"
  shows "(\<forall>q. q \<noteq> ref_of (OPlacement p) \<longrightarrow> view w' q = view w q) \<and>
     ((\<forall>t \<in> set required_tolerations. tolerates (pl_tolerations p) t) \<longrightarrow> r = Inr () \<and> view w' = view w) \<and>
     (r = Inr () \<longrightarrow> (\<exists>p' added. view w' (ref_of (OPlacement p)) = Some (OPlacement p') \<and>
        pl_tolerations p' = pl_tolerations p @ added \<and> set added \<subseteq> set required_tolerations \<and>
        (\<forall>t \<in> set required_tolerations. tolerates (pl_tolerations p') t)))"
    (is "?P r w'")
proof -
  obtain ts b where run: "add_tolerations required_tolerations (pl_tolerations p, False) = (ts, b)"
    by (cases "add_tolerations required_tolerations (pl_tolerations p, False)")
  note spec = add_tolerations_appends [OF run]
  have "wp (ensurePlacementTolerations C p) ?P w"
  proof (cases b)
    case False
    with spec assms(2) show ?thesis
      by (auto simp: ensurePlacementTolerations_def run wp_ret simp del: ref_of_simps)
  next
    case True
    then have no: "\<not> (\<forall>t \<in> set required_tolerations. tolerates (pl_tolerations p) t)" using spec by blast
    define Q where "Q = ?P"
    have "wp (update C (OPlacement (p\<lparr>pl_tolerations := ts\<rparr>))) (\<lambda>r. Q (wrap_result m r)) w" for m
    proof (rule kube_api.wp_update_unit [OF assms(1)], goal_cases)
      case (1 y w1 old)
      with assms(3) spec no show ?case by (auto simp: Q_def same_content_def)
    next
      case (2 e w1)
      with no show ?case by (auto simp: Q_def)
    qed
    with True show ?thesis by (simp add: ensurePlacementTolerations_def run wp_wrapE Q_def)
  qed
  then show ?thesis using assms(4) by (rule wp_run)
qed

definition example_placement :: placement where
  "example_placement = \<lparr>pl_meta = new_meta ''all'' ''argocd'', pl_tolerations = []\<rparr>"

theorem placement_tolerations_added_witness:
  "\<exists>p. mem_view (snd (run_state (ensurePlacementTolerations mem_client example_placement) example_run_world)) (Ref KPlacement ''argocd'' ''all'') =
     Some (OPlacement p) \<and> set (pl_tolerations p) \<subseteq> set required_tolerations \<and> (\<forall>t \<in> set required_tolerations. tolerates (pl_tolerations p) t)"
proof -
  let ?run = "run_state (ensurePlacementTolerations mem_client example_placement) example_run_world"
  have stored: "mem_view example_run_world (ref_of (OPlacement example_placement)) = Some (OPlacement example_placement)" by code_simp
  have live: "m_deletion (pl_meta example_placement) = None" by code_simp
  have ok: "fst ?run = Inr ()" by code_simp
  have ref: "ref_of (OPlacement example_placement) = Ref KPlacement ''argocd'' ''all''" "pl_tolerations example_placement = []"
    by (simp_all add: example_placement_def)
  from placement_tolerations_added [OF mem_kube_api, OF stored, OF live, of "fst ?run" "snd ?run"] ok
  show ?thesis unfolding prod.collapse ref by auto
qed

text \<open>The clusters a placement selects, and the GitOpsClusters that refer to it.\<close>

definition selected :: "('w \<Rightarrow> objref \<Rightarrow> kobj option) \<Rightarrow> 'w \<Rightarrow> string \<Rightarrow> string \<Rightarrow> string set" where
  "selected view w ns placement = {c. \<exists>d. view w (ref_of (OPlacementDecision d)) = Some (OPlacementDecision d) \<and>
     m_namespace (pd_meta d) = ns \<and> map_of (m_labels (pd_meta d)) placement_label = Some placement \<and> c \<in> set (pd_clusters d)}"

definition cluster_stored :: "('w \<Rightarrow> objref \<Rightarrow> kobj option) \<Rightarrow> 'w \<Rightarrow> managed_cluster \<Rightarrow> bool" where
  "cluster_stored view w c = (view w (Ref KManagedCluster '''' (m_name (mc_meta c))) = Some (OManagedCluster c))"

context reliable_api
begin

lemma wp_get_clusters_healthy:
  "healthy w \<Longrightarrow> wp (get_clusters C names) (\<lambda>cs w'. healthy w' \<and> view w' = view w \<and>
     set cs = {c. m_name (mc_meta c) \<in> set names \<and> cluster_stored view w c}) w"
proof (induction names arbitrary: w)
  case Nil
  then show ?case by (simp add: wp_simps)
next
  case (Cons name names)
  show ?case
    unfolding get_clusters.simps wp_bind
  proof (rule wp_fetch_healthy [OF Cons.prems], goal_cases)
    case (1 x c w1)
    then have x: "view w (Ref KManagedCluster [] name) = Some (OManagedCluster c)" by simp
    have n: "m_name (mc_meta c) = name" using name_of_view [OF x] by simp
    have "cluster_stored view w1 c' = cluster_stored view w c'" for c' by (simp add: cluster_stored_def 1(2))
    moreover have "m_name (mc_meta c') = name \<and> cluster_stored view w c' \<longleftrightarrow> c' = c" for c'
    proof
      assume c': "m_name (mc_meta c') = name \<and> cluster_stored view w c'"
      then have "view w (Ref KManagedCluster [] name) = Some (OManagedCluster c')" by (auto simp: cluster_stored_def)
      with x show "c' = c" by simp
    qed (use n x in \<open>simp add: cluster_stored_def\<close>)
    ultimately have "insert c {c'. m_name (mc_meta c') \<in> set names \<and> cluster_stored view w1 c'} =
        {c'. m_name (mc_meta c') \<in> set (name # names) \<and> cluster_stored view w c'}" by auto
    then show ?case
      by (auto simp: wp_ret 1(2) intro!: wp_mono [OF Cons.IH [OF 1(1)]])
  next
    case (2 e w1)
    have "cluster_stored view w1 c' = cluster_stored view w c'" for c' by (simp add: cluster_stored_def 2(2))
    moreover have "\<not> (m_name (mc_meta c') = name \<and> cluster_stored view w c')" for c'
      using 2(3) by (auto simp: cluster_stored_def)
    ultimately have "{c'. m_name (mc_meta c') \<in> set names \<and> cluster_stored view w1 c'} =
        {c'. m_name (mc_meta c') \<in> set (name # names) \<and> cluster_stored view w c'}" by auto
    then show ?case
      by (auto simp: wp_ret 2(2) intro!: wp_mono [OF Cons.IH [OF 2(1)]])
  next
    case (3 x)
    then show ?case by (auto dest!: kind_of_view) (cases x; simp)
  qed
qed

end

text \<open>
  With an API server that answers, the clusters of a placement are exactly the existing
  ManagedClusters named in a PlacementDecision of the namespace that is labelled with the
  placement; nothing is written.
\<close>

theorem placement_selects_clusters:
  assumes "reliable_api C view healthy" and "healthy w"
    and "run_state (decided_clusters C ns placement) w = (r, w')"
  shows "view w' = view w \<and> (\<exists>clusters. r = Inr clusters \<and>
     set clusters = {c. cluster_stored view w c \<and>
       m_name (mc_meta c) \<in> selected view w ns placement})"
    (is "?P r w'")
proof -
  have "wp (decided_clusters C ns placement) ?P w"
    unfolding decided_clusters_def wp_bindE wp_wrapE
  proof (rule reliable_api.wp_list_healthy [OF assms(1,2)], goal_cases)
    case (1 xs w1)
    have names: "set (concat (map pd_clusters (List.map_filter as_decision xs))) = selected view w ns placement"
      using 1(4) [of "OPlacementDecision _"]
      by (auto simp: selected_def set_map_filter in_ns_def labels_match_def Bex_def simp del: ref_of_simps)
    have stored: "cluster_stored view w1 = cluster_stored view w" by (simp add: fun_eq_iff cluster_stored_def 1(2))
    show ?case unfolding wrap_result_simps sum.case wp_bind
      by (rule wp_mono [OF reliable_api.wp_get_clusters_healthy [OF assms(1) 1(1)]], unfold names wp_ret wrap_result_simps 1(2) stored)
        (elim conjE, simp add: conj_commute)
  qed
  then show ?thesis using assms(3) by (rule wp_run)
qed

theorem placement_selects_clusters_witness:
  "\<exists>clusters. fst (run_state (decided_clusters mem_client ''argocd'' ''all'') example_run_world) = Inr clusters \<and>
     example_managed_cluster \<in> set clusters"
proof -
  let ?run = "run_state (decided_clusters mem_client ''argocd'' ''all'') example_run_world"
  let ?d = "\<lparr>pd_meta = (new_meta ''all-1'' ''argocd'')\<lparr>m_labels := [(placement_label, ''all'')]\<rparr>, pd_clusters = [''cluster1'']\<rparr>"
  have h: "mem_healthy example_run_world" by code_simp
  have d: "mem_view example_run_world (ref_of (OPlacementDecision ?d)) = Some (OPlacementDecision ?d)" by code_simp
  have "''cluster1'' \<in> selected mem_view example_run_world ''argocd'' ''all''"
    unfolding selected_def by (rule CollectI, rule exI [of _ ?d], intro conjI d) simp_all
  moreover have "cluster_stored mem_view example_run_world example_managed_cluster" by code_simp
  moreover have "m_name (mc_meta example_managed_cluster) = ''cluster1''" by code_simp
  moreover from placement_selects_clusters [OF mem_reliable_api, OF h, of "''argocd''" "''all''" "fst ?run" "snd ?run"]
  obtain clusters where "fst ?run = Inr clusters" "set clusters =
      {c. cluster_stored mem_view example_run_world c \<and>
       m_name (mc_meta c) \<in> selected mem_view example_run_world ''argocd'' ''all''}"
    unfolding prod.collapse by blast
  ultimately show ?thesis by auto
qed

text \<open>
  An event of a PlacementDecision asks for a run of exactly the GitOpsClusters of its
  namespace that refer to its placement; an event of another object, or one without the label,
  asks for none.
\<close>

theorem placement_events_mapped:
  assumes "reliable_api C view healthy" and "healthy w"
    and "run_state (placementDecisionMapper C obj) w = (requests, w')"
  shows "view w' = view w \<and> set requests =
     (case obj of
        OPlacementDecision d \<Rightarrow> (\<lambda>g. (m_namespace (gc_meta g), m_name (gc_meta g))) ` {g.
          view w (ref_of (OGitOpsCluster g)) = Some (OGitOpsCluster g) \<and> m_namespace (gc_meta g) = m_namespace (pd_meta d) \<and>
          PlacementRefKind (gc_spec g) = ''Placement'' \<and> map_of (m_labels (pd_meta d)) placement_label = Some (PlacementRefName (gc_spec g))}
      | _ \<Rightarrow> {})"
    (is "?P requests w'")
proof -
  have "wp (placementDecisionMapper C obj) ?P w"
  proof (cases "\<exists>d p. obj = OPlacementDecision d \<and> map_of (m_labels (pd_meta d)) placement_label = Some p")
    case True
    then obtain d p where d: "obj = OPlacementDecision d" "map_of (m_labels (pd_meta d)) placement_label = Some p" by blast
    show ?thesis
      unfolding placementDecisionMapper_def d as_decision.simps option.case d(2) wp_bind kobj.case
    proof (rule reliable_api.wp_list_healthy [OF assms(1,2)], goal_cases)
      case (1 xs w1)
      have gs: "g \<in> set (List.map_filter as_gitops xs) \<longleftrightarrow> view w (ref_of (OGitOpsCluster g)) = Some (OGitOpsCluster g) \<and>
          m_namespace (gc_meta g) = m_namespace (pd_meta d)" for g
        using 1(4) [of "OGitOpsCluster g"] by (auto simp: set_map_filter in_ns_def labels_match_def simp del: ref_of_simps)
      show ?case
        unfolding wp_ret sum.case set_map set_filter gs using 1(2) by (auto simp del: ref_of_simps)
    qed
  next
    case False
    then show ?thesis
      by (cases obj) (auto simp: placementDecisionMapper_def wp_ret split: option.split)
  qed
  then show ?thesis using assms(3) by (rule wp_run)
qed

theorem placement_events_mapped_witness:
  "set (fst (run_state (placementDecisionMapper mem_client (OPlacementDecision
     \<lparr>pd_meta = (new_meta ''all-1'' ''argocd'')\<lparr>m_labels := [(placement_label, ''all'')]\<rparr>, pd_clusters = []\<rparr>)) example_run_world)) \<noteq> {}"
proof -
  let ?d = "\<lparr>pd_meta = (new_meta ''all-1'' ''argocd'')\<lparr>m_labels := [(placement_label, ''all'')]\<rparr>, pd_clusters = []\<rparr>"
  let ?run = "run_state (placementDecisionMapper mem_client (OPlacementDecision ?d)) example_run_world"
  have h: "mem_healthy example_run_world" by code_simp
  have g: "mem_view example_run_world (ref_of (OGitOpsCluster example_run_gitops)) = Some (OGitOpsCluster example_run_gitops)" by code_simp
  have "m_namespace (gc_meta example_run_gitops) = ''argocd''" "PlacementRefKind (gc_spec example_run_gitops) = ''Placement''"
    "PlacementRefName (gc_spec example_run_gitops) = ''all''" by code_simp+
  with placement_events_mapped [OF mem_reliable_api, OF h, of "OPlacementDecision ?d" "fst ?run" "snd ?run"] g
  show ?thesis unfolding prod.collapse by (auto simp del: ref_of_simps)
qed

section \<open>Clusters that left the placement\<close>

lemma cleaned_objects_disjoint: "c \<noteq> d \<Longrightarrow> cleaned_objects R g c \<inter> cleaned_objects R g d = {}"
  by (auto simp: cleaned_objects_def cr_ref_def cluster_secret_ref_def)

context reliable_api
begin

lemma wp_discard_healthy:
  assumes "healthy w" "\<And>x y. as_o x = Some y \<Longrightarrow> o_of y = x" "\<And>x. view w q = Some x \<Longrightarrow> \<exists>y. as_o x = Some y"
  shows "wp (discard C as_o o_of q) (\<lambda>_. removes view healthy {q} w) w"
  unfolding discard_def wp_bind
proof (rule wp_fetch_healthy [OF assms(1)], goal_cases)
  case (1 x y w1)
  then have ref: "ref_of (o_of y) = q" "view w1 (ref_of (o_of y)) \<noteq> None" using assms(2) by auto
  show ?case unfolding sum.case wp_log_error
    by (rule wp_mono [OF wp_delete_found [OF 1(1) ref(2)]])
      (use 1(2) in \<open>auto simp: ref(1) removes_def only_touches_def\<close>)
next
  case (2 e w1)
  then show ?case by (simp add: wp_ret removes_def gone_def only_touches_view)
qed (rule assms(3))

lemma view_work: "view w (Ref KManifestWork ns n) = Some x \<Longrightarrow> \<exists>y. as_work x = Some y"
  by (drule kind_of_view) (cases x; simp)

lemma view_secret: "view w (Ref KSecret ns n) = Some x \<Longrightarrow> \<exists>y. as_secret x = Some y"
  by (drule kind_of_view) (cases x; simp)

lemma wp_delete_cr_healthy:
  assumes "healthy w"
  shows "wp (deleteArgoCDCRManifestWork L C c (m_namespace (gc_meta g)) (m_name (gc_meta g))) (\<lambda>_. removes view healthy {cr_ref L g c} w) w"
  unfolding deleteArgoCDCRManifestWork_def cr_ref_def [symmetric] wp_bind
proof (rule wp_fetch_healthy [OF assms], goal_cases)
  case (1 x y w1)
  then have ref: "ref_of (OManifestWork y) = cr_ref L g c" "view w1 (ref_of (OManifestWork y)) \<noteq> None" by auto
  show ?case unfolding sum.case wp_bind
    by (rule wp_mono [OF wp_delete_found [OF 1(1) ref(2)]])
      (use 1(2) in \<open>auto simp: wp_ret ref(1) removes_def only_touches_def simp del: ref_of_simps\<close>)
next
  case (2 e w1)
  then show ?case by (simp add: wp_ret removes_def gone_def only_touches_view)
qed (simp only: cr_ref_def, rule view_work)

end

lemma removes_two: "removes view healthy S w w1 \<Longrightarrow> wp m (\<lambda>r. removes view healthy T w1) w1 \<Longrightarrow> wp m (\<lambda>r. removes view healthy (S \<union> T) w) w1"
  by (erule wp_mono) (rule removes_union)

lemma wp_remove_cluster_healthy:
  assumes "reliable_api (r_client R) view healthy" "healthy w" "view w (addon_ref c) = Some (OManagedClusterAddOn a)"
    and "m_namespace (mca_meta a) = c" "m_name (mca_meta a) = ArgoCDAgentAddonName"
  shows "wp (remove_cluster R g a) (\<lambda>r w'. r \<and> removes view healthy (cleaned_objects R g c) w w') w"
proof -
  let ?ca = "Ref KManifestWork c ArgoCDAgentCAManifestWorkName" and ?cr = "cr_ref (r_cr R) g c"
    and ?s = "cluster_secret_ref (m_namespace (gc_meta g)) c"
  have api: "kube_api (r_client R) view" using assms(1) by (rule reliable_api.axioms(1))
  have ref: "ref_of (OManagedClusterAddOn a) = addon_ref c" using assms(4,5) by simp
  have secret: "wp (discard (r_client R) as_secret OSecret ?s) (\<lambda>_ w4. removes view healthy (cleaned_objects R g c) w w4) w3"
    if "removes view healthy {addon_ref c, ?ca, ?cr} w w3" for w3
  proof -
    have h: "healthy w3" using that by (simp add: removes_def)
    have "wp (discard (r_client R) as_secret OSecret ?s) (\<lambda>_. removes view healthy {?s} w3) w3"
      by (rule reliable_api.wp_discard_healthy [OF assms(1) h]) (auto simp: cluster_secret_ref_def dest: reliable_api.view_secret [OF assms(1)])
    from removes_two [OF that this] show ?thesis by (simp add: cleaned_objects_def insert_commute)
  qed
  have work: "wp (log_error (deleteArgoCDCRManifestWork (r_cr R) (r_client R) c (m_namespace (gc_meta g)) (m_name (gc_meta g))))
      (\<lambda>_ w3. removes view healthy {addon_ref c, ?ca, ?cr} w w3) w2"
    if "removes view healthy {addon_ref c, ?ca} w w2" for w2
  proof -
    have h: "healthy w2" using that by (simp add: removes_def)
    have sets: "{addon_ref c, ?ca} \<union> {?cr} = {addon_ref c, ?ca, ?cr}" by blast
    from removes_two [OF that reliable_api.wp_delete_cr_healthy [OF assms(1) h, of "r_cr R" c g]] show ?thesis
      unfolding sets wp_log_error .
  qed
  have ca: "wp (discard (r_client R) as_work OManifestWork ?ca) (\<lambda>_ w2. removes view healthy {addon_ref c, ?ca} w w2) w1"
    if "removes view healthy {addon_ref c} w w1" for w1
  proof -
    have h: "healthy w1" using that by (simp add: removes_def)
    have "wp (discard (r_client R) as_work OManifestWork ?ca) (\<lambda>_. removes view healthy {?ca} w1) w1"
      by (rule reliable_api.wp_discard_healthy [OF assms(1) h]) (auto dest: reliable_api.view_work [OF assms(1)])
    from removes_two [OF that this] show ?thesis by (simp add: insert_commute)
  qed
  have rest: "wp (discard (r_client R) as_work OManifestWork ?ca \<bind> (\<lambda>_.
      log_error (deleteArgoCDCRManifestWork (r_cr R) (r_client R) c (m_namespace (gc_meta g)) (m_name (gc_meta g))) \<bind> (\<lambda>_.
      discard (r_client R) as_secret OSecret ?s \<bind> (\<lambda>_. ret True))))
      (\<lambda>r w'. r \<and> removes view healthy (cleaned_objects R g c) w w') w1" if "removes view healthy {addon_ref c} w w1" for w1
    unfolding wp_bind wp_ret
    by (rule wp_mono [OF ca [OF that]], rule wp_mono [OF work], assumption, rule wp_mono [OF secret], assumption) simp
  have "view w (ref_of (OManagedClusterAddOn a)) \<noteq> None" using assms(3) ref by simp
  note del = reliable_api.wp_delete_found [OF assms(1,2) this, unfolded ref]
  show ?thesis
    unfolding remove_cluster_def Let_def assms(4) wp_bind [of "delete_obj _ _"]
    by (rule wp_mono [OF del], elim conjE, hypsubst) (simp only: sum.case if_False rest)
qed

lemma wp_remove_clusters_healthy:
  fixes addons :: "managed_cluster_addon list" and current :: "string list"
  assumes "reliable_api (r_client R) view healthy" "healthy w" "distinct (map (\<lambda>a. ref_of (OManagedClusterAddOn a)) addons)"
    and "\<And>a. a \<in> set addons \<Longrightarrow> view w (ref_of (OManagedClusterAddOn a)) = Some (OManagedClusterAddOn a)"
  defines "left \<equiv> \<lambda>a. m_name (mca_meta a) = ArgoCDAgentAddonName \<and> m_namespace (mca_meta a) \<notin> set current"
  shows "wp (remove_clusters R g current addons k) (\<lambda>r w'. r = k + int (length (filter left addons)) \<and>
     removes view healthy (\<Union>a \<in> {a \<in> set addons. left a}. cleaned_objects R g (m_namespace (mca_meta a))) w w') w"
  using assms(2-4)
proof (induction addons arbitrary: k w)
  case Nil
  then show ?case by (simp add: wp_ret removes_def)
next
  case (Cons a addons)
  let ?O = "\<lambda>a. cleaned_objects R g (m_namespace (mca_meta a))"
  show ?case
  proof (cases "left a")
    case False
    with Cons.prems Cons.IH [of w k] show ?thesis
      by (simp add: left_def conj_disj_distribR Collect_disj_eq cong: conj_cong)
  next
    case True
    then have a: "m_name (mca_meta a) = ArgoCDAgentAddonName" "m_namespace (mca_meta a) \<notin> set current"
      by (simp_all add: left_def)
    have stored: "view w (addon_ref (m_namespace (mca_meta a))) = Some (OManagedClusterAddOn a)"
      using Cons.prems(3) [of a] a(1) by simp
    have sets: "{x \<in> set (a # addons). left x} = insert a {x \<in> set addons. left x}" using True by auto
    show ?thesis
      unfolding remove_clusters.simps if_P [OF conjI [OF a]] wp_bind
    proof (rule wp_mono [OF wp_remove_cluster_healthy [OF assms(1) Cons.prems(1) stored refl a(1)]], elim conjE)
      fix r w1 assume r: r and w1: "removes view healthy (?O a) w w1"
      have keep: "view w1 (ref_of (OManagedClusterAddOn b)) = Some (OManagedClusterAddOn b)" if "b \<in> set addons" for b
      proof -
        have "ref_of (OManagedClusterAddOn b) \<noteq> ref_of (OManagedClusterAddOn a)"
        proof
        assume "ref_of (OManagedClusterAddOn b) = ref_of (OManagedClusterAddOn a)"
        moreover have "ref_of (OManagedClusterAddOn a) \<notin> (\<lambda>x. ref_of (OManagedClusterAddOn x)) ` set addons"
          using Cons.prems(2) unfolding list.map distinct.simps set_map by blast
        ultimately show False using that unfolding image_iff by metis
      qed
        then have "ref_of (OManagedClusterAddOn b) \<notin> ?O a"
          using a(1) by (auto simp: cleaned_objects_def cr_ref_def cluster_secret_ref_def)
        with w1 Cons.prems(3) [of b] that show ?thesis by (simp add: removes_def only_touches_def)
      qed
      have "wp (remove_clusters R g current addons (k + 1)) (\<lambda>r w'. r = k + 1 + int (length (filter left addons)) \<and>
         removes view healthy (\<Union>a \<in> {a \<in> set addons. left a}. ?O a) w1 w') w1"
        by (rule Cons.IH) (use w1 keep Cons.prems(2) in \<open>auto simp: removes_def simp del: ref_of_simps\<close>)
      then show "wp (remove_clusters R g current addons (if r then k + 1 else k)) (\<lambda>r w'. r = k + int (length (filter left (a # addons))) \<and>
         removes view healthy (\<Union>a \<in> {x \<in> set (a # addons). left x}. ?O a) w w') w1"
        using r True unfolding sets by (auto elim!: wp_mono dest: removes_union [OF w1])
    qed
  qed
qed

text \<open>
  C13: With an API server that answers, cleanupRemovedClusters counts the clusters that have a
  labelled addon and are not among the current ones, and for exactly these the addon, the two
  ManifestWorks and the cluster Secret are gone or on their way out; no other object is touched.
\<close>

theorem removed_clusters_cleaned:
  fixes current :: "managed_cluster list" and w :: 'w
  assumes "reliable_api (r_client R) view healthy" and "healthy w"
    and "run_state (cleanupRemovedClusters R g current) w = (r, w')"
  defines "left \<equiv> served view w - (\<lambda>c. m_name (mc_meta c)) ` set current"
  shows "r = Inr (int (card left)) \<and> (\<forall>c \<in> left. \<forall>q \<in> cleaned_objects R g c. gone view w' q) \<and>
     (\<forall>q. (\<forall>c \<in> left. q \<notin> cleaned_objects R g c) \<longrightarrow> view w' q = view w q)"
    (is "?P r w'")
proof -
  let ?names = "map (\<lambda>c. m_name (mc_meta c)) current"
  have api: "kube_api (r_client R) view" using assms(1) by (rule reliable_api.axioms(1))
  have "wp (cleanupRemovedClusters R g current) ?P w"
    unfolding cleanupRemovedClusters_def wp_bindE wp_wrapE
  proof (rule reliable_api.wp_list_healthy [OF assms(1,2)], goal_cases)
    case (1 xs w1)
    define addons where "addons = List.map_filter as_addon xs"
    let ?gone = "\<lambda>a :: managed_cluster_addon. m_name (mca_meta a) = ArgoCDAgentAddonName \<and> m_namespace (mca_meta a) \<notin> set ?names"
    have mem: "a \<in> set addons \<longleftrightarrow> view w (ref_of (OManagedClusterAddOn a)) = Some (OManagedClusterAddOn a) \<and>
       map_of (m_labels (mca_meta a)) ''app.kubernetes.io/managed-by'' = Some ''argocd-pull-integration''" for a
      using 1(4) [of "OManagedClusterAddOn a"]
      by (auto simp: addons_def set_map_filter in_ns_def labels_match_def simp del: ref_of_simps)
    have dist: "distinct (map (\<lambda>a. ref_of (OManagedClusterAddOn a)) addons)"
    proof -
      have "map (\<lambda>a. ref_of (OManagedClusterAddOn a)) (List.map_filter as_addon ys) =
          map ref_of (filter (\<lambda>x. as_addon x \<noteq> None) ys)" for ys
        by (induction ys) (auto simp: List.map_filter_def simp del: ref_of_simps)
      then show ?thesis using 1(3) by (simp add: addons_def distinct_map_filter del: ref_of_simps)
    qed
    have img: "(\<lambda>a. m_namespace (mca_meta a)) ` set (filter ?gone addons) = left"
    proof (intro equalityI subsetI)
      fix c assume "c \<in> (\<lambda>a. m_namespace (mca_meta a)) ` set (filter ?gone addons)"
      then obtain a where "a \<in> set addons" "?gone a" "c = m_namespace (mca_meta a)" by auto
      then show "c \<in> left" using mem [of a] by (auto simp: left_def served_def)
    next
      fix c assume "c \<in> left"
      then obtain a where a: "view w (addon_ref c) = Some (OManagedClusterAddOn a)" "c \<notin> set ?names"
          "map_of (m_labels (mca_meta a)) ''app.kubernetes.io/managed-by'' = Some ''argocd-pull-integration''"
        by (auto simp: left_def served_def)
      have n: "m_namespace (mca_meta a) = c" "m_name (mca_meta a) = ArgoCDAgentAddonName"
        using kube_api.name_of_view [OF api a(1)] by simp_all
      then have "a \<in> set addons" "?gone a" using a by (simp_all add: mem)
      then show "c \<in> (\<lambda>a. m_namespace (mca_meta a)) ` set (filter ?gone addons)" using n(1) by auto
    qed
    have "inj_on (\<lambda>a. m_namespace (mca_meta a)) (set (filter ?gone addons))"
      using dist by (auto simp: inj_on_def distinct_map)
    then have "card left = card (set (filter ?gone addons))"
      unfolding img [symmetric] by (rule card_image)
    also have "\<dots> = length (filter ?gone addons)"
      using dist by (intro distinct_card) (auto simp: distinct_map)
    finally have count: "card left = length (filter ?gone addons)" .
    have stored: "\<And>a. a \<in> set addons \<Longrightarrow> view w1 (ref_of (OManagedClusterAddOn a)) = Some (OManagedClusterAddOn a)"
      by (simp add: 1(2) mem del: ref_of_simps)
    have objs: "(\<Union>a \<in> {a \<in> set addons. ?gone a}. cleaned_objects R g (m_namespace (mca_meta a))) = (\<Union>c \<in> left. cleaned_objects R g c)"
      unfolding img [symmetric] by auto
    from wp_remove_clusters_healthy [OF assms(1) 1(1) dist stored, of g ?names 0]
    have "wp (remove_clusters R g ?names addons 0) (\<lambda>n. ?P (Inr n)) w1"
      unfolding objs count [symmetric]
      by (rule wp_mono) (use 1(2) in \<open>auto simp: removes_def only_touches_def count\<close>)
    then show ?case by (simp add: addons_def wp_bind wp_ret)
  qed
  then show ?thesis using assms(3) by (rule wp_run)
qed

definition example_left_addon :: managed_cluster_addon where
  "example_left_addon = new_addon ''argocd-agent-addon-argocd-gitops'' ''cluster2''"

text \<open>\<open>cluster1\<close> is still selected, \<open>cluster2\<close> is not.\<close>

definition example_left_world :: mem where
  "example_left_world = mem_of [OManagedClusterAddOn example_left_addon,
     OManagedClusterAddOn (new_addon ''argocd-agent-addon-argocd-gitops'' ''cluster1''),
     OSecret \<lparr>sec_meta = new_meta ''cluster-cluster2'' ''argocd'', sec_type = ''Opaque'', sec_data = [], sec_string_data = []\<rparr>]"

theorem removed_clusters_cleaned_witness:
  "gone mem_view (snd (run_state (cleanupRemovedClusters mem_reconciler example_run_gitops [example_managed_cluster]) example_left_world))
     (cluster_secret_ref ''argocd'' ''cluster2'')"
proof -
  let ?run = "run_state (cleanupRemovedClusters mem_reconciler example_run_gitops [example_managed_cluster]) example_left_world"
  have h: "mem_healthy example_left_world" by code_simp
  have laws: "reliable_api (r_client mem_reconciler) mem_view mem_healthy" by (simp add: mem_reconciler_def mem_reliable_api)
  have addon: "mem_view example_left_world (addon_ref ''cluster2'') = Some (OManagedClusterAddOn example_left_addon)" by code_simp
  have label: "map_of (m_labels (mca_meta example_left_addon)) ''app.kubernetes.io/managed-by'' = Some ''argocd-pull-integration''" by code_simp
  from addon label have "''cluster2'' \<in> served mem_view example_left_world" by (auto simp: served_def)
  moreover have "''cluster2'' \<notin> (\<lambda>c. m_name (mc_meta c)) ` set [example_managed_cluster]" by (simp add: example_managed_cluster_def)
  moreover have "cluster_secret_ref ''argocd'' ''cluster2'' \<in> cleaned_objects mem_reconciler example_run_gitops ''cluster2''"
    by (simp add: cleaned_objects_def example_run_gitops_def)
  ultimately show ?thesis
    using removed_clusters_cleaned [OF laws, OF h, of example_run_gitops "[example_managed_cluster]" "fst ?run" "snd ?run"]
    unfolding prod.collapse by blast
qed

end
