(* ===== verification/GitOps_Conditions.thy ===== *)
theory GitOps_Conditions
  imports GitOps_Steps
begin

text \<open>
  What the conditions of a GitOpsCluster promise. \<open>serve_clusters\<close>, the second half of \<open>Reconcile\<close> in
  \<open>gitopscluster_controller.go\<close>, works on one cluster after the other and reports each round in a condition; here, a condition that
  says True is shown to be right about every cluster, whichever other requests fail. The contract of one round's operation is the
  locale \<open>cluster_task\<close>.
\<close>

section \<open>A server that keeps the status\<close>

locale status_api = kube_api C view for C :: "'w client" and view +
  assumes status_answers: "view w (ref_of x) \<noteq> None \<Longrightarrow> run_state (c_update_status C x) w = (a, w') \<Longrightarrow> \<exists>y. a = Inr y"
begin

lemma wp_status_answers:
  assumes "view w (ref_of x) = Some old"
    and "\<And>y w'. same_content (put_status old x) y \<Longrightarrow> view w' = (view w)(ref_of x := Some y) \<Longrightarrow> Q (Inr y) w'"
  shows "wp (c_update_status C x) Q w"
proof (rule wpI)
  fix a w' assume run: "run_state (c_update_status C x) w = (a, w')"
  from status_answers [OF _ run] assms(1) obtain y where "a = Inr y" by auto
  with run status_ok [of x w y w'] assms show "Q a w'" by auto
qed

end

text \<open>The in-memory client, with status writes that no planned fault hits.\<close>

definition steady_client :: "mem client" where
  "steady_client = mem_client\<lparr>c_update_status := (\<lambda>x. State (\<lambda>w.
     case run_state (mem_update_status x) (w\<lparr>mem_faults := []\<rparr>) of (r, w') \<Rightarrow> (r, w'\<lparr>mem_faults := mem_faults w\<rparr>)))\<rparr>"

lemma steady_sel [simp]:
  "c_get steady_client = c_get mem_client" "c_list steady_client = c_list mem_client" "c_create steady_client = c_create mem_client"
  "c_update steady_client = c_update mem_client" "c_delete steady_client = c_delete mem_client" "c_patch steady_client = c_patch mem_client"
  "c_now_text steady_client = c_now_text mem_client" "c_now steady_client = c_now mem_client"
  by (simp_all add: steady_client_def mem_client_def)

lemma mem_view_faults [simp]: "mem_view (w\<lparr>mem_faults := fs\<rparr>) = mem_view w"
  by (simp add: mem_view_def fun_eq_iff)

lemma steady_status:
  assumes "run_state (c_update_status steady_client x) w = (r, w')"
  obtains w1 where "run_state (c_update_status mem_client x) (w\<lparr>mem_faults := []\<rparr>) = (r, w1)" "mem_view w' = mem_view w1"
  using assms by (auto simp: steady_client_def split: prod.splits)

interpretation steady: status_api steady_client mem_view
proof (unfold_locales, goal_cases)
  case (11 x w y w')
  then obtain w1 where "run_state (c_update_status mem_client x) (w\<lparr>mem_faults := []\<rparr>) = (Inr y, w1)" "mem_view w' = mem_view w1"
    by (rule steady_status)
  with mem.status_ok [of x "w\<lparr>mem_faults := []\<rparr>" y w1] show ?case by simp
next
  case (12 x w e w')
  then obtain w1 where "run_state (c_update_status mem_client x) (w\<lparr>mem_faults := []\<rparr>) = (Inl e, w1)" "mem_view w' = mem_view w1"
    by (rule steady_status)
  with mem.status_err [of x "w\<lparr>mem_faults := []\<rparr>" e w1] show ?case by simp
next
  case (19 w x a w')
  from 19(2) obtain w1 where w1: "run_state (c_update_status mem_client x) (w\<lparr>mem_faults := []\<rparr>) = (a, w1)"
    by (rule steady_status)
  have h: "mem_healthy (w\<lparr>mem_faults := []\<rparr>)" by (simp add: mem_healthy_def)
  from mem_ok.status_healthy [OF h _ w1] 19(1) show ?case by simp
qed (unfold steady_sel, (erule mem.view_ref mem.view_noname mem.get_ok mem.get_err mem.list_ok mem.list_err mem.create_ok mem.create_err
      mem.update_ok mem.update_err mem.delete_ok mem.delete_err mem.patch_ok mem.patch_err mem.now_text_view mem.now_view
    | rule mem.view_noname)+)

lemma steady_status_api: "status_api steady_client mem_view"
  by (rule steady.status_api_axioms)

section \<open>The GitOpsCluster in memory and in store\<close>

text \<open>The object the run works with is the stored one; a status write keeps that, the specification and the other conditions.\<close>

definition synced :: "('w \<Rightarrow> objref \<Rightarrow> kobj option) \<Rightarrow> gitops_cluster \<Rightarrow> 'w \<Rightarrow> bool" where
  "synced view g w = (view w (gref g) = Some (OGitOpsCluster g))"

definition same_spec :: "gitops_cluster \<Rightarrow> gitops_cluster \<Rightarrow> bool" where
  "same_spec g g' = (gc_spec g' = gc_spec g \<and> gref g' = gref g \<and> m_annotations (gc_meta g') = m_annotations (gc_meta g))"

definition status_of :: "('w, 'ca) reconciler \<Rightarrow> gitops_cluster \<Rightarrow> string \<Rightarrow> condition_status option" where
  "status_of R g t = map_option cond_status (r_find_condition R (gc_conditions g) t)"

definition told :: "('w, 'ca) reconciler \<Rightarrow> ('w \<Rightarrow> objref \<Rightarrow> kobj option) \<Rightarrow> string set \<Rightarrow> objref set \<Rightarrow>
    gitops_cluster \<Rightarrow> 'w \<Rightarrow> gitops_cluster \<Rightarrow> 'w \<Rightarrow> bool" where
  "told R view ts S g w g' w' = (synced view g' w' \<and> same_spec g g' \<and> (\<forall>t. t \<notin> ts \<longrightarrow> status_of R g' t = status_of R g t) \<and>
     only_touches view (insert (gref g) S) w w')"

lemma told_refl: "synced view g w \<Longrightarrow> told R view ts S g w g w"
  by (simp add: told_def same_spec_def)

lemma told_trans:
  assumes "told R view ts S g w g1 w1" "told R view ts' S' g1 w1 g2 w2"
  shows "told R view (ts \<union> ts') (S \<union> S') g w g2 w2"
  using assms by (auto simp: told_def same_spec_def only_touches_def)

lemma told_after:
  "only_touches view S w w1 \<Longrightarrow> told R view ts {} g w1 g' w' \<Longrightarrow> told R view ts S g w g' w'"
  by (auto simp: told_def only_touches_def)

lemma wp_setCondition_told:
  assumes "status_api (r_client R) view" "status_conditions (r_find_condition R) (r_set_condition R)" "synced view g w"
  shows "wp (setCondition R g t s r m) (\<lambda>g' w'. told R view {t} {} g w g' w' \<and> status_of R g' t = Some s) w"
proof -
  have api: "kube_api (r_client R) view" using assms(1) by (rule status_api.axioms(1))
  let ?g = "\<lambda>now. g\<lparr>gc_conditions := r_set_condition R (gc_conditions g)
       \<lparr>cond_type = t, cond_status = s, cond_observed_generation = m_generation (gc_meta g),
        cond_transition_time = now, cond_reason = r, cond_message = m\<rparr>\<rparr>"
  have same: "status_of R (?g now) t = Some s" for now
    using status_conditions.set_find_same [OF assms(2), of "gc_conditions g"
        "\<lparr>cond_type = t, cond_status = s, cond_observed_generation = m_generation (gc_meta g),
          cond_transition_time = now, cond_reason = r, cond_message = m\<rparr>"]
    by (auto simp: status_of_def same_verdict_def)
  have other: "status_of R (?g now) t' = status_of R g t'" if "t' \<noteq> t" for now t'
    using status_conditions.set_find_other [OF assms(2)] that by (simp add: status_of_def)
  have wrote: "wp (write_conditions R (?g now)) (\<lambda>g' w'. told R view {t} {} g w g' w' \<and> status_of R g' t = Some s) w1"
    if w1: "view w1 = view w" for now w1
    unfolding write_conditions_def wp_bind
  proof (rule status_api.wp_status_answers [OF assms(1)])
    show "view w1 (ref_of (OGitOpsCluster (?g now))) = Some (OGitOpsCluster g)" using assms(3) w1 by (simp add: synced_def)
  next
    fix y w2
    assume y: "same_content (put_status (OGitOpsCluster g) (OGitOpsCluster (?g now))) y"
      and w2: "view w2 = (view w1)(ref_of (OGitOpsCluster (?g now)) := Some y)"
    from y obtain g' where g': "y = OGitOpsCluster g'" "gc_spec g' = gc_spec g" "gc_conditions g' = gc_conditions (?g now)"
      "gref g' = gref g" "m_annotations (gc_meta g') = m_annotations (gc_meta g)"
      by (auto simp: same_content_def)
    have ref: "ref_of (OGitOpsCluster (?g now)) = gref g" by simp
    have "status_of R g' t' = status_of R (?g now) t'" for t' by (simp add: status_of_def g'(3))
    then show "wp (ret (case Inr y of Inl _ \<Rightarrow> ?g now | Inr x \<Rightarrow> (case as_gitops x of None \<Rightarrow> ?g now | Some g' \<Rightarrow> g')))
        (\<lambda>g' w'. told R view {t} {} g w g' w' \<and> status_of R g' t = Some s) w2"
      using g' w2 w1 same other
      by (simp add: wp_ret told_def synced_def same_spec_def only_touches_def ref del: ref_of_simps)
  qed
  show ?thesis
    unfolding setCondition_def add_condition_def wp_bind wp_ret
    by (rule kube_api.wp_now_text [OF api]) (rule wrote)
qed


section \<open>One round over the clusters\<close>

text \<open>
  An operation on a cluster: the objects it may write, the objects it looks at, what it needs to start with and what it has achieved
  when it succeeds. What it looks at is written neither by the same operation on another cluster nor by a status write. A round goes
  over all selected clusters \<open>cs\<close>; what it achieves is told for those of a set \<open>K\<close>, where the operation has what it needs.
\<close>

abbreviation nm :: "managed_cluster \<Rightarrow> string" where
  "nm c \<equiv> m_name (mc_meta c)"

definition objects_of :: "(string \<Rightarrow> objref set) \<Rightarrow> managed_cluster list \<Rightarrow> objref set" where
  "objects_of obj cs = (\<Union>c \<in> set cs. obj (nm c))"

definition truthful :: "('w, 'ca) reconciler \<Rightarrow> ('w \<Rightarrow> string \<Rightarrow> bool) \<Rightarrow> string \<Rightarrow> managed_cluster set \<Rightarrow> gitops_cluster \<Rightarrow> 'w \<Rightarrow> bool" where
  "truthful R post t K g w = (status_of R g t = Some CondTrue \<longrightarrow> (\<forall>c \<in> K. post w (nm c)))"

definition reports :: "('w \<Rightarrow> objref \<Rightarrow> kobj option) \<Rightarrow> (string \<Rightarrow> objref set) \<Rightarrow> ('w \<Rightarrow> string \<Rightarrow> bool) \<Rightarrow> ('w, 'ca) reconciler \<Rightarrow> string \<Rightarrow>
    managed_cluster list \<Rightarrow> managed_cluster set \<Rightarrow> gitops_cluster \<Rightarrow> 'w \<Rightarrow> gitops_cluster \<Rightarrow> 'w \<Rightarrow> bool" where
  "reports view obj post R t cs K g w g' w' = (told R view {t} (objects_of obj cs) g w g' w' \<and> truthful R post t K g' w')"

locale cluster_task =
  fixes view :: "'w \<Rightarrow> objref \<Rightarrow> kobj option" and f :: "managed_cluster \<Rightarrow> ('w, unit result) state"
    and obj supp :: "string \<Rightarrow> objref set" and ready post :: "'w \<Rightarrow> string \<Rightarrow> bool"
  assumes frame: "wp (f c) (\<lambda>_. only_touches view (obj (nm c)) w) w"
    and task: "ready w (nm c) \<Longrightarrow> wp (f c) (\<lambda>r w'. r = Inr () \<longrightarrow> post w' (nm c)) w"
    and supported: "(\<And>q. q \<in> supp n \<Longrightarrow> view w' q = view w q) \<Longrightarrow> (ready w n \<longrightarrow> ready w' n) \<and> (post w n \<longrightarrow> post w' n)"
    and apart: "q \<in> obj n \<Longrightarrow> q \<in> supp d \<Longrightarrow> n = d"
    and no_status: "q \<in> obj n \<union> supp n \<Longrightarrow> ref_kind q \<noteq> KGitOpsCluster"
begin

abbreviation objects :: "managed_cluster list \<Rightarrow> objref set" where
  "objects cs \<equiv> objects_of obj cs"

lemmas objects_def = objects_of_def

lemma kept:
  assumes "only_touches view S w w'" "\<And>q. q \<in> supp n \<Longrightarrow> q \<notin> S"
  shows ready_kept: "ready w n \<Longrightarrow> ready w' n" and post_kept: "post w n \<Longrightarrow> post w' n"
proof -
  have "view w' q = view w q" if "q \<in> supp n" for q using assms that by (simp add: only_touches_def)
  from supported [OF this] show "ready w n \<Longrightarrow> ready w' n" "post w n \<Longrightarrow> post w' n" by simp_all
qed

lemma told_kept:
  assumes "told R view ts S g w g' w'" "\<And>q. q \<in> supp n \<Longrightarrow> q \<notin> S"
  shows ready_told: "ready w n \<Longrightarrow> ready w' n" and post_told: "post w n \<Longrightarrow> post w' n"
proof -
  have fr: "only_touches view (insert (gref g) S) w w'" using assms(1) by (simp add: told_def)
  have "q \<notin> insert (gref g) S" if "q \<in> supp n" for q using no_status [of q n] assms(2) that by auto
  from kept [OF fr this] show "ready w n \<Longrightarrow> ready w' n" "post w n \<Longrightarrow> post w' n" by simp_all
qed

lemma truthful_told:
  assumes "told R view ts S g w g' w'" "t \<notin> ts" "\<And>c q. c \<in> K \<Longrightarrow> q \<in> supp (nm c) \<Longrightarrow> q \<notin> S" "truthful R post t K g w"
  shows "truthful R post t K g' w'"
proof -
  have "status_of R g' t = status_of R g t" using assms(1,2) by (simp add: told_def)
  moreover have "post w' (nm c)" if "c \<in> K" "post w (nm c)" for c
    by (rule post_told [OF assms(1) assms(3) [OF that(1)] that(2)])
  ultimately show ?thesis using assms(4) by (simp add: truthful_def)
qed

lemma wp_each_failed:
  assumes "distinct (map nm (ds @ cs))" "\<forall>c \<in> set cs \<inter> K. ready w (nm c)" "failed = [] \<Longrightarrow> \<forall>d \<in> set ds \<inter> K. post w (nm d)"
  shows "wp (each_failed f cs failed) (\<lambda>r w'. only_touches view (objects cs) w w' \<and>
     (r = Inr [] \<longrightarrow> (\<forall>c \<in> set (ds @ cs) \<inter> K. post w' (nm c)))) w"
  using assms
proof (induction cs arbitrary: ds failed w)
  case Nil
  then show ?case by (simp add: wp_ret)
next
  case (Cons c cs)
  have others: "nm d \<noteq> nm c" if "d \<in> set ds \<or> d \<in> set cs" for d
    using Cons.prems(1) that by (auto simp: image_iff)
  have "wp (f c) (\<lambda>r w'. c \<in> K \<and> r = Inr () \<longrightarrow> post w' (nm c)) w"
    using Cons.prems(2) task [of w c] by (cases "c \<in> K") (auto simp: wp_True)
  note step = wp_conj [OF frame this]
  show ?case
    unfolding each_failed.simps
  proof (rule wp_bind_rule [OF step], elim conjE)
    fix r :: "unit result" and w1
    assume fr: "only_touches view (obj (nm c)) w w1" and ok: "c \<in> K \<and> r = Inr () \<longrightarrow> post w1 (nm c)"
    have fr': "only_touches view (objects (c # cs)) w w1" using fr by (rule only_touches_mono) (auto simp: objects_def)
    have ready: "\<forall>d \<in> set cs \<inter> K. ready w1 (nm d)"
      using Cons.prems(2) ready_kept [OF fr] others apart by (metis IntD1 IntD2 IntI list.set_intros(2))
    have old: "\<forall>d \<in> set ds \<inter> K. post w1 (nm d)" if "failed = []"
      using Cons.prems(3) [OF that] post_kept [OF fr] others apart by (metis IntD1)
    have rest: "wp (each_failed f cs fs) (\<lambda>r w'. only_touches view (objects (c # cs)) w w' \<and>
       (r = Inr [] \<longrightarrow> (\<forall>d \<in> set (ds @ c # cs) \<inter> K. post w' (nm d)))) w1"
      if "fs = [] \<Longrightarrow> failed = [] \<and> r = Inr ()" for fs
    proof -
      have "\<forall>d \<in> set (ds @ [c]) \<inter> K. post w1 (nm d)" if "fs = []"
        using old ok \<open>fs = [] \<Longrightarrow> failed = [] \<and> r = Inr ()\<close> [OF that] by auto
      from Cons.IH [of "ds @ [c]" w1 fs, OF _ ready this] Cons.prems(1)
      have "wp (each_failed f cs fs) (\<lambda>r w'. only_touches view (objects cs) w1 w' \<and>
         (r = Inr [] \<longrightarrow> (\<forall>d \<in> set (ds @ c # cs) \<inter> K. post w' (nm d)))) w1" by simp
      moreover have "objects cs \<subseteq> objects (c # cs)" by (auto simp: objects_def)
      ultimately show ?thesis
        by (elim wp_mono) (blast intro: only_touches_trans [OF fr' only_touches_mono])
    qed
    show "wp (case r of
        Inl e \<Rightarrow> if is_panic e then ret (Inl e) else each_failed f cs (failed @ [nm c])
      | Inr _ \<Rightarrow> each_failed f cs failed) (\<lambda>r w'. only_touches view (objects (c # cs)) w w' \<and>
       (r = Inr [] \<longrightarrow> (\<forall>d \<in> set (ds @ c # cs) \<inter> K. post w' (nm d)))) w1"
      using rest [of "failed @ [nm c]"] rest [of failed] fr' by (cases r) (auto simp: wp_ret)
  qed
qed

lemma synced_objects:
  assumes "synced view g w" "only_touches view (objects cs) w w'"
  shows "synced view g w'"
proof -
  have "gref g \<notin> objects cs" using no_status [of "gref g"] by (auto simp: objects_def)
  with assms show ?thesis by (simp add: synced_def only_touches_def del: ref_of_simps)
qed

text \<open>The round and its report.\<close>

lemma wp_report_truth:
  assumes laws: "status_api (r_client R) view" "status_conditions (r_find_condition R) (r_set_condition R)"
    and g: "synced view g w" "only_touches view (objects cs) w w1"
    and s: "s = CondTrue \<Longrightarrow> \<forall>c \<in> K. post w1 (nm c)"
  shows "wp (setCondition R g t s r m) (\<lambda>g'. reports view obj post R t cs K g w g') w1"
proof (rule wp_mono [OF wp_setCondition_told [OF laws synced_objects [OF g]]], elim conjE)
  fix g' w' assume t: "told R view {t} {} g w1 g' w'" "status_of R g' t = Some s"
  have "post w' (nm c)" if "post w1 (nm c)" for c
    by (rule post_told [OF t(1)]) (simp_all add: that)
  then show "reports view obj post R t cs K g w g' w'"
    using told_after [OF g(2) t(1)] t(2) s by (auto simp: reports_def truthful_def)
qed

lemma wp_round:
  assumes laws: "status_api (r_client R) view" "status_conditions (r_find_condition R) (r_set_condition R)"
    and "synced view g w" "distinct (map nm cs)" "K \<subseteq> set cs" "\<forall>c \<in> K. ready w (nm c)"
  shows "wp (if length cs > 0 then bindE (each_failed f cs []) (report_clusters R t x y g) else ret (Inr g))
     (\<lambda>r w'. \<forall>g'. r = Inr g' \<longrightarrow> reports view obj post R t cs K g w g' w') w"
proof -
  have K: "set cs \<inter> K = K" using assms(5) by blast
  have "wp (each_failed f cs []) (\<lambda>r w'. only_touches view (objects cs) w w' \<and> (r = Inr [] \<longrightarrow> (\<forall>c \<in> K. post w' (nm c)))) w"
    using wp_each_failed [of "[]" cs K w "[]"] assms(4,6) by (simp add: K)
  then have "wp (bindE (each_failed f cs []) (report_clusters R t x y g))
     (\<lambda>r w'. \<forall>g'. r = Inr g' \<longrightarrow> reports view obj post R t cs K g w g' w') w"
  proof (rule wp_bindE_rule)
    fix failed :: "string list" and w1
    assume fr: "only_touches view (objects cs) w w1 \<and> (Inr failed = Inr [] \<longrightarrow> (\<forall>c \<in> K. post w1 (nm c)))"
    note rep = wp_report_truth [OF laws assms(3) conjunct1 [OF fr]]
    show "wp (report_clusters R t x y g failed) (\<lambda>r w'. \<forall>g'. r = Inr g' \<longrightarrow> reports view obj post R t cs K g w g' w') w1"
      unfolding report_clusters_def wp_bind wp_ret
      using fr by (cases failed) (auto simp: wp_bind intro!: rep)
  qed simp
  then show ?thesis using assms(5) by (cases cs) (auto simp: wp_ret reports_def truthful_def told_refl [OF assms(3)])
qed

end


section \<open>The four operations\<close>



text \<open>What the conditions ClustersImported, ManifestWorkCreated, ArgoCDCRDelivered and AddonConfigured say of a cluster.\<close>

definition imported :: "('w, 'ca) reconciler \<Rightarrow> ('w \<Rightarrow> objref \<Rightarrow> kobj option) \<Rightarrow> string \<Rightarrow> string \<Rightarrow> 'w \<Rightarrow> string \<Rightarrow> bool" where
  "imported R view ns placement w c = (\<exists>t. view w (cluster_secret_ref ns c) = Some (OSecret t) \<and>
     (\<exists>cert key ca. client_pair view w ns c cert key \<and> connects (r_parse_url R) (r_proxy R) c cert key ca (sec_data t)) \<and>
     (\<forall>k v. map_of (cluster_labels c placement) k = Some v \<longrightarrow> map_of (m_labels (sec_meta t)) k = Some v))"

definition has_current_ca :: "('w, 'ca) reconciler \<Rightarrow> ('w \<Rightarrow> objref \<Rightarrow> kobj option) \<Rightarrow> string \<Rightarrow> 'w \<Rightarrow> string \<Rightarrow> bool" where
  "has_current_ca R view ns w c = (c = ''local-cluster'' \<or> (\<exists>s cert mw. view w (Ref KSecret ns ArgoCDAgentCASecretName) = Some (OSecret s) \<and>
     map_of (sec_data s) ''tls.crt'' = Some cert \<and> view w (ca_work_ref c) = Some (OManifestWork mw) \<and>
     \<not> carries_other_ca (r_codec R) cert mw))"

definition has_cr :: "('w, 'ca) reconciler \<Rightarrow> ('w \<Rightarrow> objref \<Rightarrow> kobj option) \<Rightarrow> gitops_cluster \<Rightarrow> string \<Rightarrow> string \<Rightarrow> 'w \<Rightarrow> string \<Rightarrow> bool" where
  "has_cr R view g a p w c = (c = ''local-cluster'' \<or> (\<exists>mw. view w (cr_ref (r_cr R) g c) = Some (OManifestWork mw) \<and>
     carries (r_cr R) view w g a p (ws_manifests (mw_spec mw)) \<and> has_cr_labels (m_labels (mw_meta mw))))"

definition has_addon :: "('w \<Rightarrow> objref \<Rightarrow> kobj option) \<Rightarrow> gitops_cluster \<Rightarrow> 'w \<Rightarrow> string \<Rightarrow> bool" where
  "has_addon view g w c = (\<exists>a cfg. view w (addon_ref c) = Some (OManagedClusterAddOn a) \<and>
     refers_to (addon_template_name g) c (OManagedClusterAddOn a) \<and> view w (addon_config_ref_of c) = Some (OAddOnDeploymentConfig cfg) \<and>
     fst ` set (buildAddonVariables g) \<subseteq> fst ` set (adc_variables cfg))"

definition stays :: "('w \<Rightarrow> objref \<Rightarrow> kobj option) \<Rightarrow> 'w \<Rightarrow> objref \<Rightarrow> bool" where
  "stays view w q = (\<forall>x. view w q = Some x \<longrightarrow> \<not> terminating x)"

definition import_ready :: "('w \<Rightarrow> objref \<Rightarrow> kobj option) \<Rightarrow> string \<Rightarrow> 'w \<Rightarrow> string \<Rightarrow> bool" where
  "import_ready view ns w c = (\<forall>s. view w (cluster_secret_ref ns c) = Some (OSecret s) \<longrightarrow>
     m_deletion (sec_meta s) = None \<and> sec_string_data s = [])"

definition import_objects :: "string \<Rightarrow> string \<Rightarrow> objref set" where
  "import_objects ns c = insert (cluster_secret_ref ns c) (client_objects ns c)"

definition import_support :: "string \<Rightarrow> string \<Rightarrow> objref set" where
  "import_support ns c = {cluster_secret_ref ns c, Ref KSecret ns (client_secret_name c)}"

lemma import_other: "n \<noteq> d \<Longrightarrow> q \<in> import_support ns d \<Longrightarrow> q \<notin> import_objects ns n"
  by (auto simp: import_support_def import_objects_def cluster_secret_ref_def client_objects_def client_secret_name_def ArgoCDAgentCASecretName_def)

lemma import_task:
  assumes "kube_api (r_client R) view" "cert_rotation (r_certs R) view" "secret_lister (r_x509 R) view"
  shows "cluster_task view (\<lambda>c. importManagedClusterToArgoCD (r_client R) (r_certs R) (r_x509 R) (r_parse_url R) (r_proxy R) ns c placement)
    (import_objects ns) (import_support ns) (import_ready view ns) (imported R view ns placement)"
proof (unfold_locales, goal_cases)
  case (1 c w)
  show ?case by (rule touches_import [OF assms]) (auto simp: import_objects_def)
next
  case (2 w c)
  have ready: "\<forall>s. view w (cluster_ref ns (m_name (mc_meta c))) = Some (OSecret s) \<longrightarrow> m_deletion (sec_meta s) = None \<and> sec_string_data s = []"
    using 2 by (simp add: import_ready_def cluster_secret_ref_def)
  show ?case
    by (rule wp_mono [OF wp_import [where view = view and w = w, OF assms refl ready]])
      (fastforce simp: cluster_secret_ref_def imported_def labelled_def current_data_def)
next
  case (3 n w' w)
  then show ?case by (simp add: import_ready_def imported_def client_pair_def import_support_def)
next
  case (4 q n d)
  then show ?case using import_other [of n d q ns] by auto
qed (auto simp: import_objects_def import_support_def client_objects_def cluster_secret_ref_def)

lemma delivers_current: "delivers_ca J spoke cert mw \<Longrightarrow> \<not> carries_other_ca J cert mw"
  by (auto simp: delivers_ca_def carries_other_ca_def mget_def)

definition ca_support :: "string \<Rightarrow> string \<Rightarrow> objref set" where
  "ca_support ns c = {ca_work_ref c, Ref KSecret ns ArgoCDAgentCASecretName}"

lemma ca_task:
  assumes "kube_api (r_client R) view" "secret_json (r_codec R)"
  shows "cluster_task view (createArgoCDAgentManifestWork (r_client R) (r_codec R) ns spoke)
    (\<lambda>c. {ca_work_ref c}) (ca_support ns) (\<lambda>w c. stays view w (ca_work_ref c)) (has_current_ca R view ns)"
proof (unfold_locales, goal_cases)
  case (1 c w)
  show ?case by (rule kube_api.touches_distribute [OF assms(1)]) (simp add: ca_work_ref_def)
next
  case (2 w c)
  let ?n = "m_name (mc_meta c)"
  have current: "\<exists>mw. new = Some (OManifestWork mw) \<and> \<not> carries_other_ca (r_codec R) cert mw"
    if "ca_post (r_codec R) spoke cert old new" for cert old new
    using that by (auto simp: ca_post_def dest: delivers_current split: option.splits kobj.splits if_splits)
  have hub: "Ref KSecret ns ArgoCDAgentCASecretName \<noteq> ca_work_ref ?n" by (simp add: ca_work_ref_def)
  show ?case
    by (rule wp_mono [OF wp_createArgoCDAgentManifestWork [where view = view and w = w, OF assms refl 2 [unfolded stays_def]]])
      (use hub in \<open>auto simp: only_touches_def has_current_ca_def split: if_splits dest!: current; blast\<close>)
next
  case (3 n w' w)
  then show ?case by (simp add: ca_support_def stays_def has_current_ca_def)
qed (auto simp: ca_support_def ca_work_ref_def)

lemma carries_cong: "view w' (hub_argocd (m_namespace (gc_meta g))) = view w (hub_argocd (m_namespace (gc_meta g))) \<Longrightarrow>
    carries L view w' g a p ms = carries L view w g a p ms"
  by (simp add: carries_def cr_as_promised_def hub_image_def split: option.split)

lemma has_cr_cong:
  assumes "view w' (cr_ref (r_cr R) g c) = view w (cr_ref (r_cr R) g c)"
    and "view w' (hub_argocd (m_namespace (gc_meta g))) = view w (hub_argocd (m_namespace (gc_meta g)))"
  shows "has_cr R view g a p w' c = has_cr R view g a p w c"
  using carries_cong [where view = view and w = w and w' = w' and g = g, OF assms(2)] by (simp add: has_cr_def assms(1))

definition cr_support :: "('w, 'ca) reconciler \<Rightarrow> gitops_cluster \<Rightarrow> string \<Rightarrow> objref set" where
  "cr_support R g c = {cr_ref (r_cr R) g c, hub_argocd (m_namespace (gc_meta g))}"

lemma cr_task:
  assumes "kube_api (r_client R) view" "nested_fields (set_nested_field (r_cr R))"
  shows "cluster_task view (\<lambda>c. createArgoCDCRManifestWork (r_cr R) (r_client R) g c a p)
    (\<lambda>c. {cr_ref (r_cr R) g c}) (cr_support R g) (\<lambda>w c. stays view w (cr_ref (r_cr R) g c)) (has_cr R view g a p)"
proof (unfold_locales, goal_cases)
  case (1 c w)
  show ?case by (rule kube_api.touches_deliver [OF assms(1)]) simp
next
  case (2 w c)
  let ?n = "m_name (mc_meta c)"
  show ?case
  proof (rule wp_mono [OF wp_createArgoCDCRManifestWork [where view = view and w = w, OF assms refl 2 [unfolded stays_def]]], elim conjE, goal_cases)
    case (1 r w')
    have same: "carries (r_cr R) view w' g a p ms = carries (r_cr R) view w g a p ms" for ms
      by (rule carries_cong) (use 1(1) in \<open>simp add: hub_argocd_def cr_ref_def\<close>)
    from 1 show ?case by (auto simp: only_touches_def has_cr_def same split: if_splits)
  qed
next
  case (3 n w' w)
  then have "has_cr R view g a p w' n = has_cr R view g a p w n" by (intro has_cr_cong) (simp_all add: cr_support_def)
  with 3 show ?case by (simp add: cr_support_def stays_def)
qed (auto simp: cr_support_def cr_ref_def hub_argocd_def)

definition addon_objects :: "string \<Rightarrow> objref set" where
  "addon_objects c = {addon_config_ref_of c, addon_ref c}"

lemma merge_variables_has: "fst ` set vs \<subseteq> fst ` set (merge_variables vs old)"
proof
  fix k assume "k \<in> fst ` set vs"
  then obtain v where "(k, v) \<in> set vs" by auto
  then have "k \<in> fst ` set (filter (\<lambda>(name, value). name \<notin> fst ` set old) vs)" if "k \<notin> fst ` set old"
    by (intro image_eqI [of _ _ "(k, v)"]) (simp_all add: that)
  then show "k \<in> fst ` set (merge_variables vs old)"
    by (cases "k \<in> fst ` set old") (simp_all add: merge_variables_def image_Un)
qed

lemma addon_task:
  assumes "kube_api (r_client R) view"
  shows "cluster_task view (\<lambda>c. bindE (EnsureAddOnDeploymentConfig (r_client R) (m_name (mc_meta c), buildAddonVariables g)) (\<lambda>_.
      EnsureManagedClusterAddon (r_client R) (m_name (mc_meta c), g)))
    addon_objects addon_objects (\<lambda>w c. stays view w (addon_config_ref_of c) \<and> stays view w (addon_ref c)) (has_addon view g)"
proof (unfold_locales, goal_cases)
  case (1 c w)
  show ?case
    by (rule wp_touches_bindE)
      (simp_all add: kube_api.touches_addon_config [OF assms] kube_api.touches_addon [OF assms] addon_objects_def)
next
  case (2 w c)
  let ?n = "m_name (mc_meta c)" and ?vs = "buildAddonVariables g"
  note ready = 2 [unfolded stays_def]
  have kinds: "\<exists>cfg. x = OAddOnDeploymentConfig cfg" if "view w (addon_config_ref_of ?n) = Some x" for x
    using kube_api.kind_of_view [OF assms that] by (cases x) auto
  show ?case
  proof (rule wp_bindE_rule [OF kube_api.wp_EnsureAddOnDeploymentConfig [OF assms, of w ?n ?vs]], goal_cases)
    case 1
    show ?case using ready by blast
  next
    case (2 e w1)
    then show ?case by simp
  next
    case (3 u w1)
    then have fr: "\<forall>q. q \<noteq> addon_config_ref_of ?n \<longrightarrow> view w1 q = view w q" by blast
    from 3 obtain cfg where cfg: "view w1 (addon_config_ref_of ?n) = Some (OAddOnDeploymentConfig cfg)"
        "view w (addon_config_ref_of ?n) = None \<longrightarrow> adc_variables cfg = ?vs"
        "\<forall>old. view w (addon_config_ref_of ?n) = Some (OAddOnDeploymentConfig old) \<longrightarrow> adc_variables cfg = merge_variables ?vs (adc_variables old)"
      by auto
    have vars: "fst ` set ?vs \<subseteq> fst ` set (adc_variables cfg)"
    proof (cases "view w (addon_config_ref_of ?n)")
      case None
      with cfg(2) show ?thesis by simp
    next
      case (Some x)
      with kinds obtain old where "view w (addon_config_ref_of ?n) = Some (OAddOnDeploymentConfig old)" by blast
      with cfg(3) show ?thesis using merge_variables_has by auto
    qed
    have "\<forall>x. view w1 (addon_ref ?n) = Some x \<longrightarrow> \<not> terminating x" using ready fr by auto
    from kube_api.wp_EnsureManagedClusterAddon [OF assms this, of g] show ?case
      by (rule wp_mono) (use fr cfg(1) vars in \<open>auto simp: has_addon_def\<close>)
  qed
next
  case (3 n w' w)
  then show ?case by (simp add: addon_objects_def stays_def has_addon_def)
qed (auto simp: addon_objects_def)



section \<open>The phases\<close>

text \<open>A status write keeps what the promises depend on: the name, the specification and the annotations.\<close>

lemma same_spec_names:
  assumes "same_spec g g'"
  shows "m_namespace (gc_meta g') = m_namespace (gc_meta g)" "m_name (gc_meta g') = m_name (gc_meta g)"
    "gc_spec g' = gc_spec g" "m_annotations (gc_meta g') = m_annotations (gc_meta g)"
  using assms by (simp_all add: same_spec_def)

lemma cr_ref_spec: "same_spec g g' \<Longrightarrow> cr_ref L g' = cr_ref L g"
  by (simp add: fun_eq_iff cr_ref_def same_spec_names)

lemma has_cr_spec:
  assumes "same_spec g g'"
  shows "has_cr R view g' a p = has_cr R view g a p"
proof -
  note same = same_spec_names [OF assms]
  have "agent_namespace g' = agent_namespace g" "addon_mode g' = addon_mode g"
    by (simp_all add: agent_namespace_def addon_mode_def same)
  then have "cr_as_promised L view w g' (agent_namespace g') a p cr = cr_as_promised L view w g (agent_namespace g) a p cr" for L w cr
    by (simp add: cr_as_promised_def same)
  then have "carries L view w g' a p ms = carries L view w g a p ms" for L w ms
    by (simp only: carries_def same)
  then show ?thesis by (simp add: fun_eq_iff has_cr_def cr_ref_spec [OF assms])
qed

lemma has_addon_spec: "same_spec g g' \<Longrightarrow> has_addon view g' = has_addon view g"
  by (simp add: fun_eq_iff has_addon_def addon_template_name_def buildAddonVariables_def same_spec_names)

lemma told_wider: "told R view ts S g w g' w' \<Longrightarrow> S \<subseteq> T \<Longrightarrow> told R view ts T g w g' w'"
  by (auto simp: told_def only_touches_def)

lemma wp_deliver_truth:
  assumes laws: "status_api (r_client R) view" "status_conditions (r_find_condition R) (r_set_condition R)" "nested_fields (set_nested_field (r_cr R))"
    and g: "synced view g w" "distinct (map nm cs)" "K \<subseteq> set cs" "\<forall>c \<in> K. stays view w (cr_ref (r_cr R) g (nm c))"
  shows "wp (deliver_crs R a p cs g) (\<lambda>r w'. \<forall>d. r = Inr d \<longrightarrow> (\<exists>g'. d \<in> {None, Some g'} \<and>
      reports view (\<lambda>c. {cr_ref (r_cr R) g c}) (has_cr R view g a p) R ConditionArgoCDCRDelivered cs K g w g' w') \<and>
      (validateArgoCDCRManifestWork (unmarshal_unstr (r_cr R)) (ArgoCDCRManifestWork (ArgoCDAgentAddon (gc_spec g))) = Inr () \<longrightarrow> d \<noteq> None)) w"
    (is "wp _ ?Q w")
proof -
  let ?obj = "\<lambda>c. {cr_ref (r_cr R) g c}" and ?post = "has_cr R view g a p" and ?t = ConditionArgoCDCRDelivered
  let ?others = "filter (\<lambda>c. \<not> isLocalCluster c) cs" and ?K = "{c \<in> K. \<not> isLocalCluster c}"
  note task = cr_task [where a = a and p = p and g = g, OF status_api.axioms(1) [OF laws(1)] laws(3)]
  have all: "reports view ?obj ?post R ?t cs K g w g' w'" if "reports view ?obj ?post R ?t ?others ?K g w g' w'" for g' w'
  proof -
    have "objects_of ?obj ?others \<subseteq> objects_of ?obj cs" by (auto simp: objects_of_def)
    moreover have "?post w' (nm c)" if "isLocalCluster c" for c using that by (simp add: has_cr_def isLocalCluster_def)
    ultimately show ?thesis using that by (auto simp: reports_def truthful_def elim: told_wider)
  qed
  show ?thesis
  proof (cases "validateArgoCDCRManifestWork (unmarshal_unstr (r_cr R)) (ArgoCDCRManifestWork (ArgoCDAgentAddon (gc_spec g)))")
    case (Inl e)
    show ?thesis
      unfolding deliver_crs_def Inl sum.case wp_bind wp_ret
      by (rule wp_mono [OF wp_setCondition_told [OF laws(1,2) g(1)]]) (auto simp: reports_def truthful_def elim: told_wider)
  next
    case (Inr u)
    have "wp (each_failed (\<lambda>c. createArgoCDCRManifestWork (r_cr R) (r_client R) g c a p) ?others []) (\<lambda>r w'.
        only_touches view (objects_of ?obj ?others) w w' \<and> (r = Inr [] \<longrightarrow> (\<forall>c \<in> ?K. ?post w' (nm c)))) w"
      using cluster_task.wp_each_failed [OF task, of "[]" ?others ?K w "[]"] g(2-4)
      by (simp add: distinct_map_filter) (elim wp_mono, auto)
    then show ?thesis
      unfolding deliver_crs_def Inr sum.case Let_def
    proof (rule wp_bindE_rule, goal_cases)
      case (1 e w1)
      then show ?case by simp
    next
      case (2 failed w1)
      note rep = cluster_task.wp_report_truth [OF task laws(1,2) g(1) conjunct1 [OF 2], where t = ?t and K = ?K]
      have "wp (setCondition R g ?t s r m) (\<lambda>g'. ?Q (Inr (Some g'))) w1" if "s = CondTrue \<Longrightarrow> failed = []" for s r m
        by (rule wp_mono [OF rep]) (use 2 that in \<open>auto dest!: all\<close>)
      then show ?case by (auto simp: wp_bind wp_ret)
    qed
  qed
qed

lemma wp_clean_up_told:
  assumes laws: "status_api (r_client R) view" "status_conditions (r_find_condition R) (r_set_condition R)" and g: "synced view g w"
  shows "wp (clean_up R cs g) (told R view {ConditionRemovedClustersCleanedUp} (\<Union>c \<in> - (nm ` set cs). cleaned_objects R g c) g w) w"
proof -
  let ?S = "\<Union>c \<in> - (nm ` set cs). cleaned_objects R g c"
  have api: "kube_api (r_client R) view" using laws(1) by (rule status_api.axioms(1))
  have "gref g \<notin> ?S" by (auto simp: cleaned_objects_def cr_ref_def cluster_secret_ref_def)
  then have kept: "synced view g w1" if "only_touches view ?S w w1" for w1
    using g that by (simp add: synced_def only_touches_def del: ref_of_simps)
  have set: "wp (setCondition R g t s r m) (told R view {t} ?S g w) w1" if "only_touches view ?S w w1" for t s r m w1
    by (rule wp_mono [OF wp_setCondition_told [OF laws kept [OF that]]]) (rule told_after [OF that], elim conjE)
  show ?thesis
    unfolding clean_up_def wp_bind
  proof (rule wp_mono [OF touches_cleanup [OF api, where S = ?S]], goal_cases)
    case (2 r w1)
    then have "told R view ts ?S g w g w1" for ts
      using kept by (auto simp: told_def same_spec_def only_touches_def)
    with 2 show ?case by (cases r) (auto simp: wp_ret intro!: set)
  qed blast
qed



section \<open>The whole round\<close>

lemma cr_not_ca: "cr_ref L g d \<noteq> ca_work_ref c"
  by (auto simp: cr_ref_def ca_work_ref_def getArgoCDCRManifestWorkName_def ArgoCDCRManifestWorkPrefix_def ArgoCDAgentCAManifestWorkName_def Let_def)

text \<open>The objects of a cluster that a condition speaks of are not on their way out when the round begins.\<close>

definition settled :: "('w, 'ca) reconciler \<Rightarrow> ('w \<Rightarrow> objref \<Rightarrow> kobj option) \<Rightarrow> gitops_cluster \<Rightarrow> 'w \<Rightarrow> string \<Rightarrow> string \<Rightarrow> bool" where
  "settled R view g w t c = (
     (t = ConditionClustersImported \<longrightarrow> import_ready view (m_namespace (gc_meta g)) w c) \<and>
     (t = ConditionManifestWorkCreated \<longrightarrow> stays view w (ca_work_ref c)) \<and>
     (t = ConditionArgoCDCRDelivered \<longrightarrow> stays view w (cr_ref (r_cr R) g c)) \<and>
     (t = ConditionAddonConfigured \<longrightarrow> stays view w (addon_config_ref_of c) \<and> stays view w (addon_ref c)))"

definition settled_clusters :: "('w, 'ca) reconciler \<Rightarrow> ('w \<Rightarrow> objref \<Rightarrow> kobj option) \<Rightarrow> gitops_cluster \<Rightarrow> 'w \<Rightarrow>
    managed_cluster list \<Rightarrow> string \<Rightarrow> managed_cluster set" where
  "settled_clusters R view g w cs t = {c \<in> set cs. settled R view g w t (nm c)}"

lemma settled_subset: "settled_clusters R view g w cs t \<subseteq> set cs"
  by (auto simp: settled_clusters_def)

lemma stays_told:
  assumes "told R view ts S g w g' w'" "ref_kind q \<noteq> KGitOpsCluster" "q \<notin> S" "stays view w q"
  shows "stays view w' q"
proof -
  have "q \<noteq> gref g" using assms(2) by auto
  with assms show ?thesis by (simp add: told_def only_touches_def stays_def)
qed

text \<open>What the supports of the promises have to do with the objects written later.\<close>

lemma import_apart:
  assumes "q \<in> import_support ns c"
  shows "q \<notin> objects_of (\<lambda>c. {ca_work_ref c}) cs" "q \<notin> objects_of (\<lambda>c. {cr_ref L g c}) cs" "q \<notin> objects_of addon_objects cs"
  using assms by (auto simp: import_support_def objects_of_def cluster_secret_ref_def ca_work_ref_def cr_ref_def addon_objects_def)

lemma ca_apart:
  assumes "q \<in> ca_support ns c"
  shows "q \<notin> objects_of (\<lambda>c. {cr_ref L g c}) cs" "q \<notin> objects_of addon_objects cs"
  using assms cr_not_ca [of L g _ c] by (auto simp: ca_support_def objects_of_def addon_objects_def ca_work_ref_def cr_ref_def)

lemma cr_apart: "q \<in> cr_support R g c \<Longrightarrow> q \<notin> objects_of addon_objects cs"
  by (auto simp: cr_support_def objects_of_def addon_objects_def cr_ref_def hub_argocd_def)

lemma cleaned_apart:
  assumes "c \<notin> D" "m_namespace (gc_meta g) = ns"
  shows "q \<in> import_support ns c \<Longrightarrow> q \<notin> (\<Union>d \<in> D. cleaned_objects R g d)" "q \<in> ca_support ns c \<Longrightarrow> q \<notin> (\<Union>d \<in> D. cleaned_objects R g d)"
    "q \<in> cr_support R g c \<Longrightarrow> q \<notin> (\<Union>d \<in> D. cleaned_objects R g d)" "q \<in> addon_objects c \<Longrightarrow> q \<notin> (\<Union>d \<in> D. cleaned_objects R g d)"
  using assms by (auto simp: cleaned_objects_def cluster_secret_ref_def ca_support_def cr_support_def addon_objects_def ca_work_ref_def
      cr_ref_def hub_argocd_def ArgoCDAgentCASecretName_def import_support_def client_secret_name_def)

lemma stays_apart:
  "ca_work_ref c \<notin> objects_of (import_objects ns) cs" "cr_ref L g c \<notin> objects_of (import_objects ns) cs"
  "q \<in> addon_objects c \<Longrightarrow> q \<notin> objects_of (import_objects ns) cs" "cr_ref L g c \<notin> objects_of (\<lambda>c. {ca_work_ref c}) cs"
  "q \<in> addon_objects c \<Longrightarrow> q \<notin> objects_of (\<lambda>c. {ca_work_ref c}) cs" "q \<in> addon_objects c \<Longrightarrow> q \<notin> objects_of (\<lambda>c. {cr_ref L g c}) cs"
  using cr_not_ca [of L g c]
  by (auto simp: objects_of_def import_objects_def client_objects_def addon_objects_def cluster_secret_ref_def ca_work_ref_def cr_ref_def)


lemma condition_names:
  "ConditionClustersImported \<noteq> ConditionManifestWorkCreated" "ConditionClustersImported \<noteq> ConditionArgoCDCRDelivered"
  "ConditionClustersImported \<noteq> ConditionRemovedClustersCleanedUp" "ConditionClustersImported \<noteq> ConditionAddonConfigured"
  "ConditionManifestWorkCreated \<noteq> ConditionArgoCDCRDelivered" "ConditionManifestWorkCreated \<noteq> ConditionRemovedClustersCleanedUp"
  "ConditionManifestWorkCreated \<noteq> ConditionAddonConfigured" "ConditionArgoCDCRDelivered \<noteq> ConditionRemovedClustersCleanedUp"
  "ConditionArgoCDCRDelivered \<noteq> ConditionAddonConfigured"
  by (simp_all add: ConditionClustersImported_def ConditionManifestWorkCreated_def ConditionArgoCDCRDelivered_def
      ConditionRemovedClustersCleanedUp_def ConditionAddonConfigured_def)

text \<open>The promises of the first three conditions, and of all four.\<close>

definition promises3 :: "('w, 'ca) reconciler \<Rightarrow> ('w \<Rightarrow> objref \<Rightarrow> kobj option) \<Rightarrow> string \<Rightarrow> string \<Rightarrow> (string \<Rightarrow> managed_cluster set) \<Rightarrow>
    gitops_cluster \<Rightarrow> gitops_cluster \<Rightarrow> 'w \<Rightarrow> bool" where
  "promises3 R view a p K g g' w' = (
     truthful R (imported R view (m_namespace (gc_meta g)) (PlacementRefName (gc_spec g))) ConditionClustersImported (K ConditionClustersImported) g' w' \<and>
     truthful R (has_current_ca R view (m_namespace (gc_meta g))) ConditionManifestWorkCreated (K ConditionManifestWorkCreated) g' w' \<and>
     truthful R (has_cr R view g a p) ConditionArgoCDCRDelivered (K ConditionArgoCDCRDelivered) g' w')"

locale conditions_run =
  fixes R :: "('w, 'ca) reconciler" and view :: "'w \<Rightarrow> objref \<Rightarrow> kobj option"
  assumes status: "status_api (r_client R) view" and certs: "cert_rotation (r_certs R) view" and x509: "secret_lister (r_x509 R) view"
    and conds: "status_conditions (r_find_condition R) (r_set_condition R)" and fields: "nested_fields (set_nested_field (r_cr R))"
    and codec: "secret_json (r_codec R)"
begin

lemma api: "kube_api (r_client R) view"
  using status by (rule status_api.axioms(1))

lemmas tasks = import_task [where R = R and view = view, OF api certs x509] ca_task [where R = R and view = view, OF api codec]
  cr_task [where R = R and view = view, OF api fields] addon_task [where R = R and view = view, OF api]

lemma kept_by_addons:
  assumes "promises3 R view a p K g g1 w1" "told R view {ConditionAddonConfigured} (objects_of addon_objects cs) g1 w1 g2 w2"
  shows "promises3 R view a p K g g2 w2"
  unfolding promises3_def
  by (intro conjI cluster_task.truthful_told [OF tasks(1) assms(2)] cluster_task.truthful_told [OF tasks(2) assms(2)]
      cluster_task.truthful_told [OF tasks(3) assms(2)])
    (use assms(1) in \<open>simp_all add: promises3_def condition_names import_apart ca_apart cr_apart\<close>)

lemma kept_by_cleanup:
  assumes "promises3 R view a p K g g1 w1" "same_spec g g1" "\<And>t. K t \<subseteq> set cs"
    and "told R view {ConditionRemovedClustersCleanedUp} (\<Union>c \<in> - (nm ` set cs). cleaned_objects R g1 c) g1 w1 g2 w2"
  shows "promises3 R view a p K g g2 w2"
proof -
  have [simp]: "cleaned_objects R g1 = cleaned_objects R g"
    by (simp add: fun_eq_iff cleaned_objects_def cr_ref_spec [OF assms(2)] same_spec_names [OF assms(2)])
  note t = assms(4) [simplified]
  have out: "nm c \<notin> - (nm ` set cs)" if "c \<in> K t" for c t using that assms(3) by auto
  show ?thesis
    unfolding promises3_def
    by (intro conjI cluster_task.truthful_told [OF tasks(1) t] cluster_task.truthful_told [OF tasks(2) t] cluster_task.truthful_told [OF tasks(3) t])
      (use assms(1) cleaned_apart [OF out refl] in \<open>simp_all add: promises3_def condition_names\<close>)
qed


text \<open>The state after the import, after the distribution of the CA and after the delivery of the ArgoCD resources.\<close>

definition early_objects :: "gitops_cluster \<Rightarrow> managed_cluster list \<Rightarrow> objref set" where
  "early_objects g cs = objects_of (import_objects (m_namespace (gc_meta g))) cs \<union> objects_of (\<lambda>c. {ca_work_ref c}) cs"

definition after_ca :: "managed_cluster list \<Rightarrow> gitops_cluster \<Rightarrow> 'w \<Rightarrow> gitops_cluster \<Rightarrow> 'w \<Rightarrow> bool" where
  "after_ca cs g w g2 w2 = (told R view {ConditionClustersImported, ConditionManifestWorkCreated} (early_objects g cs) g w g2 w2 \<and>
     truthful R (imported R view (m_namespace (gc_meta g)) (PlacementRefName (gc_spec g))) ConditionClustersImported
       (settled_clusters R view g w cs ConditionClustersImported) g2 w2 \<and>
     truthful R (has_current_ca R view (m_namespace (gc_meta g))) ConditionManifestWorkCreated
       (settled_clusters R view g w cs ConditionManifestWorkCreated) g2 w2)"

definition after_crs :: "string \<Rightarrow> string \<Rightarrow> managed_cluster list \<Rightarrow> gitops_cluster \<Rightarrow> 'w \<Rightarrow> gitops_cluster \<Rightarrow> 'w \<Rightarrow> bool" where
  "after_crs a p cs g w g3 w3 = (told R view {ConditionClustersImported, ConditionManifestWorkCreated, ConditionArgoCDCRDelivered}
       (early_objects g cs \<union> objects_of (\<lambda>c. {cr_ref (r_cr R) g c}) cs) g w g3 w3 \<and>
     promises3 R view a p (settled_clusters R view g w cs) g g3 w3)"

lemma wp_ca_phase:
  assumes dist: "distinct (map nm cs)"
    and imp: "reports view (import_objects (m_namespace (gc_meta g))) (imported R view (m_namespace (gc_meta g)) (PlacementRefName (gc_spec g)))
      R ConditionClustersImported cs (settled_clusters R view g w cs ConditionClustersImported) g w g1 w1"
  shows "wp (distribute_ca R (m_namespace (gc_meta g)) cs g1) (\<lambda>r w2. \<forall>g2. r = Inr g2 \<longrightarrow> after_ca cs g w g2 w2) w1"
proof -
  let ?ns = "m_namespace (gc_meta g)" and ?K = "settled_clusters R view g w cs"
  have t1: "told R view {ConditionClustersImported} (objects_of (import_objects ?ns) cs) g w g1 w1" using imp by (simp add: reports_def)
  have sync: "synced view g1 w1" using t1 by (simp add: told_def)
  have ready: "\<forall>c \<in> ?K ConditionManifestWorkCreated. stays view w1 (ca_work_ref (nm c))"
  proof
    fix c assume "c \<in> ?K ConditionManifestWorkCreated"
    then have s: "stays view w (ca_work_ref (nm c))" by (simp add: settled_clusters_def settled_def)
    show "stays view w1 (ca_work_ref (nm c))" by (rule stays_told [OF t1 _ stays_apart(1) s]) (simp add: ca_work_ref_def)
  qed
  have ca: "after_ca cs g w g2 w2"
    if "reports view (\<lambda>c. {ca_work_ref c}) (has_current_ca R view ?ns) R ConditionManifestWorkCreated cs (?K ConditionManifestWorkCreated) g1 w1 g2 w2"
    for g2 w2
  proof -
    have t2: "told R view {ConditionManifestWorkCreated} (objects_of (\<lambda>c. {ca_work_ref c}) cs) g1 w1 g2 w2" using that by (simp add: reports_def)
    have t: "told R view {ConditionClustersImported, ConditionManifestWorkCreated} (early_objects g cs) g w g2 w2"
      using told_trans [OF t1 t2] by (simp add: early_objects_def insert_commute)
    have "truthful R (imported R view ?ns (PlacementRefName (gc_spec g))) ConditionClustersImported (?K ConditionClustersImported) g2 w2"
      by (rule cluster_task.truthful_told [OF tasks(1) t2]) (use imp in \<open>simp_all add: condition_names import_apart reports_def\<close>)
    with t that show ?thesis by (simp add: after_ca_def reports_def)
  qed
  show ?thesis
    unfolding distribute_ca_def
    by (rule wp_mono [OF cluster_task.wp_round [OF tasks(2) status conds sync dist settled_subset ready]]) (auto intro: ca)
qed

lemma wp_cr_phase:
  assumes "distinct (map nm cs)" and "after_ca cs g w g2 w2"
  shows "wp (deliver_crs R a p cs g2) (\<lambda>r w3. \<forall>d. r = Inr d \<longrightarrow> (\<exists>g3. d \<in> {None, Some g3} \<and> after_crs a p cs g w g3 w3) \<and>
     (validateArgoCDCRManifestWork (unmarshal_unstr (r_cr R)) (ArgoCDCRManifestWork (ArgoCDAgentAddon (gc_spec g))) = Inr () \<longrightarrow> d \<noteq> None)) w2"
proof -
  let ?ns = "m_namespace (gc_meta g)" and ?K = "settled_clusters R view g w cs"
  have t12: "told R view {ConditionClustersImported, ConditionManifestWorkCreated} (early_objects g cs) g w g2 w2"
    and same: "same_spec g g2" and sync: "synced view g2 w2" using assms(2) by (simp_all add: after_ca_def told_def)
  have ready: "\<forall>c \<in> ?K ConditionArgoCDCRDelivered. stays view w2 (cr_ref (r_cr R) g2 (nm c))"
    unfolding cr_ref_spec [OF same]
  proof
    fix c assume "c \<in> ?K ConditionArgoCDCRDelivered"
    then have s: "stays view w (cr_ref (r_cr R) g (nm c))" by (simp add: settled_clusters_def settled_def condition_names [symmetric])
    show "stays view w2 (cr_ref (r_cr R) g (nm c))"
      by (rule stays_told [OF t12 _ _ s]) (simp_all add: early_objects_def stays_apart, simp add: cr_ref_def)
  qed
  have crs: "after_crs a p cs g w g3 w3"
    if "reports view (\<lambda>c. {cr_ref (r_cr R) g2 c}) (has_cr R view g2 a p) R ConditionArgoCDCRDelivered cs
      (?K ConditionArgoCDCRDelivered) g2 w2 g3 w3" for g3 w3
  proof -
    have t3: "told R view {ConditionArgoCDCRDelivered} (objects_of (\<lambda>c. {cr_ref (r_cr R) g c}) cs) g2 w2 g3 w3"
      and cr: "truthful R (has_cr R view g a p) ConditionArgoCDCRDelivered (?K ConditionArgoCDCRDelivered) g3 w3"
      using that by (simp_all add: reports_def cr_ref_spec [OF same] has_cr_spec [OF same])
    have "truthful R (imported R view ?ns (PlacementRefName (gc_spec g))) ConditionClustersImported (?K ConditionClustersImported) g3 w3"
      by (rule cluster_task.truthful_told [OF tasks(1) t3]) (use assms(2) in \<open>simp_all add: condition_names import_apart after_ca_def\<close>)
    moreover have "truthful R (has_current_ca R view ?ns) ConditionManifestWorkCreated (?K ConditionManifestWorkCreated) g3 w3"
      by (rule cluster_task.truthful_told [OF tasks(2) t3]) (use assms(2) in \<open>simp_all add: condition_names ca_apart after_ca_def\<close>)
    ultimately show ?thesis using told_trans [OF t12 t3] cr by (simp add: after_crs_def promises3_def insert_commute)
  qed
  show ?thesis
    by (rule wp_mono [OF wp_deliver_truth [OF status conds fields sync assms(1) settled_subset ready]])
      (use same_spec_names(3) [OF same] in \<open>auto intro: crs\<close>)
qed


definition after_all :: "string \<Rightarrow> string \<Rightarrow> (string \<Rightarrow> managed_cluster set) \<Rightarrow> gitops_cluster \<Rightarrow> gitops_cluster \<Rightarrow> 'w \<Rightarrow> bool" where
  "after_all a p K g g' w' = (synced view g' w' \<and> same_spec g g' \<and> promises3 R view a p K g g' w' \<and>
     (validateArgoCDCRManifestWork (unmarshal_unstr (r_cr R)) (ArgoCDCRManifestWork (ArgoCDAgentAddon (gc_spec g))) = Inr () \<longrightarrow>
        truthful R (has_addon view g) ConditionAddonConfigured (K ConditionAddonConfigured) g' w'))"

lemma wp_last_phases:
  assumes dist: "distinct (map nm cs)" and 3: "after_crs a p cs g w g3 w3"
  shows "wp (clean_up R cs g3 \<bind> (\<lambda>g. bindE (configure_addons R cs g) (\<lambda>_. ret (Inr ()))))
     (\<lambda>r w'. r = Inr () \<longrightarrow> (\<exists>g'. after_all a p (settled_clusters R view g w cs) g g' w')) w3"
  unfolding wp_bind
proof (rule wp_mono [OF wp_clean_up_told [OF status conds]], goal_cases)
  case 1
  show ?case using 3 by (simp add: after_crs_def told_def)
next
  case (2 g4 w4)
  let ?K = "settled_clusters R view g w cs"
  have same3: "same_spec g g3" and p4: "promises3 R view a p ?K g g4 w4"
    using 3 kept_by_cleanup [where K = ?K, OF _ _ settled_subset 2] by (simp_all add: after_crs_def told_def)
  have objs: "cleaned_objects R g3 = cleaned_objects R g"
    by (simp add: fun_eq_iff cleaned_objects_def cr_ref_spec [OF same3] same_spec_names [OF same3])
  note t4 = told_trans [OF conjunct1 [OF 3 [unfolded after_crs_def]] 2 [unfolded objs]]
  have same: "same_spec g g4" and sync: "synced view g4 w4" using t4 by (simp_all add: told_def)
  have ready: "stays view w4 q" if "c \<in> ?K ConditionAddonConfigured" "q \<in> addon_objects (nm c)" for c q
  proof (rule stays_told [OF t4])
    show "stays view w q" using that by (auto simp: settled_clusters_def settled_def addon_objects_def)
    have "nm c \<notin> - (nm ` set cs)" using that(1) by (simp add: settled_clusters_def)
    from cleaned_apart(4) [OF this refl that(2)] show "q \<notin> early_objects g cs \<union> objects_of (\<lambda>c. {cr_ref (r_cr R) g c}) cs \<union>
        (\<Union>c \<in> - (nm ` set cs). cleaned_objects R g c)"
      using stays_apart(3,5,6) [OF that(2)] by (simp add: early_objects_def)
    show "ref_kind q \<noteq> KGitOpsCluster" using that(2) by (auto simp: addon_objects_def)
  qed
  have "\<forall>c \<in> ?K ConditionAddonConfigured. stays view w4 (addon_config_ref_of (nm c)) \<and> stays view w4 (addon_ref (nm c))"
    using ready by (auto simp: addon_objects_def)
  from cluster_task.wp_round [OF tasks(4) status conds sync dist settled_subset this]
  have "wp (configure_addons R cs g4) (\<lambda>r w'. \<forall>g'. r = Inr g' \<longrightarrow>
      reports view addon_objects (has_addon view g4) R ConditionAddonConfigured cs (?K ConditionAddonConfigured) g4 w4 g' w') w4"
    unfolding configure_addons_def .
  then show ?case
  proof (rule wp_bindE_rule, goal_cases)
    case (2 g' w')
    then have t5: "told R view {ConditionAddonConfigured} (objects_of addon_objects cs) g4 w4 g' w'"
      and addon: "truthful R (has_addon view g) ConditionAddonConfigured (?K ConditionAddonConfigured) g' w'"
      by (simp_all add: reports_def has_addon_spec [OF same])
    have "synced view g' w'" "same_spec g g'" using t5 same by (simp_all add: told_def same_spec_def)
    with kept_by_addons [OF p4 t5] addon show ?case by (auto simp: wp_ret after_all_def)
  qed simp
qed

lemma wp_serve_truth:
  assumes "synced view g w" "distinct (map nm cs)"
  shows "wp (serve_clusters R (m_namespace (gc_meta g)) a p cs g) (\<lambda>r w'. r = Inr () \<longrightarrow> (\<exists>g'.
     (validateArgoCDCRManifestWork (unmarshal_unstr (r_cr R)) (ArgoCDCRManifestWork (ArgoCDAgentAddon (gc_spec g))) = Inr () \<longrightarrow>
        after_all a p (settled_clusters R view g w cs) g g' w') \<and> synced view g' w' \<and> same_spec g g' \<and>
     promises3 R view a p (settled_clusters R view g w cs) g g' w')) w"
    (is "wp _ ?Q w")
  unfolding serve_clusters_def import_clusters_def
proof (rule wp_bindE_rule [OF cluster_task.wp_round [OF tasks(1) status conds assms(1,2) settled_subset [of R view g w cs ConditionClustersImported]]], goal_cases)
  case 1
  show ?case by (simp add: settled_clusters_def settled_def)
next
  case (3 g1 w1)
  then have "reports view (import_objects (m_namespace (gc_meta g)))
      (imported R view (m_namespace (gc_meta g)) (PlacementRefName (gc_spec g))) R ConditionClustersImported cs
      (settled_clusters R view g w cs ConditionClustersImported) g w g1 w1" by blast
  from wp_ca_phase [OF assms(2) this] show ?case
  proof (rule wp_bindE_rule, goal_cases)
    case (2 g2 w2)
    then have "after_ca cs g w g2 w2" by blast
    from wp_cr_phase [OF assms(2) this] show ?case
    proof (rule wp_bindE_rule, goal_cases)
      case (2 d w3)
      then obtain g3 where g3: "d \<in> {None, Some g3}" "after_crs a p cs g w g3 w3" by blast
      show ?case
      proof (cases d)
        case None
        have "synced view g3 w3 \<and> same_spec g g3 \<and> promises3 R view a p (settled_clusters R view g w cs) g g3 w3" using g3(2) by (simp add: after_crs_def told_def)
        then show ?thesis using 2 None by (auto simp: wp_ret)
      next
        case (Some g')
        with g3 have "after_crs a p cs g w g' w3" by simp
        from wp_last_phases [OF assms(2) this] show ?thesis
          unfolding Some option.case by (rule wp_mono) (auto simp: after_all_def)
      qed
    qed simp
  qed simp
qed simp

end

text \<open>
  C6: After a round over selected clusters of distinct names that returns without an error, and
  whichever of its requests failed, the conditions stored on the GitOpsCluster are right:
  ClustersImported, ManifestWorkCreated, ArgoCDCRDelivered and, where the resource of the user is
  valid, AddonConfigured are True only when each selected cluster has its cluster Secret with the
  stored client key pair, a CA work with no certificate but the current one and the ArgoCD
  resource (the hub as its own local-cluster needs neither), and the addon with its variables. A
  condition speaks of the clusters for which the object in question was not already being deleted
  when the round began (and had no stringData, which the server never returns); status writes are
  taken to be answered, since the code goes on when one fails.
\<close>

theorem conditions_tell_truth:
  assumes "conditions_run R view" and "view w (ref_of (OGitOpsCluster g)) = Some (OGitOpsCluster g)"
    and "distinct (map (\<lambda>c. m_name (mc_meta c)) clusters)"
    and "run_state (serve_clusters R (m_namespace (gc_meta g)) a p clusters g) w = (Inr (), w')"
  shows "\<exists>g'. view w' (ref_of (OGitOpsCluster g)) = Some (OGitOpsCluster g') \<and>
     (\<forall>c \<in> (\<lambda>c. m_name (mc_meta c)) ` set clusters.
        (status_of R g' ConditionClustersImported = Some CondTrue \<and> settled R view g w ConditionClustersImported c \<longrightarrow>
           imported R view (m_namespace (gc_meta g)) (PlacementRefName (gc_spec g)) w' c) \<and>
        (status_of R g' ConditionManifestWorkCreated = Some CondTrue \<and> settled R view g w ConditionManifestWorkCreated c \<longrightarrow>
           has_current_ca R view (m_namespace (gc_meta g)) w' c) \<and>
        (status_of R g' ConditionArgoCDCRDelivered = Some CondTrue \<and> settled R view g w ConditionArgoCDCRDelivered c \<longrightarrow>
           has_cr R view g a p w' c) \<and>
        (validateArgoCDCRManifestWork (unmarshal_unstr (r_cr R)) (ArgoCDCRManifestWork (ArgoCDAgentAddon (gc_spec g))) = Inr () \<and>
         status_of R g' ConditionAddonConfigured = Some CondTrue \<and> settled R view g w ConditionAddonConfigured c \<longrightarrow> has_addon view g w' c))"
proof -
  have "synced view g w" using assms(2) by (simp add: synced_def del: ref_of_simps)
  from wp_run [OF conditions_run.wp_serve_truth [OF assms(1) this assms(3)] assms(4)] obtain g' where
    g': "synced view g' w'" "same_spec g g'" "promises3 R view a p (settled_clusters R view g w clusters) g g' w'" and
    addon: "validateArgoCDCRManifestWork (unmarshal_unstr (r_cr R)) (ArgoCDCRManifestWork (ArgoCDAgentAddon (gc_spec g))) = Inr () \<Longrightarrow>
      truthful R (has_addon view g) ConditionAddonConfigured (settled_clusters R view g w clusters ConditionAddonConfigured) g' w'"
    unfolding conditions_run.after_all_def [OF assms(1)] by blast
  have "view w' (ref_of (OGitOpsCluster g)) = Some (OGitOpsCluster g')"
    using g'(1,2) by (simp add: synced_def same_spec_def del: ref_of_simps)
  with g'(3) addon show ?thesis by (intro exI [of _ g']) (auto simp: promises3_def truthful_def settled_clusters_def)
qed

text \<open>One cluster, and a hub that has its CA; nothing has been delivered yet.\<close>

definition steady_reconciler :: "(mem, unit) reconciler" where
  "steady_reconciler = mem_reconciler\<lparr>r_client := steady_client,
     r_proxy := \<lparr>ResourceProxyServer = ''https://proxy.example.com:9090'', ResourceProxyTLSServerName = ''''\<rparr>\<rparr>"

lemma steady_laws:
  "status_api (r_client steady_reconciler) mem_view" "cert_rotation (r_certs steady_reconciler) mem_view"
  "secret_lister (r_x509 steady_reconciler) mem_view" "status_conditions (r_find_condition steady_reconciler) (r_set_condition steady_reconciler)"
  "nested_fields (set_nested_field (r_cr steady_reconciler))" "secret_json (r_codec steady_reconciler)"
  using mem_reconciler_laws
  by (simp_all add: steady_reconciler_def mem_reconciler_def steady_status_api upsert_status_conditions plain_cr_lib_def path_nested_fields plain_secret_json)

interpretation mem_conditions: conditions_run steady_reconciler mem_view
  by (intro conditions_run.intro steady_laws)

lemma mem_conditions_run: "conditions_run steady_reconciler mem_view"
  by (rule mem_conditions.conditions_run_axioms)

interpretation mem_import: cluster_task mem_view
  "\<lambda>c. importManagedClusterToArgoCD (r_client steady_reconciler) (r_certs steady_reconciler) (r_x509 steady_reconciler)
     (r_parse_url steady_reconciler) (r_proxy steady_reconciler) ns c placement"
  "import_objects ns" "import_support ns" "import_ready mem_view ns" "imported steady_reconciler mem_view ns placement" for ns placement
  by (rule mem_conditions.tasks(1))

interpretation mem_ca: cluster_task mem_view "createArgoCDAgentManifestWork (r_client steady_reconciler) (r_codec steady_reconciler) ns spoke"
  "\<lambda>c. {ca_work_ref c}" "ca_support ns" "\<lambda>w c. stays mem_view w (ca_work_ref c)" "has_current_ca steady_reconciler mem_view ns" for ns spoke
  by (rule mem_conditions.tasks(2))

definition example_round_world :: mem where
  "example_round_world = mem_of [OGitOpsCluster example_run_gitops, issued_secret ''argocd'' ArgoCDAgentCASecretName]"

theorem conditions_tell_truth_witness:
  "has_current_ca steady_reconciler mem_view ''argocd'' (snd (run_state (serve_clusters steady_reconciler ''argocd'' ''hub.example.com'' ''443''
      [example_managed_cluster] example_run_gitops) example_round_world)) ''cluster1''"
proof -
  let ?run = "run_state (serve_clusters steady_reconciler (m_namespace (gc_meta example_run_gitops)) ''hub.example.com'' ''443''
      [example_managed_cluster] example_run_gitops) example_round_world"
  let ?q = "ref_of (OGitOpsCluster example_run_gitops)"
  have names: "m_namespace (gc_meta example_run_gitops) = ''argocd''" "m_name (mc_meta example_managed_cluster) = ''cluster1''" by code_simp+
  have stored: "mem_view example_round_world ?q = Some (OGitOpsCluster example_run_gitops)" by code_simp
  have dist: "distinct (map (\<lambda>c. m_name (mc_meta c)) [example_managed_cluster])" by simp
  have none: "mem_view example_round_world (cluster_secret_ref ''argocd'' ''cluster1'') = None" "mem_view example_round_world (ca_work_ref ''cluster1'') = None"
    "mem_view example_round_world (cr_ref (r_cr steady_reconciler) example_run_gitops ''cluster1'') = None"
    "mem_view example_round_world (addon_config_ref_of ''cluster1'') = None" "mem_view example_round_world (addon_ref ''cluster1'') = None"
    by code_simp+
  then have settled: "settled steady_reconciler mem_view example_run_gitops example_round_world t ''cluster1''" for t
    by (simp add: settled_def import_ready_def stays_def names)
  have "(case ?run of (r, w') \<Rightarrow> if r = Inr () then map_option (\<lambda>x. map_option (\<lambda>g. status_of steady_reconciler g ConditionManifestWorkCreated)
      (as_gitops x)) (mem_view w' ?q) else None) = Some (Some (Some CondTrue))" by code_simp
  then have run: "?run = (Inr (), snd ?run)" and
    told: "map_option (\<lambda>x. map_option (\<lambda>g. status_of steady_reconciler g ConditionManifestWorkCreated) (as_gitops x)) (mem_view (snd ?run) ?q) =
      Some (Some (Some CondTrue))"
    by (auto simp only: split_beta prod_eq_iff fst_conv snd_conv split: if_splits)
  from conditions_tell_truth [OF mem_conditions_run, OF stored, OF dist, OF run] settled obtain g' where
    g': "mem_view (snd ?run) ?q = Some (OGitOpsCluster g')" and
    ca: "status_of steady_reconciler g' ConditionManifestWorkCreated = Some CondTrue \<Longrightarrow>
      has_current_ca steady_reconciler mem_view ''argocd'' (snd ?run) ''cluster1''"
    unfolding names by (force simp: names)
  have "status_of steady_reconciler g' ConditionManifestWorkCreated = Some CondTrue" using told unfolding g' by simp
  from ca [OF this] show ?thesis unfolding names .
qed

end
