(* ===== verification/Run_Frames.thy ===== *)
theory Run_Frames
  imports Mem_Client
begin

text \<open>
  What a run may do to the world, as a preorder on worlds: the rules that carry it through a program, and the
  preorder of the addon controller, which leaves some objects alone when they carry the skip annotation.
\<close>

section \<open>Preorders on worlds\<close>

locale run_frame =
  fixes R :: "'w \<Rightarrow> 'w \<Rightarrow> bool"
  assumes stay: "R w w" and step: "R w w1 \<Longrightarrow> R w1 w2 \<Longrightarrow> R w w2"
begin

definition within :: "('w, 'a) state \<Rightarrow> bool" where
  "within m = (\<forall>w. wp m (\<lambda>_ w'. R w w') w)"

lemma withinI: "(\<And>w. wp m (\<lambda>_ w'. R w w') w) \<Longrightarrow> within m"
  by (simp add: within_def)

lemma within_run: "within m \<Longrightarrow> run_state m w = (a, w') \<Longrightarrow> R w w'"
  unfolding within_def by (blast dest: wp_run)

lemma within_wp: "within m \<Longrightarrow> wp m (\<lambda>_ w'. R w w') w"
  by (simp add: within_def)

lemma within_ret: "within (ret x)"
  by (simp add: within_def wp_ret stay)

lemma within_bind:
  assumes "within m" "\<And>x. within (f x)"
  shows "within (m \<bind> f)"
  by (rule withinI, rule wp_bind_rule [OF within_wp [OF assms(1)]]) (rule wp_mono [OF within_wp [OF assms(2)]], rule step)

lemma within_sum: "(\<And>e. within (f e)) \<Longrightarrow> (\<And>x. within (g x)) \<Longrightarrow> within (case r of Inl e \<Rightarrow> f e | Inr x \<Rightarrow> g x)"
  by (cases r) auto

lemma within_if: "(b \<Longrightarrow> within m) \<Longrightarrow> (\<not> b \<Longrightarrow> within n) \<Longrightarrow> within (if b then m else n)"
  by simp

lemma within_option: "within f \<Longrightarrow> (\<And>x. within (g x)) \<Longrightarrow> within (case r of None \<Rightarrow> f | Some x \<Rightarrow> g x)"
  by (cases r) auto

lemma within_bindE: "within m \<Longrightarrow> (\<And>x. within (f x)) \<Longrightarrow> within (bindE m f)"
  unfolding bindE_def by (intro within_bind within_sum within_ret)

lemma within_wrapE: "within m \<Longrightarrow> within (wrapE p m)"
  unfolding wrapE_def by (intro within_bind within_ret)

lemma within_log_error: "within m \<Longrightarrow> within (log_error m)"
  unfolding log_error_def by (intro within_bind within_ret)

lemma within_for_each: "(\<And>x. x \<in> set xs \<Longrightarrow> within (f x)) \<Longrightarrow> within (for_each f xs)"
  by (induction xs) (auto intro: within_ret within_bind)

lemmas within_rules = within_ret within_bind within_sum within_if within_option within_bindE within_wrapE
  within_log_error

end

section \<open>The skip annotation\<close>

definition skip_annotated :: "object_meta \<Rightarrow> bool" where
  "skip_annotated m = (mget (m_annotations m) ''argocd-addon.open-cluster-management.io/skip'' = ''true'')"

definition skipped :: "('w \<Rightarrow> objref \<Rightarrow> kobj option) \<Rightarrow> 'w \<Rightarrow> objref \<Rightarrow> bool" where
  "skipped view w q = (\<exists>x. view w q = Some x \<and> skip_annotated (meta_of x))"

text \<open>A run changes the objects \<open>F\<close> freely, and the objects \<open>S\<close> unless they are annotated.\<close>

definition spares :: "('w \<Rightarrow> objref \<Rightarrow> kobj option) \<Rightarrow> objref set \<Rightarrow> objref set \<Rightarrow> 'w \<Rightarrow> 'w \<Rightarrow> bool" where
  "spares view F S w w' = (\<forall>q. view w' q = view w q \<or> q \<in> F \<or> q \<in> S \<and> \<not> skipped view w q)"

interpretation spares: run_frame "spares view F S" for view :: "'w \<Rightarrow> objref \<Rightarrow> kobj option" and F S
proof (unfold_locales, goal_cases)
  case (1 w)
  show ?case by (simp add: spares_def)
next
  case (2 w w1 w2)
  show ?case
    unfolding spares_def
  proof
    fix q
    from 2 have "view w1 q = view w q \<or> q \<in> F \<or> q \<in> S \<and> \<not> skipped view w q"
      "view w2 q = view w1 q \<or> q \<in> F \<or> q \<in> S \<and> \<not> skipped view w1 q" by (simp_all add: spares_def)
    then show "view w2 q = view w q \<or> q \<in> F \<or> q \<in> S \<and> \<not> skipped view w q" by (auto simp: skipped_def)
  qed
qed

lemma spares_view: "view w' = view w \<Longrightarrow> spares view F S w w'"
  by (simp add: spares_def)

lemma spares_touches: "only_touches view F w w' \<Longrightarrow> spares view F S w w'"
  by (auto simp: spares_def only_touches_def)

lemma spares_one:
  "r \<in> S \<Longrightarrow> (\<And>q. q \<noteq> r \<Longrightarrow> view w' q = view w q) \<Longrightarrow> (skipped view w r \<Longrightarrow> view w' r = view w r) \<Longrightarrow> spares view F S w w'"
  unfolding spares_def by metis

lemma spares_quiet: "(\<And>a w w'. run_state m w = (a, w') \<Longrightarrow> view w' = view w) \<Longrightarrow> spares.within view F S m"
  by (rule spares.withinI) (auto intro!: wpI spares_view)

end
