(* ===== verification/Atomic_Api.thy ===== *)
theory Atomic_Api
  imports Run_Frames
begin

text \<open>
  A server whose writes are atomic: a write that is answered with an error was carried out in full or not at all. The locale
  \<open>atomic_api\<close> adds this to the laws of \<open>kube_api\<close>; the in-memory client is an instance.
\<close>

section \<open>Requests that fail\<close>

definition created :: "('w \<Rightarrow> objref \<Rightarrow> kobj option) \<Rightarrow> kobj \<Rightarrow> 'w \<Rightarrow> 'w \<Rightarrow> bool" where
  "created view x w w' = (view w (ref_of x) = None \<and> (\<exists>y. same_content (admit x) y \<and> view w' = (view w)(ref_of x := Some y)))"

definition updated :: "('w \<Rightarrow> objref \<Rightarrow> kobj option) \<Rightarrow> kobj \<Rightarrow> 'w \<Rightarrow> 'w \<Rightarrow> bool" where
  "updated view x w w' = (\<exists>old y. view w (ref_of x) = Some old \<and> same_content (keep_status old (admit x)) y \<and>
     view w' = (view w)(ref_of x := if m_deletion (meta_of x) \<noteq> None \<and> m_finalizers (meta_of x) = [] then None else Some y))"

definition deleted :: "('w \<Rightarrow> objref \<Rightarrow> kobj option) \<Rightarrow> objref \<Rightarrow> 'w \<Rightarrow> 'w \<Rightarrow> bool" where
  "deleted view r w w' = (only_touches view {r} w w' \<and> gone view w' r)"

definition restatused :: "('w \<Rightarrow> objref \<Rightarrow> kobj option) \<Rightarrow> kobj \<Rightarrow> 'w \<Rightarrow> 'w \<Rightarrow> bool" where
  "restatused view x w w' = (\<exists>old y. view w (ref_of x) = Some old \<and> same_content (put_status old x) y \<and>
     view w' = (view w)(ref_of x := Some y))"

text \<open>A write whose answer is an error, a timeout for example, was carried out or was not; and an object keeps its uid.\<close>

locale atomic_api = kube_api C view for C :: "'w client" and view +
  assumes create_fails: "run_state (c_create C x) w = (Inl e, w') \<Longrightarrow> view w' = view w \<or> created view x w w'"
    and update_fails: "run_state (c_update C x) w = (Inl e, w') \<Longrightarrow> view w' = view w \<or> updated view x w w'"
    and status_fails: "run_state (c_update_status C x) w = (Inl e, w') \<Longrightarrow> view w' = view w \<or> restatused view x w w'"
    and delete_fails: "run_state (c_delete C r) w = (Inl e, w') \<Longrightarrow> view w' = view w \<or> deleted view r w w'"
    and update_uid: "run_state (c_update C x) w = (a, w') \<Longrightarrow> view w (ref_of x) = Some old \<Longrightarrow>
      m_uid (meta_of x) = m_uid (meta_of old) \<Longrightarrow> view w' (ref_of x) = Some y \<Longrightarrow> m_uid (meta_of y) = m_uid (meta_of old)"
begin

lemma wp_create_atomic: "wp (create C x) (\<lambda>_ w'. view w' = view w \<or> created view x w w') w"
  unfolding create_def wp_bindE
proof (rule wpI)
  fix a w' assume run: "run_state (c_create C x) w = (a, w')"
  then show "case a of Inl e \<Rightarrow> view w' = view w \<or> created view x w w'
      | Inr y \<Rightarrow> wp (ret (Inr ())) (\<lambda>_ w'. view w' = view w \<or> created view x w w') w'"
    using create_fails create_ok [of x w _ w'] by (cases a) (auto simp: wp_ret created_def)
qed

lemma update_atomic: "run_state (c_update C x) w = (a, w') \<Longrightarrow> view w' = view w \<or> updated view x w w'"
  using update_fails update_ok [of x w _ w'] unfolding updated_def by (cases a) blast+

lemma wp_update_atomic: "wp (update C x) (\<lambda>_ w'. view w' = view w \<or> updated view x w w') w"
  unfolding update_def wp_bindE
proof (rule wpI)
  fix a w' assume run: "run_state (c_update C x) w = (a, w')"
  from update_atomic [OF this]
  show "case a of Inl e \<Rightarrow> view w' = view w \<or> updated view x w w'
      | Inr y \<Rightarrow> wp (ret (Inr ())) (\<lambda>_ w'. view w' = view w \<or> updated view x w w') w'"
    by (cases a) (simp_all add: wp_ret)
qed

lemma wp_status_atomic:
  assumes "\<And>y w'. restatused view x w w' \<Longrightarrow> view w' (ref_of x) = Some y \<Longrightarrow> Q (Inr y) w'"
    and "\<And>e w'. view w' = view w \<or> restatused view x w w' \<Longrightarrow> Q (Inl e) w'"
  shows "wp (c_update_status C x) Q w"
proof (rule wpI)
  fix a w' assume run: "run_state (c_update_status C x) w = (a, w')"
  show "Q a w'"
  proof (cases a)
    case (Inl e)
    with assms(2) status_fails run show ?thesis by blast
  next
    case (Inr y)
    from status_ok [OF run [unfolded Inr]] have "restatused view x w w'" "view w' (ref_of x) = Some y"
      by (auto simp: restatused_def)
    then show ?thesis unfolding Inr by (rule assms(1))
  qed
qed

lemma delete_atomic: "run_state (c_delete C r) w = (a, w') \<Longrightarrow> view w' = view w \<or> deleted view r w w'"
proof (cases a)
  case (Inr u)
  assume "run_state (c_delete C r) w = (a, w')"
  with Inr have "run_state (c_delete C r) w = (Inr u, w')" by simp
  from delete_ok [OF this] obtain old where old:
    "view w' = (view w)(r := if m_finalizers (meta_of old) = [] then None else view w' r)"
    "\<forall>y. view w' r = Some y \<longrightarrow> terminating y" by blast
  have "view w' q = view w q" if "q \<noteq> r" for q
    using that by (subst old(1)) simp
  with old(2) show ?thesis by (simp add: deleted_def only_touches_def gone_def)
qed (simp add: delete_fails)

end

lemma mem_failed:
  "run_state (mem_call f) w = (Inl e, w') \<Longrightarrow> (\<And>xs e. fst (f xs) = Inl e \<Longrightarrow> snd (f xs) = xs) \<Longrightarrow> mem_view w' = mem_view w"
proof -
  assume run: "run_state (mem_call f) w = (Inl e, w')" and keep: "\<And>xs e. fst (f xs) = Inl e \<Longrightarrow> snd (f xs) = xs"
  from run_mem_call [OF run] keep [of "mem_objs w" e] have "mem_objs w' = mem_objs w" by auto
  then show "mem_view w' = mem_view w" by (simp add: mem_view_def fun_eq_iff)
qed

lemma mem_update_stored:
  assumes "run_state (mem_update x) w = (a, w')" "mem_view w (ref_of x) = Some old"
  shows "mem_view w' = mem_view w \<or>
    (\<forall>y. mem_view w' (ref_of x) = Some y \<longrightarrow> y = stamp (keep_status old (admit x)))"
  using assms
  by (auto simp: mem_defs mem_view_def fun_eq_iff Let_def find_obj_Cons find_obj_remove dest!: run_mem_call
      split: option.splits if_splits)

lemma meta_of_stamp [simp]: "meta_of (stamp x) = (meta_of x)\<lparr>m_resource_version := ''1''\<rparr>"
  by (cases x) (simp_all add: stamp_def)

interpretation mem_atomic: atomic_api mem_client mem_view
proof (unfold_locales, goal_cases)
  case (1 x w e w')
  then show ?case unfolding mem_client_sel mem_create_def
    by (intro disjI1) (erule mem_failed, auto simp: Let_def split: if_splits option.splits)
next
  case (2 x w e w')
  then show ?case unfolding mem_client_sel mem_update_def
    by (intro disjI1) (erule mem_failed, auto simp: Let_def split: if_splits option.splits)
next
  case (3 x w e w')
  then show ?case unfolding mem_client_sel mem_update_status_def
    by (intro disjI1) (erule mem_failed, auto simp: Let_def split: if_splits option.splits)
next
  case (4 r w e w')
  then show ?case unfolding mem_client_sel mem_delete_def
    by (intro disjI1) (erule mem_failed, auto simp: Let_def split: if_splits option.splits)
next
  case (5 x w a w' old y)
  from mem_update_stored [OF 5(1) [unfolded mem_client_sel] 5(2)] 5(2-4) show ?case by auto
qed

lemma mem_atomic_api: "atomic_api mem_client mem_view"
  by (rule mem_atomic.atomic_api_axioms)

end
