(* ===== verification/GitOps_Placement.thy ===== *)
theory GitOps_Placement
  imports GitOps_Run Atomic_Api
begin

text \<open>
  The Placement of a GitOpsCluster: a run of \<open>Reconcile\<close> in \<open>gitopscluster_controller.go\<close> writes its status and, with a discovered
  address, its specification, but the Placement it refers to stays the same from the first request to the last, so the run adds
  tolerations to that Placement and to no other. Status writes may fail on the way, with or without effect (\<open>atomic_api\<close>).
\<close>

section \<open>The reference to the Placement\<close>

text \<open>The stored GitOpsCluster, and the one in memory, refer to the Placement \<open>p\<close>.\<close>

definition pinned :: "('w \<Rightarrow> objref \<Rightarrow> kobj option) \<Rightarrow> objref \<Rightarrow> string \<Rightarrow> 'w \<Rightarrow> bool" where
  "pinned view n p w = (\<forall>x. view w n = Some x \<longrightarrow> (\<exists>g. x = OGitOpsCluster g \<and> PlacementRefName (gc_spec g) = p))"

definition points :: "objref \<Rightarrow> string \<Rightarrow> gitops_cluster \<Rightarrow> bool" where
  "points n p g = (gref g = n \<and> PlacementRefName (gc_spec g) = p)"

definition pins :: "('w \<Rightarrow> objref \<Rightarrow> kobj option) \<Rightarrow> objref \<Rightarrow> string \<Rightarrow> ('r \<Rightarrow> gitops_cluster set) \<Rightarrow> 'r \<Rightarrow> 'w \<Rightarrow> bool" where
  "pins view n p gs r w = (pinned view n p w \<and> (\<forall>g \<in> gs r. points n p g))"

lemma pins_ret: "pinned view n p w \<Longrightarrow> \<forall>g \<in> gs r. points n p g \<Longrightarrow> wp (ret r) (pins view n p gs) w"
  by (simp add: wp_ret pins_def)

lemma pins_bind:
  assumes "wp m (pins view n p gs) w" "\<And>x w1. pinned view n p w1 \<Longrightarrow> \<forall>g \<in> gs x. points n p g \<Longrightarrow> wp (f x) (pins view n p hs) w1"
  shows "wp (m \<bind> f) (pins view n p hs) w"
  by (rule wp_bind_rule [OF assms(1)]) (simp add: assms(2) pins_def [of _ _ _ gs])

lemma pins_bindE:
  assumes "wp m (pins view n p gs) w" "\<And>e. hs (Inl e) = {}"
    and "\<And>x w1. pinned view n p w1 \<Longrightarrow> \<forall>g \<in> gs (Inr x). points n p g \<Longrightarrow> wp (f x) (pins view n p hs) w1"
  shows "wp (bindE m f) (pins view n p hs) w"
  by (rule wp_bindE_rule [OF assms(1)]) (auto simp: assms(2,3) pins_def)

lemma pins_next:
  assumes "wp m (pins view n p Basic_BNFs.setr) w" "\<And>e. hs (Inl e) = {}"
    and "\<And>g w1. pinned view n p w1 \<Longrightarrow> points n p g \<Longrightarrow> wp (f g) (pins view n p hs) w1"
  shows "wp (bindE m f) (pins view n p hs) w"
  by (rule pins_bindE [OF assms(1)]) (simp_all add: assms(2,3))

lemma pinned_touches: "only_touches view (- {n}) w w' \<Longrightarrow> pinned view n p w \<Longrightarrow> pinned view n p w'"
  by (simp add: only_touches_def pinned_def)

lemma pins_elsewhere:
  "pinned view n p w \<Longrightarrow> wp m (\<lambda>_. only_touches view (- {n}) w) w \<Longrightarrow> wp m (pins view n p (\<lambda>_. {})) w"
  by (erule wp_mono) (simp add: pins_def pinned_touches)

lemma pinned_restatused:
  assumes "restatused view (OGitOpsCluster g) w w'" "pinned view (gref g) p w"
  shows "pinned view (gref g) p w'"
proof -
  from assms(1) obtain old y where y: "view w (gref g) = Some old" "same_content (put_status old (OGitOpsCluster g)) y"
    "view w' = (view w)(gref g := Some y)" by (auto simp: restatused_def simp del: ref_of_simps)
  from assms(2) y(1) obtain g0 where "old = OGitOpsCluster g0" "PlacementRefName (gc_spec g0) = p"
    unfolding pinned_def by blast
  with y(2,3) show ?thesis by (auto simp: pinned_def same_content_def simp del: ref_of_simps)
qed

section \<open>The steps before the placement\<close>

lemma pins_write:
  assumes "atomic_api (r_client R) view" "points n p g" "pinned view n p w"
  shows "wp (write_conditions R g) (pins view n p this_one) w"
  unfolding write_conditions_def wp_bind
proof (rule atomic_api.wp_status_atomic [OF assms(1)], goal_cases)
  case (1 y w')
  have n: "gref g = n" using assms(2) by (simp add: points_def del: ref_of_simps)
  from pinned_restatused [OF 1(1), of p] assms(3) have pin: "pinned view n p w'" by (simp add: n del: ref_of_simps)
  with 1(2) obtain g' where g': "y = OGitOpsCluster g'" "PlacementRefName (gc_spec g') = p"
    unfolding pinned_def n by blast
  have "gref g' = n" using kube_api.view_ref [OF atomic_api.axioms(1) [OF assms(1)] 1(2)] by (simp add: g'(1) n del: ref_of_simps)
  with g' pin show ?case by (simp add: wp_ret pins_def points_def del: ref_of_simps)
next
  case (2 e w')
  have n: "gref g = n" using assms(2) by (simp add: points_def del: ref_of_simps)
  from 2 assms(3) pinned_restatused [of view g w w' p] have "pinned view n p w'"
    unfolding n by (auto simp: pinned_def)
  with assms(2) show ?case by (simp add: wp_ret pins_def)
qed

lemma pins_add_condition:
  assumes "atomic_api (r_client R) view" "points n p g" "pinned view n p w"
  shows "wp (add_condition R g t s r m) (pins view n p this_one) w"
  unfolding add_condition_def wp_bind
  by (rule kube_api.wp_now_text [OF atomic_api.axioms(1) [OF assms(1)]])
    (use assms(2,3) in \<open>simp add: wp_ret pins_def points_def pinned_def\<close>)

lemma pins_setCondition:
  assumes "atomic_api (r_client R) view" "points n p g" "pinned view n p w"
  shows "wp (setCondition R g t s r m) (pins view n p this_one) w"
  unfolding setCondition_def
  by (rule pins_bind [OF pins_add_condition [OF assms]]) (simp add: pins_write [OF assms(1)])

lemma pins_add_missing:
  assumes "atomic_api (r_client R) view" "points n p g" "pinned view n p w"
  shows "wp (add_missing_conditions R ts (g, b)) (pins view n p (\<lambda>x. {fst x})) w"
  using assms(2,3)
proof (induction ts arbitrary: g b w)
  case Nil
  then show ?case by (simp add: pins_ret)
next
  case (Cons t ts)
  show ?case
    unfolding add_missing_conditions.simps
    using Cons by (auto intro!: pins_bind [OF pins_add_condition [OF assms(1)]])
qed

lemma pins_initialize:
  assumes "atomic_api (r_client R) view" "points n p g" "pinned view n p w"
  shows "wp (initializeConditions R g) (pins view n p this_one) w"
  unfolding initializeConditions_def
  by (rule pins_bind [OF pins_add_missing [OF assms]]) (auto intro: pins_write [OF assms(1)] pins_ret)

lemma pins_require:
  assumes "atomic_api (r_client R) view" "points n p g" "pinned view n p w"
    and "\<And>w1. wp m (\<lambda>_. only_touches view (- {n}) w1) w1"
  shows "wp (require R g t reason failed succeeded m) (pins view n p Basic_BNFs.setr) w"
  unfolding require_def
proof (rule pins_bind [OF pins_elsewhere [OF assms(3,4)]])
  fix r :: "unit result" and w1 assume "pinned view n p w1"
  then show "wp (case r of
        Inl e \<Rightarrow> setCondition R g t CondFalse reason (failed @ '': '' @ error_text e) \<bind> (\<lambda>_. ret (Inl e))
      | Inr _ \<Rightarrow> setCondition R g t CondTrue ReasonSuccess succeeded \<bind> (\<lambda>g. ret (Inr g)))
      (pins view n p Basic_BNFs.setr) w1"
    by (cases r) (auto intro!: pins_bind [OF pins_setCondition [OF assms(1,2)]] pins_ret)
qed

section \<open>Discovery of the server\<close>

lemma points_server: "points n p g \<Longrightarrow> points n p (set_server a q g)"
  by (simp add: points_def set_server_def)

lemma points_discovery:
  assumes "points n p g"
  shows "wp (EnsureServerAddressAndPort C g ns) (\<lambda>r _. \<forall>x \<in> Basic_BNFs.setr r. points n p (snd x)) w"
  unfolding EnsureServerAddressAndPort_def
  using assms points_server [OF assms] by (auto simp: wp_simps split: sum.splits prod.splits intro!: wp_mono [OF wp_True])

lemma pins_report_server:
  assumes "atomic_api (r_client R) view" "points n p g" "pinned view n p w"
  shows "wp (report_server R g) (pins view n p third) w"
  unfolding report_server_def Let_def
  by (auto intro!: pins_bind [OF pins_setCondition [OF assms]] pins_ret)

lemma pinned_updated:
  assumes "updated view (OGitOpsCluster g) w w'" "points n p g"
  shows "pinned view n p w'"
proof -
  have n: "ref_of (OGitOpsCluster g) = n" "PlacementRefName (gc_spec g) = p" using assms(2) by (simp_all add: points_def)
  from assms(1) obtain old y where y: "same_content (keep_status old (OGitOpsCluster g)) y"
    "view w' n = Some y \<or> view w' n = None" unfolding updated_def n(1) by auto
  from y(1) n(2) have "\<exists>g'. y = OGitOpsCluster g' \<and> PlacementRefName (gc_spec g') = p"
    by (cases old) (auto simp: same_content_def)
  with y(2) show ?thesis by (auto simp: pinned_def)
qed

lemma pins_update:
  assumes "atomic_api (r_client R) view" "points n p g" "pinned view n p w"
  shows "wp (update_as as_gitops (r_client R) (OGitOpsCluster g)) (pins view n p Basic_BNFs.setr) w"
  unfolding update_as_def wp_bindE
proof (rule wpI)
  fix a w' assume run: "run_state (c_update (r_client R) (OGitOpsCluster g)) w = (a, w')"
  have n: "ref_of (OGitOpsCluster g) = n" "PlacementRefName (gc_spec g) = p" using assms(2) by (simp_all add: points_def)
  have pin: "pinned view n p w'"
    using atomic_api.update_atomic [OF assms(1) run]
  proof
    assume "view w' = view w"
    with assms(3) show ?thesis by (simp add: pinned_def)
  qed (rule pinned_updated [OF _ assms(2)])
  have reply: "\<exists>g'. y = OGitOpsCluster g' \<and> points n p g'" if a: "a = Inr y" for y
  proof -
    from kube_api.update_ok [OF atomic_api.axioms(1) [OF assms(1)] run [unfolded a]] obtain old
      where y: "same_content (keep_status old (OGitOpsCluster g)) y" by auto
    then obtain g' where g': "y = OGitOpsCluster g'" "PlacementRefName (gc_spec g') = p"
      using n(2) by (cases old) (auto simp: same_content_def)
    have "gref g' = n" using same_content_ref [of "keep_status old (OGitOpsCluster g)" y] y n(1) g'(1) by (simp del: ref_of_simps)
    with g' show ?thesis by (simp add: points_def del: ref_of_simps)
  qed
  show "case a of Inl e \<Rightarrow> pins view n p Basic_BNFs.setr (Inl e) w'
    | Inr y \<Rightarrow> wp (case as_gitops y of None \<Rightarrow> ret (Inl (Plain ''cannot decode the reply'')) | Some z \<Rightarrow> ret (Inr z))
        (pins view n p Basic_BNFs.setr) w'"
    using pin reply by (cases a) (auto simp: pins_def wp_ret)
qed

lemma pins_discover_server:
  assumes "atomic_api (r_client R) view" "points n p g" "pinned view n p w" "ref_kind n = KGitOpsCluster"
  shows "wp (discover_server R ns g) (pins view n p third) w"
  unfolding discover_server_def
proof (rule pins_bind [where gs = "\<lambda>r. snd ` Basic_BNFs.setr r"])
  have quiet: "wp (EnsureServerAddressAndPort (r_client R) g ns) (\<lambda>_. only_touches view (- {n}) w) w"
    by (rule kube_api.touches_discover [OF atomic_api.axioms(1) [OF assms(1)]])
  from wp_conj [OF pins_elsewhere [OF assms(3) quiet] points_discovery [OF assms(2), of "r_client R" ns w]]
  show "wp (EnsureServerAddressAndPort (r_client R) g ns) (pins view n p (\<lambda>r. snd ` Basic_BNFs.setr r)) w"
    by (rule wp_mono) (simp add: pins_def)
next
  fix r :: "(bool \<times> gitops_cluster) result" and w1
  assume pin: "pinned view n p w1" and r: "\<forall>g \<in> snd ` Basic_BNFs.setr r. points n p g"
  have save: "wp (save_discovered R b g) (pins view n p Basic_BNFs.setr) w1" if "points n p g" for b g
    unfolding save_discovered_def wp_if wp_wrapE
    using pin that by (auto simp: wp_ret pins_def wrap_result_def split: sum.splits intro!: wp_mono [OF pins_update [OF assms(1) that pin]])
  show "wp (case r of
        Inl e \<Rightarrow> setCondition R g ConditionServerDiscovered CondFalse ReasonServerNotDiscovered
            (''Server discovery failed: '' @ error_text e) \<bind> (\<lambda>_. ret (Inl e))
      | Inr (specUpdated, g) \<Rightarrow> bindE (save_discovered R specUpdated g) (report_server R)) (pins view n p third) w1"
  proof (cases r)
    case (Inl e)
    then show ?thesis by (auto intro!: pins_bind [OF pins_setCondition [OF assms(1,2) pin]] pins_ret)
  next
    case (Inr x)
    with r have "points n p (snd x)" by simp
    then show ?thesis unfolding Inr sum.case case_prod_beta
      by (intro pins_next [OF save] pins_report_server [OF assms(1)]) simp_all
  qed
qed

section \<open>The preparation of the hub\<close>

lemma pins_prepare_hub:
  assumes "atomic_api (r_client R) view" "cert_rotation (r_certs R) view" "points n p g" "pinned view n p w" "ref_kind n = KGitOpsCluster"
  shows "wp (prepare_hub R ns g) (pins view n p third) w"
proof -
  note api = atomic_api.axioms(1) [OF assms(1)]
  have out: "q \<in> - {n}" if "ref_kind q \<noteq> KGitOpsCluster" for q using that assms(5) by auto
  have certs: "certificate_objects ns \<subseteq> - {n}" "certificate_objects ns \<union> principal_deployments ns \<subseteq> - {n}"
    using assms(5) by (auto simp: certificate_objects_def)
  note step = pins_require [OF assms(1)]
  have rbac: "wp (ensure_rbac R ns g) (pins view n p Basic_BNFs.setr) w1" if "points n p g" "pinned view n p w1" for g w1
    unfolding ensure_rbac_def by (intro step that kube_api.touches_rbac [OF api] out) simp_all
  have keys: "wp (ensure_keys R ns a g) (pins view n p Basic_BNFs.setr) w1" if "points n p g" "pinned view n p w1" for a g w1
    unfolding ensure_keys_def
    by (intro pins_next step kube_api.touches_jwt [OF api] touches_ca [OF assms(2)] touches_principal [OF api assms(2)]
        touches_resource_proxy [OF api assms(2)] that certs out) simp_all
  have template: "wp (ensure_template R g) (pins view n p Basic_BNFs.setr) w1" if "points n p g" "pinned view n p w1" for g w1
    unfolding ensure_template_def
    by (intro step that kube_api.touches_template [OF api] out) (simp add: template_ref_def)
  show ?thesis
    unfolding prepare_hub_def case_prod_beta
    by (intro pins_next [OF rbac] pins_bindE [OF pins_discover_server [OF assms(1) _ _ assms(5)]] pins_next [OF keys]
        pins_next [OF template] pins_ret assms(3,4)) simp_all
qed

lemma names_own_placement:
  assumes "atomic_api (r_client R) view" "cert_rotation (r_certs R) view"
    and "view w (Ref KGitOpsCluster ns name) = Some (OGitOpsCluster g)" "view w1 = view w"
  shows "wp (preparation R g) (\<lambda>r _. names_placement (\<lambda>p. p = PlacementRefName (gc_spec g)) r) w1"
proof -
  let ?n = "Ref KGitOpsCluster ns name" and ?p = "PlacementRefName (gc_spec g)"
  have "gref g = ?n" by (rule kube_api.view_ref [OF atomic_api.axioms(1) [OF assms(1)] assms(3)])
  then have g: "points ?n ?p g" by (simp add: points_def)
  have pin: "pinned view ?n ?p w1" using assms(3,4) by (simp add: pinned_def)
  have "wp (preparation R g) (pins view ?n ?p third) w1"
    by (rule pins_bind [OF pins_initialize [OF assms(1) g pin]], rule pins_prepare_hub [OF assms(1,2)]) simp_all
  then show ?thesis by (rule wp_mono) (simp add: pins_def points_def names_placement_def)
qed

section \<open>Properties\<close>

text \<open>The name of the Placement a stored GitOpsCluster refers to.\<close>

definition own_placement :: "('w \<Rightarrow> objref \<Rightarrow> kobj option) \<Rightarrow> 'w \<Rightarrow> string \<Rightarrow> string \<Rightarrow> string \<Rightarrow> bool" where
  "own_placement view w ns name p =
     (\<exists>g. view w (Ref KGitOpsCluster ns name) = Some (OGitOpsCluster g) \<and> p = PlacementRefName (gc_spec g))"

text \<open>
  C4: A run of the reconciler, whatever fails in it, writes nothing but the objects of the hub
  that belong to its GitOpsCluster, the one Placement this GitOpsCluster refers to when the run
  begins, and the objects of the managed clusters that a PlacementDecision of this Placement
  selects or that have an addon labelled as made by this controller; other Placements of the
  namespace stay as they are. A request that returns an error is taken to have been carried out in
  full or not at all.
\<close>

theorem run_writes_own_objects:
  assumes "atomic_api (r_client R) view" and "cert_rotation (r_certs R) view" and "secret_lister (r_x509 R) view"
    and "run_state (reconcile_gitops R ns name) w = (r, w')"
    and "q \<notin> hub_objects ns name" and "\<not> (\<exists>p. own_placement view w ns name p \<and> q = Ref KPlacement ns p)"
    and "\<forall>c \<in> decided view w ns (own_placement view w ns name) \<union> served view w. q \<notin> cluster_objects R ns name c"
  shows "view w' q = view w q"
proof -
  let ?P = "own_placement view w ns name"
  have "wp (preparation R g) (\<lambda>r _. names_placement ?P r) w1"
    if "view w (Ref KGitOpsCluster ns name) = Some (OGitOpsCluster g)" "view w1 = view w" for g w1
    by (rule wp_mono [OF names_own_placement [OF assms(1,2) that]]) (use that(1) in \<open>simp add: names_placement_def own_placement_def\<close>)
  note run = wp_run [OF wp_reconcile_gitops [OF atomic_api.axioms(1) [OF assms(1)] assms(2,3) this] assms(4)]
  have "q \<notin> placed_objects ns name ?P \<union> run_objects R ns name (decided view w ns ?P \<union> served view w)"
    using assms(5-7) by (auto simp: placed_objects_def run_objects_def hub_objects_def)
  with run show ?thesis by (simp add: run_post_def only_touches_def)
qed

text \<open>
  The run adds tolerations to the Placement it refers to, but not to the other Placement of its namespace; the address of the server
  is known, so the run gets there.
\<close>

definition example_known_gitops :: gitops_cluster where
  "example_known_gitops = set_server ''hub.example.com'' ''443'' example_run_gitops"

definition example_other_placement :: placement where
  "example_other_placement = \<lparr>pl_meta = new_meta ''other'' ''argocd'', pl_tolerations = []\<rparr>"

definition example_placed_world :: mem where
  "example_placed_world = mem_of [OGitOpsCluster example_known_gitops, OPlacement example_other_placement,
     OPlacement \<lparr>pl_meta = new_meta ''all'' ''argocd'', pl_tolerations = []\<rparr>, issued_secret ''argocd'' ArgoCDAgentCASecretName]"

theorem run_writes_own_objects_witness:
  "\<exists>p. mem_view (snd (run_state (reconcile_gitops mem_reconciler ''argocd'' ''gitops'') example_placed_world))
     (Ref KPlacement ''argocd'' ''other'') = Some (OPlacement p) \<and> pl_tolerations p = []"
proof -
  let ?run = "run_state (reconcile_gitops mem_reconciler ''argocd'' ''gitops'') example_placed_world"
  let ?q = "Ref KPlacement ''argocd'' ''other''"
  have atomic: "atomic_api (r_client mem_reconciler) mem_view" by (simp add: mem_reconciler_def mem_atomic_api)
  have hub: "?q \<notin> hub_objects ''argocd'' ''gitops''"
    by (auto simp: hub_objects_def certificate_objects_def)
  have "mem_view example_placed_world (Ref KGitOpsCluster ''argocd'' ''gitops'') = Some (OGitOpsCluster example_known_gitops)" by code_simp
  moreover have "PlacementRefName (gc_spec example_known_gitops) = ''all''" by code_simp
  ultimately have own: "\<not> (\<exists>p. own_placement mem_view example_placed_world ''argocd'' ''gitops'' p \<and> ?q = Ref KPlacement ''argocd'' p)"
    by (simp add: own_placement_def)
  have cl: "\<forall>c \<in> decided mem_view example_placed_world ''argocd'' (own_placement mem_view example_placed_world ''argocd'' ''gitops'') \<union>
      served mem_view example_placed_world. ?q \<notin> cluster_objects mem_reconciler ''argocd'' ''gitops'' c"
    by (auto simp: cluster_objects_def client_objects_def cluster_secret_ref_def)
  have "mem_view example_placed_world ?q = Some (OPlacement example_other_placement)" by code_simp
  with run_writes_own_objects [OF atomic, OF mem_reconciler_laws(2), OF mem_reconciler_laws(3), OF prod.collapse [symmetric],
      OF hub, OF own, OF cl]
  show ?thesis by (auto simp: example_other_placement_def)
qed

end
