(* ===== verification/Pull_Steps.thy ===== *)
theory Pull_Steps
  imports App_Controller App_Status Cluster_Controller Work_Cleanup Atomic_Api
begin

text \<open>
  The controllers of the basic pull model together: \<open>application_controller.go\<close>, \<open>application_status_controller.go\<close>,
  \<open>cluster_controller.go\<close> and \<open>manifestwork_cleanup_controller.go\<close> work on the same objects, in any order, next to
  users and the agents of the managed clusters. \<open>hub_step\<close> is one step of this system, and \<open>hub_run\<close> a sequence of steps; what the
  others may do is the relation \<open>rely\<close>. A run that is cut off anywhere is one whose remaining requests fail.
\<close>

section \<open>Objects that fade\<close>

text \<open>A run after which each object of \<open>S\<close> is as it was, or gone.\<close>

definition fades :: "('w \<Rightarrow> objref \<Rightarrow> kobj option) \<Rightarrow> objref set \<Rightarrow> 'w \<Rightarrow> 'w \<Rightarrow> bool" where
  "fades view S w w' = (\<forall>q \<in> S. view w' q = view w q \<or> gone view w' q)"

interpretation fading: run_frame "fades view S" for view :: "'w \<Rightarrow> objref \<Rightarrow> kobj option" and S
proof (unfold_locales, goal_cases)
  case (2 w w1 w2)
  show ?case
    unfolding fades_def
  proof
    fix q assume "q \<in> S"
    with 2 have "view w1 q = view w q \<or> gone view w1 q" "view w2 q = view w1 q \<or> gone view w2 q" by (simp_all add: fades_def)
    then show "view w2 q = view w q \<or> gone view w2 q" by (auto simp: gone_def)
  qed
qed (simp add: fades_def)

lemma fades_view: "view w' = view w \<Longrightarrow> fades view S w w'"
  by (simp add: fades_def)

lemma fades_touches: "only_touches view T w w' \<Longrightarrow> S \<inter> T = {} \<Longrightarrow> fades view S w w'"
  by (auto simp: fades_def only_touches_def)

lemma fades_live: "fades view S w w' \<Longrightarrow> q \<in> S \<Longrightarrow> view w' q = Some x \<Longrightarrow> \<not> terminating x \<Longrightarrow> view w q = Some x"
  by (fastforce simp: fades_def gone_def)

lemma fades_gone: "fades view S w w' \<Longrightarrow> q \<in> S \<Longrightarrow> gone view w q \<Longrightarrow> gone view w' q"
  by (auto simp: fades_def gone_def)

context atomic_api
begin

lemma fading_delete: "fading.within view S (c_delete C r)"
  by (rule fading.withinI, rule wpI, drule delete_atomic) (auto simp: fades_def deleted_def only_touches_def)

lemma fading_delete_obj: "fading.within view S (delete_obj C x)"
  unfolding delete_obj_def by (rule fading_delete)

lemma fading_fetch: "fading.within view S (fetch as_o C r)"
  by (rule fading.withinI, rule wp_fetch) (simp_all add: fades_view)

lemma fading_list: "fading.within view S (list_as as_o C k ns sel)"
  by (rule fading.withinI, rule wp_list_as) (simp_all add: fades_view)

lemma fading_update: "ref_of x \<notin> S \<Longrightarrow> fading.within view S (update C x)"
  by (rule fading.withinI, rule wp_mono [OF wp_touches_update [of x "{ref_of x}"]])
    (auto intro: fades_touches simp del: ref_of_simps)

lemma fading_delete_works: "fading.within view S (delete_works C ws)"
  by (induction ws) (auto intro!: fading.within_rules fading_delete_obj)

lemma fading_cleanup_works: "fading.within view S (cleanupManifestWorksForDeletedApplication C ns name)"
  unfolding cleanupManifestWorksForDeletedApplication_def Let_def
  by (intro fading.within_rules fading_list fading_delete_works)

lemma fading_check_work: "fading.within view S (check_work C work n)"
  unfolding check_work_def Let_def
  by (cases n) (auto intro!: fading.within_rules fading_fetch fading_delete_obj)

lemma fading_check_works: "fading.within view S (check_works C ws n)"
  by (induction ws arbitrary: n) (auto intro!: fading.within_rules fading_check_work)

lemma fading_cleanup: "fading.within view S (cleanup C)"
  unfolding cleanup_def by (intro fading.within_rules fading_list fading_check_works)

end

section \<open>What a run of the Application controller does\<close>

text \<open>The work that carries an Application to its cluster.\<close>

definition carried_by :: "unstructured \<Rightarrow> objref \<Rightarrow> bool" where
  "carried_by app W = (case generateManifestWorkName (m_name (u_meta app)) (m_uid (u_meta app)) of
     Inl _ \<Rightarrow> False
   | Inr mwName \<Rightarrow> W = Ref KManifestWork (mget (m_annotations (u_meta app)) AnnotationKeyOCMManagedCluster) mwName)"

definition work_for :: "unstructured \<Rightarrow> objref \<Rightarrow> manifest_work" where
  "work_for app W = generateManifestWork (ref_name W) (ref_ns W) app"

text \<open>A write of the work: the wanted content, and no deletion mark when there was none.\<close>

definition delivered :: "unstructured \<Rightarrow> objref \<Rightarrow> kobj option \<Rightarrow> kobj option \<Rightarrow> bool" where
  "delivered app W old new = ((\<forall>y. new = Some y \<longrightarrow> (\<exists>mw. y = OManifestWork mw \<and> delivers (work_for app W) mw)) \<and>
     ((\<forall>x. old = Some x \<longrightarrow> \<not> terminating x) \<longrightarrow> (\<exists>y. new = Some y \<and> \<not> terminating y)))"

definition app_effect :: "('w \<Rightarrow> objref \<Rightarrow> kobj option) \<Rightarrow> string \<Rightarrow> string \<Rightarrow> 'w \<Rightarrow> 'w \<Rightarrow> bool" where
  "app_effect view ns name w w' = (view w' = view w \<or>
     (view w (Ref application_gvk ns name) = None \<and> fades view UNIV w w' \<and>
        (\<forall>q. view w' q \<noteq> view w q \<longrightarrow> (\<exists>work. view w q = Some (OManifestWork work) \<and> work_belongs_to ns name work))) \<or>
     (\<exists>app W. view w (Ref application_gvk ns name) = Some (OUnstr app) \<and> carried_by app W \<and>
        only_touches view {W, Ref application_gvk ns name} w w' \<and>
        (if m_deletion (u_meta app) \<noteq> None
         then fades view {W} w w' \<and> (view w' (Ref application_gvk ns name) = view w (Ref application_gvk ns name) \<or> gone view w' W)
         else view w' W = view w W \<or> delivered app W (view w W) (view w' W))))"


context atomic_api
begin

lemma fading_update_as: "ref_of x \<notin> S \<Longrightarrow> fading.within view S (update_as as_o C x)"
  by (rule fading.withinI, rule wp_mono [OF wp_touches_update_as [of x "{ref_of x}"]])
    (auto intro: fades_touches simp del: ref_of_simps)

lemma app_is_no_work: "ref_of (OUnstr app) \<notin> {Ref KManifestWork c n}"
  by simp

lemma fading_reconcile_deleted: "fading.within view {Ref KManifestWork c n} (reconcile_deleted C app cluster mwName)"
  unfolding reconcile_deleted_def delete_work_and_commit_def Let_def
  by (intro fading.within_rules fading_fetch fading_update_as fading_update fading_delete app_is_no_work)

lemma wp_deliver:
  fixes c n :: string
  defines "W \<equiv> Ref KManifestWork c n"
  shows "wp (create_or_update_work C (work_for app W)) (\<lambda>_ w'. only_touches view {W} w w' \<and>
     (view w' W = view w W \<or> delivered app W (view w W) (view w' W))) w"
proof -
  let ?M = "work_for app W"
  let ?Q = "\<lambda>w'. only_touches view {W} w w' \<and> (view w' W = view w W \<or> delivered app W (view w W) (view w' W))"
  have ref: "ref_of (OManifestWork ?M) = W" "m_deletion (mw_meta ?M) = None"
    by (simp_all add: W_def work_for_def new_meta_def)
  have same: "?Q w1" if "view w1 = view w" for w1
    using that by (simp add: only_touches_view)
  show ?thesis
    unfolding create_or_update_work_def wp_bind ref(1)
  proof (rule wp_fetch, goal_cases)
    case (1 x mw w1)
    let ?mw = "mw\<lparr>mw_spec := mw_spec ?M, mw_meta := (mw_meta mw)\<lparr>m_annotations := m_annotations (mw_meta ?M), m_labels := m_labels (mw_meta ?M)\<rparr>\<rparr>"
    from 1 have x: "x = OManifestWork mw" "ref_of (OManifestWork ?mw) = W" by (auto simp: W_def)
    have new: "delivered app W (view w W) z" if "z = (if m_deletion (mw_meta mw) \<noteq> None \<and> m_finalizers (mw_meta mw) = [] then None else Some y)"
      "same_content (keep_status old (OManifestWork ?mw)) y" "view w W = Some old" for y old z
      using that 1(2) x(1)
      by (auto simp: delivered_def delivers_def same_content_def terminating_def)
    have "?Q w2" if "view w2 = view w1 \<or> updated view (OManifestWork ?mw) w1 w2" for w2
      using that same new 1(1) x(2)
      by (auto simp: updated_def only_touches_def simp del: ref_of_simps keep_status.simps)
    then show ?case unfolding sum.case
      by (intro wp_mono [OF wp_update_atomic])
  next
    case (2 e w1)
    have new: "delivered app W (view w W) (Some y)" if "same_content (OManifestWork ?M) y" for y
      using that ref(2) by (auto simp: delivered_def delivers_def same_content_def terminating_def)
    have "?Q w2" if "view w2 = view w1 \<or> created view (OManifestWork ?M) w1 w2" for w2
      using that same new 2(1) ref(1)
      by (auto simp: created_def only_touches_def simp del: ref_of_simps)
    then have "wp (create C (OManifestWork ?M)) (\<lambda>_. ?Q) w1"
      by (intro wp_mono [OF wp_create_atomic])
    with same [OF 2(1)] show ?case by (simp add: wp_ret)
  qed
qed

lemma wp_live_effect:
  fixes c n :: string
  assumes "ref_of (OUnstr app) = A"
  defines "W \<equiv> Ref KManifestWork c n"
  shows "wp (reconcile_live C app c n) (\<lambda>_ w'. only_touches view {W, A} w w' \<and>
     (view w' W = view w W \<or> delivered app W (view w W) (view w' W))) w"
proof -
  let ?Q = "\<lambda>w w'. only_touches view {W, A} w w' \<and> (view w' W = view w W \<or> delivered app W (view w W) (view w' W))"
  have M: "generateManifestWork n c app = work_for app W" by (simp add: work_for_def W_def)
  have op: "wp (remove_operation C app) (\<lambda>_. only_touches view {A} w1) w1" for w1
    unfolding remove_operation_def by (intro touches) (use assms(1) in simp)
  have AW: "A \<noteq> W" using assms(1) by (auto simp: W_def)
  have work: "wp (bindE (create_or_update_work C (work_for app W)) (\<lambda>_. remove_operation C app)) (\<lambda>_. ?Q w) w1" if "view w1 = view w" for w1
    by (rule wp_bindE_rule [OF wp_deliver [where c = c and n = n, folded W_def]])
      (use AW that in \<open>auto simp: only_touches_def intro!: wp_mono [OF op]\<close>)
  then show ?thesis
    unfolding reconcile_live_def M wp_bindE [of "fetch _ _ _"]
    by (intro wp_fetch) (simp_all add: only_touches_view work)
qed

lemma wp_application_effect: "wp (reconcile_application C ns name) (\<lambda>_. app_effect view ns name w) w"
proof -
  let ?A = "Ref application_gvk ns name"
  have quiet: "app_effect view ns name w w1" if "view w1 = view w" for w1
    using that by (simp add: app_effect_def)
  show ?thesis
  proof (cases "view w ?A")
    case None
    have "wp (cleanupManifestWorksForDeletedApplication C ns name) (\<lambda>_. app_effect view ns name w) w1" if w1: "view w1 = view w" for w1
    proof (rule wp_mono [OF wp_conj [OF wp_cleanup_works fading.within_wp [OF fading_cleanup_works]]], elim conjE)
      fix r :: "unit result" and w2
      assume frame: "\<forall>q. (\<nexists>work. view w1 q = Some (OManifestWork work) \<and> mget (m_labels (mw_meta work)) LabelKeyPull = ''true'' \<and>
              work_belongs_to ns name work) \<longrightarrow> view w2 q = view w1 q" and f: "fades view UNIV w1 w2"
      have "\<exists>work. view w q = Some (OManifestWork work) \<and> work_belongs_to ns name work" if "view w2 q \<noteq> view w q" for q
        using frame [rule_format, of q] that w1 by fastforce
      moreover have "fades view UNIV w w2" using f w1 by (simp add: fades_def)
      ultimately show "app_effect view ns name w w2" using None unfolding app_effect_def by blast
    qed
    then show ?thesis by (intro wp_reconcile_absent [OF None]) (auto intro: quiet)
  next
    case (Some x)
    then obtain app where app: "view w ?A = Some (OUnstr app)" and ref: "ref_of (OUnstr app) = ?A"
      using view_ref [OF Some] by (cases x) (auto simp: application_gvk_def)
    show ?thesis
    proof (cases "generateManifestWorkName name (m_uid (u_meta app))")
      case (Inl p)
      then show ?thesis
        unfolding reconcile_application_def wp_bind using app ref
        by (intro wp_fetch) (auto simp: wp_simps app_effect_def)
    next
      case (Inr mwName)
      define W where "W = Ref KManifestWork (mget (m_annotations (u_meta app)) AnnotationKeyOCMManagedCluster) mwName"
      have by_W: "carried_by app W" using Inr ref by (simp add: carried_by_def W_def)
      show ?thesis
      proof (rule wp_reconcile_found [OF app Inr])
        fix w1 assume w1: "view w1 = view w"
        show "wp (if m_deletion (u_meta app) \<noteq> None
          then reconcile_deleted C app (mget (m_annotations (u_meta app)) AnnotationKeyOCMManagedCluster) mwName
          else reconcile_live C app (mget (m_annotations (u_meta app)) AnnotationKeyOCMManagedCluster) mwName)
          (\<lambda>_. app_effect view ns name w) w1"
        proof (cases "m_deletion (u_meta app) \<noteq> None")
          case True
          have app1: "view w1 ?A = Some (OUnstr app)" using app w1 by simp
          note effect = wp_conj [OF wp_reconcile_deleted [OF app1 True, where cluster = "mget (m_annotations (u_meta app)) AnnotationKeyOCMManagedCluster"
                and mwName = mwName, folded W_def]
              fading.within_wp [OF fading_reconcile_deleted [where c = "mget (m_annotations (u_meta app)) AnnotationKeyOCMManagedCluster"
                and n = mwName, folded W_def]]]
          have "app_effect view ns name w w2"
            if "\<forall>q. q \<noteq> W \<and> q \<noteq> ?A \<longrightarrow> view w2 q = view w1 q" "view w2 ?A \<noteq> view w1 ?A \<longrightarrow> gone view w2 W" "fades view {W} w1 w2" for w2
            unfolding app_effect_def using that app by_W True w1
            by (intro disjI2 exI [of _ app] exI [of _ W]) (auto simp: only_touches_def fades_def)
          then show ?thesis
            unfolding if_P [OF True] by (intro wp_mono [OF effect]) simp
        next
          case False
          have "app_effect view ns name w w2"
            if "only_touches view {W, ?A} w1 w2" "view w2 W = view w1 W \<or> delivered app W (view w1 W) (view w2 W)" for w2
            unfolding app_effect_def using that app by_W False w1
            by (intro disjI2 exI [of _ app] exI [of _ W]) (auto simp: only_touches_def)
          then show ?thesis
            unfolding if_not_P [OF False]
            by (intro wp_mono [OF wp_live_effect [OF ref, where c = "mget (m_annotations (u_meta app)) AnnotationKeyOCMManagedCluster"
                and n = mwName, folded W_def]]) simp
        qed
      qed (rule quiet)
    qed
  qed
qed

end


section \<open>What a run of the other controllers does\<close>

text \<open>An Application with another content, perhaps, but the same name, uid, deletion mark, finalizers and annotations.\<close>

definition same_identity :: "unstructured \<Rightarrow> unstructured \<Rightarrow> bool" where
  "same_identity a b = (ref_of (OUnstr b) = ref_of (OUnstr a) \<and> m_uid (u_meta b) = m_uid (u_meta a) \<and>
     m_deletion (u_meta b) = m_deletion (u_meta a) \<and> m_finalizers (u_meta b) = m_finalizers (u_meta a) \<and>
     m_annotations (u_meta b) = m_annotations (u_meta a))"

lemma same_identity_refl [simp]: "same_identity a a"
  by (simp add: same_identity_def)

lemma same_identity_trans: "same_identity a b \<Longrightarrow> same_identity b c \<Longrightarrow> same_identity a c"
  by (simp add: same_identity_def)

lemma same_identity_fields: "same_identity a (a\<lparr>u_fields := m\<rparr>)"
  by (simp add: same_identity_def)

lemma same_identity_carried: "same_identity a b \<Longrightarrow> carried_by b W = carried_by a W"
  by (simp add: same_identity_def carried_by_def split: sum.split)

text \<open>A write of the Application under \<open>q\<close> that keeps its identity; the last write of one without finalizers takes it away.\<close>

definition app_write :: "objref \<Rightarrow> (objref \<Rightarrow> kobj option) \<Rightarrow> (objref \<Rightarrow> kobj option) \<Rightarrow> bool" where
  "app_write q v v' = (v' = v \<or> (\<exists>old z. v q = Some (OUnstr old) \<and> v' = v(q := z) \<and>
     (case z of None \<Rightarrow> m_deletion (u_meta old) \<noteq> None \<and> m_finalizers (u_meta old) = []
      | Some x \<Rightarrow> \<exists>new. x = OUnstr new \<and> same_identity old new)))"

definition knows_app :: "unstructured \<Rightarrow> (objref \<Rightarrow> kobj option) \<Rightarrow> bool" where
  "knows_app app v = (\<forall>x. v (ref_of (OUnstr app)) = Some x \<longrightarrow> (\<exists>old. x = OUnstr old \<and> same_identity old app))"

lemma app_write_trans: "app_write q v v1 \<Longrightarrow> app_write q v1 v2 \<Longrightarrow> app_write q v v2"
proof (cases "v1 = v")
  case False
  assume "app_write q v v1" and w2: "app_write q v1 v2"
  with False obtain old z where z: "v q = Some (OUnstr old)" "v1 = v(q := z)"
    "case z of None \<Rightarrow> m_deletion (u_meta old) \<noteq> None \<and> m_finalizers (u_meta old) = []
      | Some x \<Rightarrow> \<exists>new. x = OUnstr new \<and> same_identity old new"
    unfolding app_write_def by blast
  show "app_write q v v2"
  proof (cases "v2 = v1")
    case True
    then show ?thesis using z unfolding app_write_def by blast
  next
    case False
    with w2 obtain old1 z1 where z1: "v1 q = Some (OUnstr old1)" "v2 = v1(q := z1)"
      "case z1 of None \<Rightarrow> m_deletion (u_meta old1) \<noteq> None \<and> m_finalizers (u_meta old1) = []
        | Some x \<Rightarrow> \<exists>new. x = OUnstr new \<and> same_identity old1 new"
      unfolding app_write_def by blast
    have same: "same_identity old old1" using z z1(1) by auto
    have "v2 = v(q := z1)" using z(2) z1(2) by simp
    with z(1) z1(3) same show ?thesis
      unfolding app_write_def same_identity_def by (intro disjI2) (auto split: option.splits simp del: ref_of_simps)
  qed
qed simp

lemma knows_app_write:
  assumes "knows_app app v" "app_write (ref_of (OUnstr app)) v v'" "same_identity app app'"
  shows "knows_app app' v'"
proof -
  have ref: "ref_of (OUnstr app') = ref_of (OUnstr app)" using assms(3) by (simp add: same_identity_def)
  have old: "\<exists>b. x = OUnstr b \<and> same_identity b app'" if "v (ref_of (OUnstr app)) = Some x" for x
    using that assms(1,3) by (auto simp: knows_app_def intro: same_identity_trans)
  show ?thesis
  proof (cases "v' = v")
    case True
    then show ?thesis using old by (simp add: knows_app_def ref del: ref_of_simps)
  next
    case False
    then obtain b z where b: "v (ref_of (OUnstr app)) = Some (OUnstr b)" "v' = v(ref_of (OUnstr app) := z)"
      and z: "\<And>x. z = Some x \<Longrightarrow> \<exists>new. x = OUnstr new \<and> same_identity b new"
      using assms(2) unfolding app_write_def by (auto split: option.splits)
    have "same_identity b app'" using old [OF b(1)] by auto
    then show ?thesis using z by (auto simp: knows_app_def ref b(2) same_identity_def simp del: ref_of_simps)
  qed
qed

lemma set_app_fields_identity: "set_app_fields sn vs app = Inr app' \<Longrightarrow> same_identity app app'"
  by (auto simp: set_app_fields_Inr same_identity_def)

context atomic_api
begin

lemma wp_update_app:
  assumes "knows_app app (view w)"
  shows "wp (update_as as_unstr C (OUnstr app)) (\<lambda>r w'. app_write (ref_of (OUnstr app)) (view w) (view w') \<and>
     (\<forall>app'. r = Inr app' \<longrightarrow> ref_of (OUnstr app') = ref_of (OUnstr app) \<and> knows_app app' (view w')) \<and>
     ((\<exists>e. r = Inl e \<and> is_conflict e) \<longrightarrow> view w' = view w)) w"
  unfolding update_as_def wp_bindE
proof (rule wpI)
  let ?q = "ref_of (OUnstr app)"
  fix a w' assume run: "run_state (c_update C (OUnstr app)) w = (a, w')"
  have wrote: "app_write ?q (view w) (view w')"
  proof (cases "view w' = view w")
    case False
    with update_atomic [OF run] obtain old y where y: "view w ?q = Some old" "same_content (keep_status old (OUnstr app)) y"
      "view w' = (view w)(?q := if m_deletion (u_meta app) \<noteq> None \<and> m_finalizers (u_meta app) = [] then None else Some y)"
      by (auto simp: updated_def)
    from assms y(1) obtain o' where o': "old = OUnstr o'" "same_identity o' app" by (auto simp: knows_app_def)
    have uid: "m_uid (meta_of y) = m_uid (u_meta o')" if "view w' ?q = Some y"
      using update_uid [OF run y(1) _ that] o' by (simp add: same_identity_def)
    have new: "\<exists>new. y = OUnstr new \<and> same_identity o' new" if "m_uid (meta_of y) = m_uid (u_meta o')"
      using y(2) o' that by (auto simp: same_content_def same_identity_def)
    show ?thesis
      unfolding app_write_def
      by (rule disjI2, rule exI [of _ o'], rule exI [of _ "view w' ?q"])
        (use y(1,3) o' uid new in \<open>auto simp: same_identity_def split: option.split if_splits\<close>)
  qed (simp add: app_write_def)
  have reply: "\<exists>new. y = OUnstr new \<and> ref_of (OUnstr new) = ?q \<and> knows_app new (view w')" if a: "a = Inr y" for y
  proof -
    from update_ok [OF run [unfolded a]] obtain old where y: "same_content (keep_status old (OUnstr app)) y"
      "view w' = (view w)(?q := if m_deletion (u_meta app) \<noteq> None \<and> m_finalizers (u_meta app) = [] then None else Some y)"
      by auto
    from y(1) obtain new where new: "y = OUnstr new" "ref_of (OUnstr new) = ?q" by (auto simp: same_content_def)
    have "knows_app new (view w')" by (simp add: knows_app_def y(2) new del: ref_of_simps)
    with new show ?thesis by blast
  qed
  show "case a of Inl e \<Rightarrow> app_write ?q (view w) (view w') \<and>
        (\<forall>app'. Inl e = Inr app' \<longrightarrow> ref_of (OUnstr app') = ?q \<and> knows_app app' (view w')) \<and>
        ((\<exists>e'. Inl e = Inl e' \<and> is_conflict e') \<longrightarrow> view w' = view w)
    | Inr y \<Rightarrow> wp (case as_unstr y of None \<Rightarrow> ret (Inl (Plain ''cannot decode the reply'')) | Some z \<Rightarrow> ret (Inr z))
        (\<lambda>r w'. app_write ?q (view w) (view w') \<and> (\<forall>app'. r = Inr app' \<longrightarrow> ref_of (OUnstr app') = ?q \<and> knows_app app' (view w')) \<and>
          ((\<exists>e. r = Inl e \<and> is_conflict e) \<longrightarrow> view w' = view w)) w'"
  proof (cases a)
    case (Inl e)
    with wrote run update_err [of "OUnstr app" w e w'] show ?thesis by auto
  next
    case (Inr y)
    from reply [OF Inr] wrote show ?thesis by (auto simp: Inr wp_ret simp del: ref_of_simps)
  qed
qed

lemma wp_retry_app:
  assumes "retrying retry view" "knows_app app (view w)"
  shows "wp (retry_update retry C app) (\<lambda>r w'. app_write (ref_of (OUnstr app)) (view w) (view w') \<and>
     (\<forall>app'. r = Inr app' \<longrightarrow> ref_of (OUnstr app') = ref_of (OUnstr app) \<and> knows_app app' (view w'))) w"
  unfolding retry_update_def
proof (rule retrying.wp_retry [OF assms(1)])
  fix w1 assume v: "view w1 = view w"
  from wp_update_app [of app w1] assms(2)
  show "wp (update_as as_unstr C (OUnstr app)) (\<lambda>r w'.
     (app_write (ref_of (OUnstr app)) (view w) (view w') \<and>
      (\<forall>app'. r = Inr app' \<longrightarrow> ref_of (OUnstr app') = ref_of (OUnstr app) \<and> knows_app app' (view w'))) \<and>
     ((\<exists>e. r = Inl e \<and> is_conflict e) \<longrightarrow> view w' = view w)) w1"
    unfolding v by (simp add: conj_assoc del: ref_of_simps)
qed

lemma wp_write_status_app:
  assumes "retrying retry view" "knows_app app (view w)" "ref_of (OUnstr app) = q"
  shows "wp (write_status sn retry C fb app) (\<lambda>_ w'. app_write q (view w) (view w')) w"
proof -
  have set: "knows_app app' v \<and> ref_of (OUnstr app') = q"
    if "set_app_fields sn vs a = Inr app'" "knows_app a v" "ref_of (OUnstr a) = q" for vs a app' v
    using knows_app_write [OF that(2) _ set_app_fields_identity [OF that(1)], of v] set_app_fields_identity [OF that(1)] that(3)
    by (simp add: app_write_def same_identity_def)
  have sim: "wp (simulate_progressing sn retry C fb app) (\<lambda>r w'. app_write q (view w) (view w') \<and>
      (\<forall>app'. r = Inr app' \<longrightarrow> ref_of (OUnstr app') = q \<and> knows_app app' (view w'))) w"
  proof (cases "healthStatus fb = ''Healthy''")
    case True
    show ?thesis
    proof (cases "set_app_fields sn [(JStr ''Progressing'', [''status'', ''health'', ''status''])] app")
      case (Inl e)
      with True show ?thesis by (simp add: simulate_progressing_def wp_simps app_write_def)
    next
      case (Inr app1)
      from set [OF Inr assms(2,3)] have app1: "knows_app app1 (view w)" "ref_of (OUnstr app1) = q" by auto
      from wp_retry_app [OF assms(1) app1(1)] True show ?thesis
        by (simp add: simulate_progressing_def wp_simps Inr app1(2) del: ref_of_simps)
    qed
  next
    case False
    with assms(2,3) show ?thesis by (simp add: simulate_progressing_def wp_simps app_write_def del: ref_of_simps)
  qed
  have rest: "wp (bindE (ret (set_app_fields sn (status_fields fb) a)) (\<lambda>application.
      bindE (retry_update retry C application) (\<lambda>_. ret (Inr ())))) (\<lambda>_ w'. app_write q (view w1) (view w')) w1"
    if "knows_app a (view w1)" "ref_of (OUnstr a) = q" for a w1
  proof (cases "set_app_fields sn (status_fields fb) a")
    case (Inr app2)
    from set [OF Inr that] have app2: "knows_app app2 (view w1)" "ref_of (OUnstr app2) = q" by auto
    show ?thesis
      unfolding Inr wp_bindE wp_ret sum.case
      by (rule wp_mono [OF wp_retry_app [OF assms(1) app2(1)]]) (use app2(2) in \<open>auto split: sum.split simp del: ref_of_simps\<close>)
  qed (simp add: wp_simps app_write_def)
  show ?thesis
    unfolding write_status_def
    by (rule wp_bindE_rule [OF sim]) (auto intro: app_write_trans intro!: wp_mono [OF rest])
qed

lemma wp_status_effect:
  assumes "retrying retry view"
  shows "wp (reconcile_status sn retry C ns name) (\<lambda>_ w'. \<exists>q. ref_kind q = application_gvk \<and> app_write q (view w) (view w')) w"
    (is "wp _ (\<lambda>_. ?Q) w")
proof -
  have quiet: "?Q w1" if "view w1 = view w" for w1
    using that by (intro exI [of _ "Ref application_gvk '''' ''''"]) (simp add: app_write_def)
  have copy: "wp (copy_status sn retry C mw fb) (\<lambda>_. ?Q) w1" if "view w1 = view w" for mw fb w1
    unfolding copy_status_def Let_def wp_bindE
  proof (rule wp_fetch, goal_cases)
    case (1 x app w2)
    let ?A = "Ref application_gvk (mget (m_annotations (mw_meta mw)) AnnotationKeyHubApplicationNamespace)
      (mget (m_annotations (mw_meta mw)) AnnotationKeyHubApplicationName)"
    from 1 that have app: "view w2 ?A = Some (OUnstr app)" "ref_of (OUnstr app) = ?A" "view w2 = view w" by auto
    have "knows_app app (view w2)" using app(1) unfolding knows_app_def app(2) by simp
    from wp_write_status_app [OF assms this app(2)] show ?case
      unfolding sum.case app(3) by (rule wp_mono) (rule exI [of _ ?A], simp)
  qed (use that quiet in simp)
  show ?thesis
    unfolding reconcile_status_def wp_bind
    by (rule wp_fetch) (auto simp: wp_simps intro!: quiet copy wp_now_text split: sum.splits)
qed

lemma touches_reconcile_cluster: "wp (reconcile_cluster C argocd_ns name) (\<lambda>_. only_touches view {q. ref_kind q = KSecret} w) w"
proof -
  have remove: "wp (deleteSecret C argocd_ns name) (\<lambda>_. only_touches view {q. ref_kind q = KSecret} w1) w1" for w1
    unfolding deleteSecret_def by (intro touches) simp
  have make: "wp (createSecret C (argocd_ns, cluster)) (\<lambda>_. only_touches view {q. ref_kind q = KSecret} w1) w1" for cluster w1
    unfolding createSecret_def prod.case Let_def by (intro touches) simp
  show ?thesis
    unfolding reconcile_cluster_def by (intro touches remove make)
qed

end


section \<open>The system\<close>

text \<open>
  What the controllers share: the client, the library functions of the status controller and the namespace of Argo CD. A
  controller may run for any key at any time, whether or not an event asks for it.
\<close>

record 'w pull_hub =
  ph_client :: "'w client"
  ph_nested :: set_nested_field
  ph_retry :: "('w, unstructured result) state \<Rightarrow> ('w, unstructured result) state"
  ph_argocd_ns :: string

inductive hub_step :: "'w pull_hub \<Rightarrow> ('w \<Rightarrow> 'w \<Rightarrow> bool) \<Rightarrow> 'w \<Rightarrow> 'w \<Rightarrow> bool" for H rely where
  application_run: "run_state (reconcile_application (ph_client H) ns name) w = (r, w') \<Longrightarrow> hub_step H rely w w'"
| status_run: "run_state (reconcile_status (ph_nested H) (ph_retry H) (ph_client H) ns name) w = (r, w') \<Longrightarrow> hub_step H rely w w'"
| cluster_run: "run_state (reconcile_cluster (ph_client H) (ph_argocd_ns H) name) w = (r, w') \<Longrightarrow> hub_step H rely w w'"
| sweep_run: "run_state (cleanup (ph_client H)) w = (n, w') \<Longrightarrow> hub_step H rely w w'"
| others_act: "rely w w' \<Longrightarrow> hub_step H rely w w'"

text \<open>Steps during which \<open>P\<close> holds throughout.\<close>

inductive hub_run :: "'w pull_hub \<Rightarrow> ('w \<Rightarrow> 'w \<Rightarrow> bool) \<Rightarrow> ('w \<Rightarrow> bool) \<Rightarrow> 'w \<Rightarrow> 'w \<Rightarrow> bool" for H rely P where
  hub_stays: "P w \<Longrightarrow> hub_run H rely P w w"
| hub_moves: "hub_run H rely P w w1 \<Longrightarrow> hub_step H rely w1 w2 \<Longrightarrow> P w2 \<Longrightarrow> hub_run H rely P w w2"

lemma hub_run_last: "hub_run H rely P w w' \<Longrightarrow> P w'"
  by (erule hub_run.cases) auto

lemma hub_run_trans:
  assumes "hub_run H rely P w1 w2" "hub_run H rely P w w1"
  shows "hub_run H rely P w w2"
  using assms by (induction rule: hub_run.induct) (auto intro: hub_moves)

text \<open>The laws the system runs under, and what a step then does to the objects.\<close>

locale pull_system = atomic_api "ph_client H" view + retrying "ph_retry H" view for H :: "'w pull_hub" and view
begin

lemma step_cases [consumes 1, case_names application status cluster sweep others]:
  assumes "hub_step H rely w w'"
    and "\<And>ns name. app_effect view ns name w w' \<Longrightarrow> P"
    and "\<And>q. ref_kind q = application_gvk \<Longrightarrow> app_write q (view w) (view w') \<Longrightarrow> P"
    and "only_touches view {q. ref_kind q = KSecret} w w' \<Longrightarrow> P"
    and "only_orphans_go view w w' \<Longrightarrow> fades view UNIV w w' \<Longrightarrow> P"
    and "rely w w' \<Longrightarrow> P"
  shows P
  using assms(1)
proof cases
  case (application_run ns name r)
  from wp_run [OF wp_application_effect application_run] show P by (rule assms(2))
next
  case (status_run ns name r)
  from wp_run [OF wp_status_effect [OF retrying_axioms] status_run] assms(3) show P by blast
next
  case (cluster_run name r)
  from wp_run [OF touches_reconcile_cluster cluster_run] show P by (rule assms(4))
next
  case (sweep_run n)
  from wp_run [OF wp_cleanup sweep_run] fading.within_run [OF fading_cleanup sweep_run] assms(5) show P by blast
next
  case others_act
  then show P by (rule assms(6))
qed

end


section \<open>The work of a live Application\<close>

abbreviation app_ref :: "string \<Rightarrow> string \<Rightarrow> objref" where
  "app_ref ns name \<equiv> Ref application_gvk ns name"

text \<open>A live Application whose work no other Application claims: the uid gives the name of the work five characters only.\<close>

definition claims :: "('w \<Rightarrow> objref \<Rightarrow> kobj option) \<Rightarrow> 'w \<Rightarrow> objref \<Rightarrow> objref \<Rightarrow> unstructured \<Rightarrow> bool" where
  "claims view w W A app = (ref_kind A = application_gvk \<and> view w A = Some (OUnstr app) \<and> carried_by app W)"

definition live_owner :: "('w \<Rightarrow> objref \<Rightarrow> kobj option) \<Rightarrow> objref \<Rightarrow> objref \<Rightarrow> 'w \<Rightarrow> bool" where
  "live_owner view A W w = ((\<exists>app. claims view w W A app \<and> m_deletion (u_meta app) = None) \<and>
     (\<forall>A' app. claims view w W A' app \<longrightarrow> A' = A))"

text \<open>What the others leave alone: a live work keeps its spec, labels and annotations; its status is theirs.\<close>

definition keeps_work :: "('w \<Rightarrow> objref \<Rightarrow> kobj option) \<Rightarrow> objref \<Rightarrow> 'w \<Rightarrow> 'w \<Rightarrow> bool" where
  "keeps_work view W w w' = (\<forall>mw. view w W = Some (OManifestWork mw) \<and> m_deletion (mw_meta mw) = None \<longrightarrow>
     (\<exists>mw'. view w' W = Some (OManifestWork mw') \<and> m_deletion (mw_meta mw') = None \<and> delivers mw mw'))"

lemma delivers_refl [simp]: "delivers mw mw"
  by (simp add: delivers_def)

lemma delivers_trans: "delivers a b \<Longrightarrow> delivers b c \<Longrightarrow> delivers a c"
  by (simp add: delivers_def)

lemma carried_by_work: "carried_by app W \<Longrightarrow> ref_kind W = KManifestWork"
  by (auto simp: carried_by_def split: sum.splits)

lemma touched_other:
  "only_touches view {W, A} w w' \<Longrightarrow> ref_kind W = KManifestWork \<Longrightarrow> q \<noteq> A \<Longrightarrow> ref_kind q \<noteq> KManifestWork \<Longrightarrow> view w' q = view w q"
  by (auto simp: only_touches_def)

lemma carried_by_unique: "carried_by app W \<Longrightarrow> carried_by app W' \<Longrightarrow> W' = W"
  by (auto simp: carried_by_def split: sum.splits)

lemma delivered_names:
  assumes "delivers (work_for app W) mw" "ref_of (OUnstr app) = app_ref ns name"
  shows "names_app mw = app_ref ns name" "work_belongs_to ns' name' mw \<Longrightarrow> ns' = ns \<and> name' = name"
proof -
  have "mget (m_annotations (mw_meta mw)) AnnotationKeyHubApplicationNamespace = ns"
    "mget (m_annotations (mw_meta mw)) AnnotationKeyHubApplicationName = name"
    using assms generateManifestWork_annotations [of "ref_name W" "ref_ns W" app]
    by (simp_all add: delivers_def work_for_def)
  then show "names_app mw = app_ref ns name" "work_belongs_to ns' name' mw \<Longrightarrow> ns' = ns \<and> name' = name"
    by (simp_all add: names_app_def work_belongs_to_def)
qed

lemma app_effect_cases [consumes 1, case_names same absent leaving live]:
  assumes "app_effect view ns name w w'"
    and "view w' = view w \<Longrightarrow> P"
    and "view w (app_ref ns name) = None \<Longrightarrow> fades view UNIV w w' \<Longrightarrow>
      (\<And>q. view w' q \<noteq> view w q \<Longrightarrow> \<exists>work. view w q = Some (OManifestWork work) \<and> work_belongs_to ns name work) \<Longrightarrow> P"
    and "\<And>app W. view w (app_ref ns name) = Some (OUnstr app) \<Longrightarrow> carried_by app W \<Longrightarrow>
      only_touches view {W, app_ref ns name} w w' \<Longrightarrow> m_deletion (u_meta app) \<noteq> None \<Longrightarrow> fades view {W} w w' \<Longrightarrow>
      view w' (app_ref ns name) = view w (app_ref ns name) \<or> gone view w' W \<Longrightarrow> P"
    and "\<And>app W. view w (app_ref ns name) = Some (OUnstr app) \<Longrightarrow> carried_by app W \<Longrightarrow>
      only_touches view {W, app_ref ns name} w w' \<Longrightarrow> m_deletion (u_meta app) = None \<Longrightarrow>
      view w' W = view w W \<or> delivered app W (view w W) (view w' W) \<Longrightarrow> P"
  shows P
  using assms(1) unfolding app_effect_def
proof (elim disjE conjE exE)
  fix app W
  assume app: "view w (app_ref ns name) = Some (OUnstr app)" "carried_by app W" "only_touches view {W, app_ref ns name} w w'"
    and b: "if m_deletion (u_meta app) \<noteq> None
         then fades view {W} w w' \<and> (view w' (app_ref ns name) = view w (app_ref ns name) \<or> gone view w' W)
         else view w' W = view w W \<or> delivered app W (view w W) (view w' W)"
  show P
  proof (cases "m_deletion (u_meta app) \<noteq> None")
    case True
    with b have "fades view {W} w w'" "view w' (app_ref ns name) = view w (app_ref ns name) \<or> gone view w' W" by auto
    then show P by (rule assms(4) [OF app True])
  next
    case False
    then have "m_deletion (u_meta app) = None" by simp
    moreover from b False have "view w' W = view w W \<or> delivered app W (view w W) (view w' W)" by auto
    ultimately show P by (rule assms(5) [OF app])
  qed
next
  assume "view w' = view w"
  then show P by (rule assms(2))
next
  assume a: "view w (app_ref ns name) = None" "fades view UNIV w w'"
    "\<forall>q. view w' q \<noteq> view w q \<longrightarrow> (\<exists>work. view w q = Some (OManifestWork work) \<and> work_belongs_to ns name work)"
  show P by (rule assms(3) [OF a(1,2)]) (use a(3) in blast)
qed

context pull_system
begin

lemma step_keeps_work:
  assumes step: "hub_step H rely w w'" and rely: "\<And>w w'. rely w w' \<Longrightarrow> keeps_work view W w w'"
    and own: "live_owner view (app_ref ns name) W w"
    and work: "view w W = Some (OManifestWork mw)" "m_deletion (mw_meta mw) = None"
    and made: "delivers (work_for app0 W) mw" "ref_of (OUnstr app0) = app_ref ns name"
  shows "\<exists>mw'. view w' W = Some (OManifestWork mw') \<and> m_deletion (mw_meta mw') = None \<and>
     (delivers mw mw' \<or> (\<exists>app. view w (app_ref ns name) = Some (OUnstr app) \<and> delivers (work_for app W) mw'))"
proof -
  let ?A = "app_ref ns name"
  have kept: ?thesis if "view w' W = view w W" using that work by auto
  from own obtain app where app: "view w ?A = Some (OUnstr app)" "m_deletion (u_meta app) = None" "carried_by app W"
    and alone: "\<And>A' app. claims view w W A' app \<Longrightarrow> A' = ?A" by (auto simp: live_owner_def claims_def)
  have kind: "ref_kind W = KManifestWork" using app(3) by (rule carried_by_work)
  from step show ?thesis
  proof (cases rule: step_cases)
    case (application ns' name')
    have other: "view w' W = view w W" if "only_touches view {W', app_ref ns' name'} w w'" "W' \<noteq> W" for W'
      using that kind by (auto simp: only_touches_def application_gvk_def)
    have mine: "app' = app" if "view w (app_ref ns' name') = Some (OUnstr app')" "carried_by app' W" for app'
    proof -
      have "app_ref ns' name' = ?A" by (rule alone [of _ app']) (use that in \<open>simp add: claims_def\<close>)
      with that(1) app(1) show ?thesis by simp
    qed
    from application show ?thesis
    proof (cases rule: app_effect_cases)
      case absent
      from absent(1) app(1) have "\<not> (ns' = ns \<and> name' = name)" by auto
      then have "\<not> work_belongs_to ns' name' mw" using delivered_names(2) [OF made] by blast
      with absent(3) [of W] work(1) show ?thesis by (intro kept) auto
    next
      case (leaving app' W')
      with mine app(2) have "W' \<noteq> W" by auto
      with leaving(3) show ?thesis by (intro kept other)
    next
      case (live app' W')
      show ?thesis
      proof (cases "W' = W")
        case True
        with live(1,2) mine have a: "app' = app" by simp
        have stands: "\<forall>x. view w W = Some x \<longrightarrow> \<not> terminating x" using work by (simp add: terminating_def)
        from live(5) [unfolded a True] show ?thesis
        proof
          assume "delivered app W (view w W) (view w' W)"
          with stands obtain mw' where "view w' W = Some (OManifestWork mw')" "delivers (work_for app W) mw'"
              "\<not> terminating (OManifestWork mw')"
            unfolding delivered_def by blast
          with app(1) show ?thesis by (auto simp: terminating_def)
        qed (rule kept)
      next
        case False
        with live(3) show ?thesis by (intro kept other)
      qed
    qed (intro kept, simp)
  next
    case (status q)
    then have "q \<noteq> W" using kind by (auto simp: application_gvk_def)
    with status(2) show ?thesis by (intro kept) (auto simp: app_write_def)
  next
    case cluster
    then show ?thesis using kind by (intro kept) (auto simp: only_touches_def)
  next
    case sweep
    have "\<not> orphan view w mw" using delivered_names(1) [OF made] app(1) by (simp add: orphan_def)
    with sweep(1) [unfolded only_orphans_go_def, rule_format, of W] work(1) show ?thesis by (intro kept) auto
  next
    case others
    from rely [OF this] work show ?thesis by (auto simp: keeps_work_def)
  qed
qed

lemma run_keeps_work:
  assumes "hub_run H rely (live_owner view (app_ref ns name) W) w w'"
    and "\<And>w w'. rely w w' \<Longrightarrow> keeps_work view W w w'"
    and "view w W = Some (OManifestWork mw)" "m_deletion (mw_meta mw) = None"
    and "delivers (work_for app0 W) mw" "ref_of (OUnstr app0) = app_ref ns name"
  shows "\<exists>app mw'. view w' W = Some (OManifestWork mw') \<and> m_deletion (mw_meta mw') = None \<and> delivers (work_for app W) mw' \<and>
     (app = app0 \<or> (\<exists>w1. hub_run H rely (live_owner view (app_ref ns name) W) w w1 \<and>
        hub_run H rely (live_owner view (app_ref ns name) W) w1 w' \<and> view w1 (app_ref ns name) = Some (OUnstr app)))"
  using assms
proof (induction rule: hub_run.induct)
  case (hub_stays w)
  then show ?case by blast
next
  case (hub_moves w w1 w2)
  let ?P = "live_owner view (app_ref ns name) W"
  from hub_moves.IH [OF hub_moves.prems] obtain app mw1
    where mw1: "view w1 W = Some (OManifestWork mw1)" "m_deletion (mw_meta mw1) = None" "delivers (work_for app W) mw1"
      and src: "app = app0 \<or> (\<exists>w0. hub_run H rely ?P w w0 \<and> hub_run H rely ?P w0 w1 \<and> view w0 (app_ref ns name) = Some (OUnstr app))"
    by blast
  have ref: "ref_of (OUnstr app) = app_ref ns name"
    using src hub_moves.prems(5) view_ref by blast
  have own: "?P w1" using hub_moves.hyps(1) by (rule hub_run_last)
  from step_keeps_work [OF hub_moves.hyps(2) hub_moves.prems(1) own mw1 ref] obtain mw2
    where mw2: "view w2 W = Some (OManifestWork mw2)" "m_deletion (mw_meta mw2) = None"
      and d: "delivers mw1 mw2 \<or> (\<exists>app. view w1 (app_ref ns name) = Some (OUnstr app) \<and> delivers (work_for app W) mw2)"
    by blast
  from d show ?case
  proof
    assume "delivers mw1 mw2"
    then have "delivers (work_for app W) mw2" by (rule delivers_trans [OF mw1(3)])
    with mw2 src hub_moves.hyps show ?thesis by (blast intro: hub_run.hub_moves)
  next
    assume "\<exists>app. view w1 (app_ref ns name) = Some (OUnstr app) \<and> delivers (work_for app W) mw2"
    then obtain app2 where app2: "view w1 (app_ref ns name) = Some (OUnstr app2)" "delivers (work_for app2 W) mw2" by blast
    have "hub_run H rely ?P w1 w2"
      using hub_run.hub_moves [where P = ?P, OF hub_run.hub_stays [where P = ?P, OF own] hub_moves.hyps(2,3)] .
    with mw2 app2 hub_moves.hyps(1) show ?thesis by blast
  qed
qed

end


section \<open>Works without an Application\<close>

text \<open>Every live work with the pull label names the Application it is for, and Applications are in a namespace.\<close>

definition all_tagged :: "('w \<Rightarrow> objref \<Rightarrow> kobj option) \<Rightarrow> 'w \<Rightarrow> bool" where
  "all_tagged view w = ((\<forall>W mw. view w W = Some (OManifestWork mw) \<and> m_deletion (mw_meta mw) = None \<and>
      mget (m_labels (mw_meta mw)) LabelKeyPull = ''true'' \<longrightarrow> containsValidManifestWorkHubApplicationAnnotations mw) \<and>
     (\<forall>name. view w (app_ref '''' name) = None))"

lemma all_tagged_step:
  assumes "all_tagged view w"
    and "\<And>W mw. view w' W = Some (OManifestWork mw) \<Longrightarrow> view w' W \<noteq> view w W \<Longrightarrow> m_deletion (mw_meta mw) = None \<Longrightarrow>
      mget (m_labels (mw_meta mw)) LabelKeyPull = ''true'' \<Longrightarrow> containsValidManifestWorkHubApplicationAnnotations mw"
    and "\<And>name. view w' (app_ref '''' name) = view w (app_ref '''' name)"
  shows "all_tagged view w'"
  unfolding all_tagged_def
proof (intro conjI allI impI)
  fix W mw assume "view w' W = Some (OManifestWork mw) \<and> m_deletion (mw_meta mw) = None \<and> mget (m_labels (mw_meta mw)) LabelKeyPull = ''true''"
  then show "containsValidManifestWorkHubApplicationAnnotations mw"
    using assms(1) assms(2) [of W mw] by (cases "view w' W = view w W") (auto simp: all_tagged_def)
qed (use assms(1,3) in \<open>simp add: all_tagged_def\<close>)

context pull_system
begin

lemma gone_work: "gone view w W \<Longrightarrow> view w W = Some (OManifestWork mw) \<Longrightarrow> m_deletion (mw_meta mw) \<noteq> None"
  by (auto simp: gone_def terminating_def)

lemma step_keeps_tags:
  assumes step: "hub_step H rely w w'" and rely: "\<And>w w'. rely w w' \<Longrightarrow> all_tagged view w \<Longrightarrow> all_tagged view w'"
    and inv: "all_tagged view w"
  shows "all_tagged view w'"
proof -
  have apps: "view w (app_ref '''' name) = None" for name using inv by (simp add: all_tagged_def)
  from step show ?thesis
  proof (cases rule: step_cases)
    case (application ns name)
    have ns: "ns \<noteq> ''''" if "view w (app_ref ns name) = Some x" for x using that apps by auto
    from application show ?thesis
    proof (cases rule: app_effect_cases)
      case same
      then show ?thesis by (intro all_tagged_step [OF inv]) simp_all
    next
      case absent
      show ?thesis
      proof (rule all_tagged_step [OF inv])
        fix W mw assume "view w' W = Some (OManifestWork mw)" "view w' W \<noteq> view w W" "m_deletion (mw_meta mw) = None"
        with fades_live [OF absent(2), of W] show "containsValidManifestWorkHubApplicationAnnotations mw" by (simp add: terminating_def)
      next
        fix n show "view w' (app_ref '''' n) = view w (app_ref '''' n)"
        proof (rule ccontr)
          assume "view w' (app_ref '''' n) \<noteq> view w (app_ref '''' n)"
          from absent(3) [OF this] apps [of n] show False by auto
        qed
      qed
    next
      case (leaving app W)
      show ?thesis
      proof (rule all_tagged_step [OF inv])
        fix W' mw assume w': "view w' W' = Some (OManifestWork mw)" "view w' W' \<noteq> view w W'" "m_deletion (mw_meta mw) = None"
        have "W' \<noteq> app_ref ns name" using view_ref [OF w'(1)] by (auto simp: application_gvk_def)
        with w'(2) leaving(3) have "W' = W" by (auto simp: only_touches_def)
        with w' fades_live [OF leaving(5), of W] show "containsValidManifestWorkHubApplicationAnnotations mw" by (simp add: terminating_def)
      next
        fix n show "view w' (app_ref '''' n) = view w (app_ref '''' n)"
          by (rule touched_other [OF leaving(3) carried_by_work [OF leaving(2)]])
            (use ns [OF leaving(1)] in \<open>simp_all add: application_gvk_def\<close>)
      qed
    next
      case (live app W)
      show ?thesis
      proof (rule all_tagged_step [OF inv])
        fix W' mw assume w': "view w' W' = Some (OManifestWork mw)" "view w' W' \<noteq> view w W'"
        have "W' \<noteq> app_ref ns name" using view_ref [OF w'(1)] by (auto simp: application_gvk_def)
        with w'(2) live(3) have "W' = W" by (auto simp: only_touches_def)
        with w' live(5) have "delivers (work_for app W) mw" by (auto simp: delivered_def)
        moreover have "m_namespace (u_meta app) \<noteq> ''''" "m_name (u_meta app) \<noteq> ''''"
          using view_ref [OF live(1)] ns [OF live(1)] view_noname [of w application_gvk ns] live(1) by auto
        ultimately have "work_belongs_to (m_namespace (u_meta app)) (m_name (u_meta app)) mw"
          using generated_work_belongs(2) by (simp add: work_for_def)
        then show "containsValidManifestWorkHubApplicationAnnotations mw" by (simp add: work_belongs_to_def)
      next
        fix n show "view w' (app_ref '''' n) = view w (app_ref '''' n)"
          by (rule touched_other [OF live(3) carried_by_work [OF live(2)]])
            (use ns [OF live(1)] in \<open>simp_all add: application_gvk_def\<close>)
      qed
    qed
  next
    case (status q)
    show ?thesis
    proof (rule all_tagged_step [OF inv])
      fix W mw assume w': "view w' W = Some (OManifestWork mw)" "view w' W \<noteq> view w W"
      then have "W \<noteq> q" using view_ref [OF w'(1)] status(1) by (auto simp: application_gvk_def)
      with w' status(2) show "containsValidManifestWorkHubApplicationAnnotations mw" by (auto simp: app_write_def)
    next
      fix n show "view w' (app_ref '''' n) = view w (app_ref '''' n)" using status(2) apps [of n] by (auto simp: app_write_def)
    qed
  next
    case cluster
    show ?thesis
    proof (rule all_tagged_step [OF inv])
      fix W mw assume w': "view w' W = Some (OManifestWork mw)" "view w' W \<noteq> view w W"
      then have "ref_kind W \<noteq> KSecret" using view_ref [OF w'(1)] by auto
      with w' cluster show "containsValidManifestWorkHubApplicationAnnotations mw" by (auto simp: only_touches_def)
    qed (use cluster in \<open>auto simp: only_touches_def application_gvk_def\<close>)
  next
    case sweep
    show ?thesis
    proof (rule all_tagged_step [OF inv])
      fix W mw assume "view w' W = Some (OManifestWork mw)" "view w' W \<noteq> view w W" "m_deletion (mw_meta mw) = None"
      with fades_live [OF sweep(2), of W] show "containsValidManifestWorkHubApplicationAnnotations mw" by (simp add: terminating_def)
    next
      fix n show "view w' (app_ref '''' n) = view w (app_ref '''' n)"
        using sweep(1) [unfolded only_orphans_go_def, rule_format, of "app_ref '''' n"] apps [of n] by auto
    qed
  next
    case others
    then show ?thesis using inv by (rule rely)
  qed
qed

lemma run_keeps_tags:
  assumes "hub_run H rely P w w'" "\<And>w w'. rely w w' \<Longrightarrow> all_tagged view w \<Longrightarrow> all_tagged view w'" "all_tagged view w"
  shows "all_tagged view w'"
  using assms by (induction rule: hub_run.induct) (blast intro: step_keeps_tags)+

end

section \<open>The finalizer\<close>

text \<open>An Application that is being deleted, holds the Argo CD finalizer, and has its work at \<open>W\<close>.\<close>

definition holds_finalizer :: "('w \<Rightarrow> objref \<Rightarrow> kobj option) \<Rightarrow> objref \<Rightarrow> objref \<Rightarrow> 'w \<Rightarrow> bool" where
  "holds_finalizer view A W w = (\<exists>app. claims view w W A app \<and> m_deletion (u_meta app) \<noteq> None \<and>
     ResourcesFinalizerName \<in> set (m_finalizers (u_meta app)))"

definition nobody_delivers :: "('w \<Rightarrow> objref \<Rightarrow> kobj option) \<Rightarrow> objref \<Rightarrow> 'w \<Rightarrow> bool" where
  "nobody_delivers view W w = (\<forall>A app. claims view w W A app \<longrightarrow> m_deletion (u_meta app) \<noteq> None)"

text \<open>The others bring no work back, and leave the identity of the Application alone.\<close>

definition keeps_leaving :: "('w \<Rightarrow> objref \<Rightarrow> kobj option) \<Rightarrow> objref \<Rightarrow> objref \<Rightarrow> 'w \<Rightarrow> 'w \<Rightarrow> bool" where
  "keeps_leaving view A W w w' = ((gone view w W \<longrightarrow> gone view w' W) \<and>
     (\<forall>app. view w A = Some (OUnstr app) \<longrightarrow> (\<exists>app'. view w' A = Some (OUnstr app') \<and> same_identity app app')))"

lemma holds_finalizer_same: "view w' A = view w A \<Longrightarrow> holds_finalizer view A W w' = holds_finalizer view A W w"
  by (simp add: holds_finalizer_def claims_def)

lemma holds_finalizer_identity:
  assumes "holds_finalizer view A W w" "view w A = Some (OUnstr app)" "view w' A = Some (OUnstr app')" "same_identity app app'"
  shows "holds_finalizer view A W w'"
  using assms same_identity_carried [OF assms(4), of W]
  by (auto simp: holds_finalizer_def claims_def same_identity_def simp del: ref_of_simps)

context pull_system
begin

lemma step_keeps_finalizer:
  assumes step: "hub_step H rely w w'" and rely: "\<And>w w'. rely w w' \<Longrightarrow> keeps_leaving view A W w w'"
    and nobody: "nobody_delivers view W w" and work: "ref_kind W = KManifestWork" and A: "ref_kind A = application_gvk"
    and inv: "gone view w W \<or> holds_finalizer view A W w"
  shows "gone view w' W \<or> holds_finalizer view A W w'"
proof -
  have AW: "A \<noteq> W" using work A by (auto simp: application_gvk_def)
  have both: ?thesis if "view w' W = view w W" "view w' A = view w A"
    using that inv gone_cong [of view w' W w] holds_finalizer_same [of view w' A w W] by simp
  from step show ?thesis
  proof (cases rule: step_cases)
    case (application ns name)
    let ?B = "app_ref ns name"
    have kinds: "W \<noteq> ?B" using work by (auto simp: application_gvk_def)
    have keep_A: "view w' A = view w A" if "only_touches view {W', ?B} w w'" "?B \<noteq> A" "ref_kind W' = KManifestWork" for W'
      by (rule touched_other [OF that(1,3)]) (use that(2) A in \<open>auto simp: application_gvk_def\<close>)
    have keep_W: "view w' W = view w W" if "only_touches view {W', ?B} w w'" "W' \<noteq> W" for W'
      using that kinds by (auto simp: only_touches_def)
    from application show ?thesis
    proof (cases rule: app_effect_cases)
      case absent
      have "view w' A = view w A" if "holds_finalizer view A W w"
      proof (rule ccontr)
        assume "view w' A \<noteq> view w A"
        from absent(3) [OF this] that show False by (auto simp: holds_finalizer_def claims_def)
      qed
      with inv fades_gone [OF absent(2), of W] holds_finalizer_same [of view w' A w W] show ?thesis by auto
    next
      case (leaving app W')
      show ?thesis
      proof (cases "W' = W")
        case True
        with leaving(5) have "gone view w W \<longrightarrow> gone view w' W" by (auto intro: fades_gone)
        moreover have "view w' A = view w A \<or> gone view w' W"
          using leaving(6) True keep_A [OF leaving(3)] carried_by_work [OF leaving(2)] by (cases "?B = A") auto
        ultimately show ?thesis using inv holds_finalizer_same [of view w' A w W] by auto
      next
        case False
        have "gone view w W \<or> ?B \<noteq> A"
          using inv leaving(1) carried_by_unique [OF leaving(2), of W] False by (auto simp: holds_finalizer_def claims_def)
        then show ?thesis
        proof
          assume "gone view w W"
          then show ?thesis using gone_cong [of view w' W w] keep_W [OF leaving(3) False] by simp
        next
          assume "?B \<noteq> A"
          then show ?thesis by (intro both keep_W [OF leaving(3) False] keep_A [OF leaving(3)] carried_by_work [OF leaving(2)])
        qed
      qed
    next
      case (live app W')
      have "W' \<noteq> W"
        using live(1,2,4) nobody [unfolded nobody_delivers_def claims_def, rule_format, of ?B app] by auto
      note W' = keep_W [OF live(3) this]
      have "gone view w W \<or> ?B \<noteq> A" using inv live(1,4) by (auto simp: holds_finalizer_def claims_def)
      then show ?thesis
      proof
        assume "gone view w W"
        then show ?thesis using gone_cong [of view w' W w] W' by simp
      next
        assume "?B \<noteq> A"
        then show ?thesis by (intro both W' keep_A [OF live(3)] carried_by_work [OF live(2)])
      qed
    qed (simp add: both)
  next
    case (status q)
    have W: "view w' W = view w W" using status work by (auto simp: app_write_def application_gvk_def)
    show ?thesis
    proof (cases "gone view w W \<or> view w' A = view w A")
      case True
      with W inv gone_cong [of view w' W w] holds_finalizer_same [of view w' A w W] show ?thesis by auto
    next
      case False
      with inv have h: "holds_finalizer view A W w" by blast
      from False status(2) obtain old z where q: "q = A" "view w A = Some (OUnstr old)" "view w' A = z"
          "case z of None \<Rightarrow> m_deletion (u_meta old) \<noteq> None \<and> m_finalizers (u_meta old) = []
           | Some x \<Rightarrow> \<exists>new. x = OUnstr new \<and> same_identity old new"
        unfolding app_write_def by (auto split: if_splits)
      from h q(2) have "m_finalizers (u_meta old) \<noteq> []" by (auto simp: holds_finalizer_def claims_def)
      with q(4) obtain new where "z = Some (OUnstr new)" "same_identity old new" by (auto split: option.splits)
      with holds_finalizer_identity [OF h q(2), of w' new] q(3) show ?thesis by blast
    qed
  next
    case cluster
    then show ?thesis using work A by (intro both) (auto simp: only_touches_def application_gvk_def)
  next
    case sweep
    have "view w' A = view w A" if "holds_finalizer view A W w"
      using that sweep(1) [unfolded only_orphans_go_def, rule_format, of A] by (auto simp: holds_finalizer_def claims_def)
    with inv fades_gone [OF sweep(2), of W] holds_finalizer_same [of view w' A w W] show ?thesis by auto
  next
    case others
    from rely [OF this] have r: "gone view w W \<longrightarrow> gone view w' W"
      "\<forall>app. view w A = Some (OUnstr app) \<longrightarrow> (\<exists>app'. view w' A = Some (OUnstr app') \<and> same_identity app app')"
      by (simp_all add: keeps_leaving_def)
    from inv show ?thesis
    proof
      assume h: "holds_finalizer view A W w"
      then obtain app where "view w A = Some (OUnstr app)" by (auto simp: holds_finalizer_def claims_def)
      with r(2) holds_finalizer_identity [OF h] show ?thesis by blast
    qed (use r(1) in blast)
  qed
qed

lemma run_keeps_finalizer:
  assumes "hub_run H rely (nobody_delivers view W) w w'" "\<And>w w'. rely w w' \<Longrightarrow> keeps_leaving view A W w w'"
    and "ref_kind W = KManifestWork" "ref_kind A = application_gvk" "holds_finalizer view A W w"
  shows "gone view w' W \<or> holds_finalizer view A W w'"
  using assms
proof (induction rule: hub_run.induct)
  case (hub_moves w w1 w2)
  from step_keeps_finalizer [OF hub_moves.hyps(2) hub_moves.prems(1) hub_run_last [OF hub_moves.hyps(1)] hub_moves.prems(2,3)
      hub_moves.IH [OF hub_moves.prems]]
  show ?case .
qed simp

end


text \<open>A sweep that is answered, on a hub whose works are tagged.\<close>

context pull_system
begin

lemma wp_sweep_tagged:
  assumes "reliable_api (ph_client H) view healthy" "healthy w" "all_tagged view w"
  shows "wp (cleanup (ph_client H)) (\<lambda>r w'. (\<exists>n. r = Inr n) \<and> (\<forall>W mw. view w' W = Some (OManifestWork mw) \<and> m_deletion (mw_meta mw) = None \<and>
     mget (m_labels (mw_meta mw)) LabelKeyPull = ''true'' \<longrightarrow> view w' (names_app mw) \<noteq> None)) w"
proof (rule wp_mono [OF wp_conj [OF wp_conj [OF wp_cleanup fading.within_wp [OF fading_cleanup]]
      reliable_api.wp_cleanup_healthy [OF assms(1,2)]]], elim conjE, intro conjI allI impI)
  fix r :: "(nat \<times> nat) result" and w' W mw
  assume orphans: "only_orphans_go view w w'" and f: "fades view UNIV w w'"
    and all: "\<forall>q work. view w q = Some (OManifestWork work) \<and> orphan view w work \<longrightarrow> gone view w' q"
    and mw: "view w' W = Some (OManifestWork mw) \<and> m_deletion (mw_meta mw) = None \<and> mget (m_labels (mw_meta mw)) LabelKeyPull = ''true''"
  from mw have live: "\<not> gone view w' W" by (auto simp: gone_def terminating_def)
  from mw fades_live [OF f, of W] have stored: "view w W = Some (OManifestWork mw)" by (simp add: terminating_def)
  with all live have "\<not> orphan view w mw" by blast
  with assms(3) stored mw have "view w (names_app mw) \<noteq> None" by (auto simp: all_tagged_def orphan_def)
  moreover have "view w' (names_app mw) = view w (names_app mw)"
    by (rule only_orphans_go_app [OF orphans]) (rule view_ref)
  ultimately show "view w' (names_app mw) \<noteq> None" by simp
qed

end

section \<open>Properties\<close>

text \<open>The system on the in-memory store.\<close>

definition example_hub :: "mem pull_hub" where
  "example_hub = \<lparr>ph_client = mem_client, ph_nested = set_path, ph_retry = retry_n 3, ph_argocd_ns = ''argocd''\<rparr>"

interpretation mem_pull: pull_system example_hub mem_view
  unfolding pull_system_def by (simp add: example_hub_def mem_atomic_api retry_n_retrying)

lemma mem_pull_system: "pull_system example_hub mem_view"
  by (rule mem_pull.pull_system_axioms)

text \<open>Others that only report the status of works.\<close>

fun report :: "feedback_value list list \<Rightarrow> kobj \<Rightarrow> kobj" where
  "report fb (OManifestWork mw) = OManifestWork (mw\<lparr>mw_feedback := fb\<rparr>)"
| "report fb x = x"

definition reported :: "feedback_value list list \<Rightarrow> mem \<Rightarrow> mem" where
  "reported fb w = w\<lparr>mem_objs := map (report fb) (mem_objs w)\<rparr>"

definition agents_report :: "mem \<Rightarrow> mem \<Rightarrow> bool" where
  "agents_report w w' = (\<exists>fb. w' = reported fb w)"

lemma ref_of_report [simp]: "ref_of (report fb x) = ref_of x"
  by (cases x) (simp_all add: ref_of_def)

lemma find_map: "(\<And>x. P (f x) = P x) \<Longrightarrow> find P (map f xs) = map_option f (find P xs)"
  by (induction xs) auto

lemma mem_view_reported: "mem_view (reported fb w) q = map_option (report fb) (mem_view w q)"
  by (simp add: mem_view_def find_obj_def reported_def find_map)

lemma mem_view_member: "mem_view w q = Some x \<Longrightarrow> x \<in> set (mem_objs w) \<and> ref_of x = q"
  by (auto simp: mem_view_def find_obj_def find_Some_iff split: if_splits)

lemma report_terminating: "terminating (report fb x) = terminating x"
  by (cases x) (simp_all add: terminating_def)

lemma reports_keep_work: "agents_report w w' \<Longrightarrow> keeps_work mem_view W w w'"
  by (auto simp: agents_report_def keeps_work_def mem_view_reported delivers_def)

lemma reports_keep_leaving: "agents_report w w' \<Longrightarrow> keeps_leaving mem_view A W w w'"
  by (auto simp: agents_report_def keeps_leaving_def mem_view_reported gone_def report_terminating)

text \<open>A check of \<open>live_owner\<close> on the store.\<close>

definition mem_claims :: "objref \<Rightarrow> kobj \<Rightarrow> bool" where
  "mem_claims W x = (case as_unstr x of None \<Rightarrow> False | Some app \<Rightarrow> carried_by app W)"

definition mem_live_owner :: "objref \<Rightarrow> objref \<Rightarrow> mem \<Rightarrow> bool" where
  "mem_live_owner A W w = (ref_kind A = application_gvk \<and>
     (case mem_view w A of None \<Rightarrow> False | Some x \<Rightarrow> mem_claims W x \<and> \<not> terminating x) \<and>
     list_all (\<lambda>x. mem_claims W x \<longrightarrow> ref_of x = A) (mem_objs w))"

lemma live_owner_mem:
  assumes "mem_live_owner A W w"
  shows "live_owner mem_view A W w"
proof -
  have "\<exists>app. claims mem_view w W A app \<and> m_deletion (u_meta app) = None"
    using assms by (auto simp: mem_live_owner_def mem_claims_def claims_def terminating_def split: option.splits)
  moreover have "A' = A" if "claims mem_view w W A' app" for A' app
    using that assms mem_view_member [of w A' "OUnstr app"]
    by (auto simp: mem_live_owner_def mem_claims_def claims_def list_all_iff simp del: ref_of_simps)
  ultimately show ?thesis by (auto simp: live_owner_def)
qed

text \<open>
  C2: However runs of the four controllers of the basic pull model follow one another, whichever
  of their requests fail or time out, and whatever users and agents do to other objects and to the
  status of the work: while the Application lives and no other claims its work, a delivered
  ManifestWork stays, is not being deleted, and carries a version of the Application that it
  carried at first or that was stored at a moment of the run.
\<close>

theorem delivered_work_survives:
  assumes "pull_system H view" and "\<forall>w w'. rely w w' \<longrightarrow> keeps_work view W w w'"
    and "view w W = Some (OManifestWork mw)" and "m_deletion (mw_meta mw) = None"
    and "delivers (work_for app0 W) mw" and "ref_of (OUnstr app0) = app_ref ns name"
    and "hub_run H rely (live_owner view (app_ref ns name) W) w w'"
  shows "\<exists>app mw'. view w' W = Some (OManifestWork mw') \<and> m_deletion (mw_meta mw') = None \<and> delivers (work_for app W) mw' \<and>
     (app = app0 \<or> (\<exists>w1. hub_run H rely (live_owner view (app_ref ns name) W) w w1 \<and>
        hub_run H rely (live_owner view (app_ref ns name) W) w1 w' \<and> view w1 (app_ref ns name) = Some (OUnstr app)))"
  using pull_system.run_keeps_work [OF assms(1,7) _ assms(3-6)] assms(2) by blast

text \<open>The agent reports, the status controller copies it, and a sweep comes by.\<close>

definition example_reported_world :: mem where
  "example_reported_world = reported (mw_feedback example_reporting_work) example_ran_world"

definition example_copied_world :: mem where
  "example_copied_world = snd (run_state (reconcile_status set_path (retry_n 3) mem_client ''c1'' ''app-abcde'') example_reported_world)"

theorem delivered_work_survives_witness:
  "\<exists>mw. mem_view (snd (run_state (cleanup mem_client) example_copied_world)) (Ref KManifestWork ''c1'' ''app-abcde'') =
     Some (OManifestWork mw) \<and> m_deletion (mw_meta mw) = None"
proof -
  let ?A = "app_ref ''argocd'' ''app''" and ?W = "Ref KManifestWork ''c1'' ''app-abcde''"
  let ?P = "live_owner mem_view ?A ?W" and ?w3 = "snd (run_state (cleanup mem_client) example_copied_world)"
  have live: "mem_live_owner ?A ?W example_ran_world" "mem_live_owner ?A ?W example_reported_world"
    "mem_live_owner ?A ?W example_copied_world" "mem_live_owner ?A ?W ?w3" by code_simp+
  note live = live [THEN live_owner_mem]
  have s1: "hub_step example_hub agents_report example_ran_world example_reported_world"
    by (rule others_act) (auto simp: agents_report_def example_reported_world_def)
  have s2: "hub_step example_hub agents_report example_reported_world example_copied_world"
    by (rule status_run [of _ "''c1''" "''app-abcde''"]) (simp add: example_hub_def example_copied_world_def prod_eq_iff)
  have s3: "hub_step example_hub agents_report example_copied_world ?w3"
    by (rule sweep_run) (simp add: example_hub_def prod_eq_iff)
  have run: "hub_run example_hub agents_report ?P example_ran_world ?w3"
    by (rule hub_stays [where P = ?P, THEN hub_moves, THEN hub_moves, THEN hub_moves, OF live(1) s1 live(2) s2 live(3) s3 live(4)])
  have rely: "\<forall>w w'. agents_report w w' \<longrightarrow> keeps_work mem_view ?W w w'" by (simp add: reports_keep_work)
  have ref: "ref_of (OUnstr example_app) = ?A" by code_simp
  have "map_option (\<lambda>x. map_option (\<lambda>mw. (m_deletion (mw_meta mw), mw_spec mw = mw_spec example_work,
      m_labels (mw_meta mw) = m_labels (mw_meta example_work), m_annotations (mw_meta mw) = m_annotations (mw_meta example_work)))
      (as_work x)) (mem_view example_ran_world ?W) = Some (Some (None, True, True, True))" by code_simp
  then obtain mw where mw: "mem_view example_ran_world ?W = Some (OManifestWork mw)" "m_deletion (mw_meta mw) = None"
    and made: "delivers (work_for example_app ?W) mw"
    by (auto simp: delivers_def work_for_def example_work_def)
  from delivered_work_survives [OF mem_pull_system, OF rely, OF mw(1), OF mw(2), OF made, OF ref, OF run] show ?thesis by blast
qed

text \<open>
  C10: When every live work with the pull label names its Application at first, it does after any
  steps of the four controllers of the basic pull model, with any failures, and of others that
  respect this; so one sweep that is answered leaves no live work with the label whose Application
  does not exist.
\<close>

theorem sweep_leaves_no_orphan:
  assumes "pull_system H view" and "reliable_api (ph_client H) view healthy"
    and "\<forall>w w'. rely w w' \<and> all_tagged view w \<longrightarrow> all_tagged view w'" and "all_tagged view w0"
    and "hub_run H rely (\<lambda>_. True) w0 w" and "healthy w"
  shows "all_tagged view w \<and> (\<exists>n w'. run_state (cleanup (ph_client H)) w = (Inr n, w') \<and>
     (\<forall>W mw. view w' W = Some (OManifestWork mw) \<and> m_deletion (mw_meta mw) = None \<and>
        mget (m_labels (mw_meta mw)) LabelKeyPull = ''true'' \<longrightarrow> view w' (names_app mw) \<noteq> None))"
proof -
  have tags: "all_tagged view w"
    using pull_system.run_keeps_tags [OF assms(1,5) _ assms(4)] assms(3) by blast
  obtain r w' where run: "run_state (cleanup (ph_client H)) w = (r, w')" by (cases "run_state (cleanup (ph_client H)) w")
  from wp_run [OF pull_system.wp_sweep_tagged [OF assms(1,2,6) tags] run] run tags show ?thesis by blast
qed

text \<open>A user takes the Application away.\<close>

definition users_remove :: "mem \<Rightarrow> mem \<Rightarrow> bool" where
  "users_remove w w' = (\<exists>q. ref_kind q = application_gvk \<and> w' = w\<lparr>mem_objs := remove_ref q (mem_objs w)\<rparr>)"

lemma removals_keep_tags: "users_remove w w' \<Longrightarrow> all_tagged mem_view w \<Longrightarrow> all_tagged mem_view w'"
  by (auto simp: users_remove_def all_tagged_def mem_view_def find_obj_remove split: if_splits)

theorem sweep_leaves_no_orphan_witness:
  "all_tagged mem_view example_app_removed_world \<and>
   (\<exists>n. fst (run_state (cleanup mem_client) example_app_removed_world) = Inr n)"
proof -
  let ?w0 = "example_world example_app"
  have laws: "reliable_api (ph_client example_hub) mem_view mem_healthy" by (simp add: example_hub_def mem_reliable_api)
  have rely: "\<forall>w w'. users_remove w w' \<and> all_tagged mem_view w \<longrightarrow> all_tagged mem_view w'" by (blast intro: removals_keep_tags)
  have start: "all_tagged mem_view ?w0"
    by (auto simp: all_tagged_def example_world_def mem_of_def example_app_def new_meta_def mem_view_def find_obj_def application_gvk_def split: if_splits)
  have s1: "hub_step example_hub users_remove ?w0 example_ran_world"
    by (rule application_run [of _ "''argocd''" "''app''"]) (simp add: example_hub_def example_ran_world_def prod_eq_iff)
  have s2: "hub_step example_hub users_remove example_ran_world example_app_removed_world"
    by (rule others_act) (auto simp: users_remove_def example_app_removed_world_def intro!: exI [of _ "app_ref ''argocd'' ''app''"])
  have run: "hub_run example_hub users_remove (\<lambda>_. True) ?w0 example_app_removed_world"
    by (rule hub_stays [where P = "\<lambda>_. True", THEN hub_moves, THEN hub_moves, OF TrueI s1 TrueI s2 TrueI])
  have h: "mem_healthy example_app_removed_world" by code_simp
  from sweep_leaves_no_orphan [OF mem_pull_system, OF laws, OF rely, OF start, OF run, OF h] show ?thesis
    by (auto simp: example_hub_def)
qed

text \<open>
  C3: As long as the ManifestWork of an Application that is being deleted is there and not itself
  being deleted, the Argo CD finalizer holds the Application: no steps of the four controllers of
  the basic pull model, with any failures, take the Application away or the finalizer off it,
  provided that no live Application claims the work and the others leave the identity of the
  Application alone and bring no work back. (The code gives the finalizer up as soon as the
  deletion of the work is accepted, also when finalizers of the work still hold it.)
\<close>

theorem finalizer_holds_until_work_is_deleted:
  assumes "pull_system H view" and "\<forall>w w'. rely w w' \<longrightarrow> keeps_leaving view (app_ref ns name) W w w'"
    and "view w (app_ref ns name) = Some (OUnstr app)" and "m_deletion (u_meta app) \<noteq> None"
    and "ResourcesFinalizerName \<in> set (m_finalizers (u_meta app))" and "carried_by app W"
    and "hub_run H rely (nobody_delivers view W) w w'" and "view w' W = Some x" and "\<not> terminating x"
  shows "\<exists>app'. view w' (app_ref ns name) = Some (OUnstr app') \<and> m_deletion (u_meta app') \<noteq> None \<and>
     ResourcesFinalizerName \<in> set (m_finalizers (u_meta app')) \<and> carried_by app' W"
proof -
  have h: "holds_finalizer view (app_ref ns name) W w"
    using assms(3-6) by (auto simp: holds_finalizer_def claims_def)
  have "\<not> gone view w' W" using assms(8,9) by (simp add: gone_def)
  with pull_system.run_keeps_finalizer [OF assms(1,7) _ carried_by_work [OF assms(6)] _ h] assms(2)
  show ?thesis by (auto simp: holds_finalizer_def claims_def)
qed


text \<open>The work cannot be deleted at first: the server answers the third request with an error.\<close>

definition example_failing_world :: mem where
  "example_failing_world = example_deletion_world\<lparr>mem_faults := [None, None, Some ''etcd timeout'']\<rparr>"

definition mem_nobody :: "objref \<Rightarrow> mem \<Rightarrow> bool" where
  "mem_nobody W w = list_all (\<lambda>x. mem_claims W x \<longrightarrow> terminating x) (mem_objs w)"

lemma nobody_mem: "mem_nobody W w \<Longrightarrow> nobody_delivers mem_view W w"
  unfolding nobody_delivers_def
proof (intro allI impI)
  fix A app assume "mem_nobody W w" "claims mem_view w W A app"
  then show "m_deletion (u_meta app) \<noteq> None"
    using mem_view_member [of w A "OUnstr app"]
    by (auto simp: mem_nobody_def mem_claims_def claims_def list_all_iff terminating_def simp del: ref_of_simps)
qed

theorem finalizer_holds_until_work_is_deleted_witness:
  "\<exists>app. mem_view (snd (run_state (reconcile_application mem_client ''argocd'' ''app'') example_failing_world)) (app_ref ''argocd'' ''app'') =
     Some (OUnstr app) \<and> ResourcesFinalizerName \<in> set (m_finalizers (u_meta app))"
proof -
  let ?A = "app_ref ''argocd'' ''app''" and ?W = "Ref KManifestWork ''c1'' ''app-abcde''"
  let ?w1 = "snd (run_state (reconcile_application mem_client ''argocd'' ''app'') example_failing_world)"
  let ?P = "nobody_delivers mem_view ?W"
  have nobody: "mem_nobody ?W example_failing_world" "mem_nobody ?W ?w1" by code_simp+
  note nobody = nobody [THEN nobody_mem]
  have s1: "hub_step example_hub agents_report example_failing_world ?w1"
    by (rule application_run [of _ "''argocd''" "''app''"]) (simp add: example_hub_def prod_eq_iff)
  have run: "hub_run example_hub agents_report ?P example_failing_world ?w1"
    by (rule hub_stays [where P = ?P, THEN hub_moves, OF nobody(1) s1 nobody(2)])
  have rely: "\<forall>w w'. agents_report w w' \<longrightarrow> keeps_leaving mem_view ?A ?W w w'" by (simp add: reports_keep_leaving)
  have app: "mem_view example_failing_world ?A = Some (OUnstr example_deleted_app)" by code_simp
  have del: "m_deletion (u_meta example_deleted_app) \<noteq> None" by code_simp
  have fin: "ResourcesFinalizerName \<in> set (m_finalizers (u_meta example_deleted_app))" by code_simp
  have own: "carried_by example_deleted_app ?W" by code_simp
  have "map_option terminating (mem_view ?w1 ?W) = Some False" by code_simp
  then obtain x where work: "mem_view ?w1 ?W = Some x" "\<not> terminating x" by auto
  from finalizer_holds_until_work_is_deleted
    [OF mem_pull_system, OF rely, OF app, OF del, OF fin, OF own, OF run, OF work(1), OF work(2)]
  show ?thesis by blast
qed

text \<open>
  Why a delivered work survives only if no other Application claims it: its name has five characters of the uid, so an Application of the same
  name in another namespace may share it, and the deletion of the one takes the work of the other away.
\<close>

definition example_namesake :: unstructured where
  "example_namesake = example_deleted_app\<lparr>u_meta := (u_meta example_deleted_app)\<lparr>m_namespace := ''team-b'', m_uid := ''abcde-2''\<rparr>\<rparr>"

lemma namesakes_share_a_work:
  "mem_view (snd (run_state (reconcile_application mem_client ''team-b'' ''app'')
      (mem_of [OUnstr example_app, OUnstr example_namesake, OManifestWork example_work]))) (Ref KManifestWork ''c1'' ''app-abcde'') = None \<and>
   m_deletion (u_meta example_app) = None \<and> carried_by example_app (Ref KManifestWork ''c1'' ''app-abcde'')"
  by code_simp
end
