(* ===== verification/Addon_Certificate.thy ===== *)
theory Addon_Certificate
  imports Ensure Go_Text
begin

text \<open>
  The part of \<open>internal/addon/addon_install.go\<close> that brings the client certificate to the Argo CD agent of a managed
  cluster: the namespaces of the addon, the copy of the Secret and the restart of the agent. The environment of the
  process is the argument \<open>env\<close> and \<open>sha\<close> the hexadecimal SHA-256 sum of a text (\<open>crypto/sha256\<close> with \<open>encoding/hex\<close>).
\<close>

section \<open>Names\<close>

definition operatorNamespace :: string where
  "operatorNamespace = ''argocd-operator-system''"
definition argoCDNamespace :: string where
  "argoCDNamespace = ''argocd''"
definition agentDeploymentName :: string where
  "agentDeploymentName = ''argocd-agent-agent''"
definition agentCertDigestAnnotation :: string where
  "agentCertDigestAnnotation = ''argocd-pull-integration/agent-cert-digest''"
definition agentCertRestartedAtAnnotation :: string where
  "agentCertRestartedAtAnnotation = ''argocd-pull-integration/agent-cert-restartedAt''"

text \<open>\<open>os.Getenv\<close> gives the empty string for a variable that is not set.\<close>

type_synonym environ = "string \<Rightarrow> string"

definition getNamespaceConfig :: "environ \<Rightarrow> string \<times> string" where
  "getNamespaceConfig env =
     (let opNamespace = env ''ARGOCD_OPERATOR_NAMESPACE'';
          agentNamespace = env ''ARGOCD_NAMESPACE''
      in (if opNamespace = '''' then operatorNamespace else opNamespace,
          if agentNamespace = '''' then argoCDNamespace else agentNamespace))"

abbreviation operator_ns :: "environ \<Rightarrow> string" where
  "operator_ns env \<equiv> fst (getNamespaceConfig env)"

abbreviation argocd_ns :: "environ \<Rightarrow> string" where
  "argocd_ns env \<equiv> snd (getNamespaceConfig env)"

lemma namespaces_ne [simp]: "operator_ns env \<noteq> ''''" "argocd_ns env \<noteq> ''''"
  by (simp_all add: getNamespaceConfig_def operatorNamespace_def argoCDNamespace_def Let_def)

definition addon_managed_by :: "string \<times> string" where
  "addon_managed_by = (''app.kubernetes.io/managed-by'', ''argocd-agent-addon'')"

definition source_secret_ref :: objref where
  "source_secret_ref = Ref KSecret ''open-cluster-management-agent-addon''
     ''argocd-agent-addon-open-cluster-management.io-argocd-agent-addon-client-cert''"

definition agent_client_secret_name :: string where
  "agent_client_secret_name = ''argocd-agent-open-cluster-management.io-argocd-agent-addon-client-cert''"

section \<open>The digest of a key pair\<close>

definition digest_input :: "string \<Rightarrow> string \<Rightarrow> string" where
  "digest_input tlsCrt tlsKey =
     itoa (int (length tlsCrt)) @ '':'' @ tlsCrt @ itoa (int (length tlsKey)) @ '':'' @ tlsKey"

definition agentCertDigest :: "(string \<Rightarrow> string) \<Rightarrow> string \<Rightarrow> string \<Rightarrow> string" where
  "agentCertDigest sha tlsCrt tlsKey = sha (digest_input tlsCrt tlsKey)"

section \<open>The restart of the agent\<close>

definition restartAgentDeployment :: "'w client \<Rightarrow> string \<Rightarrow> string \<Rightarrow> ('w, unit result) state" where
  "restartAgentDeployment C namespace certDigest = do {
     now \<leftarrow> c_now_text C;
     c_patch C (Ref KDeployment namespace agentDeploymentName)
       (annotations_patch [(agentCertDigestAnnotation, certDigest), (agentCertRestartedAtAnnotation, now)]) }"

text \<open>Every failure is only logged: the next run finds the digests still different.\<close>

definition ensureAgentRestartedForCert :: "'w client \<Rightarrow> string \<Rightarrow> string \<Rightarrow> ('w, unit) state" where
  "ensureAgentRestartedForCert C namespace wantDigest = do {
     r \<leftarrow> fetch as_deployment C (Ref KDeployment namespace agentDeploymentName);
     (case r of
        Inl _ \<Rightarrow> ret ()
      | Inr deployment \<Rightarrow>
          if mget (dep_template_annotations deployment) agentCertDigestAnnotation = wantDigest then ret ()
          else log_error (restartAgentDeployment C namespace wantDigest)) }"

section \<open>The copy of the certificate\<close>

definition new_client_secret :: "string \<Rightarrow> string \<Rightarrow> string \<Rightarrow> secret" where
  "new_client_secret namespace tlsCrt tlsKey =
     \<lparr>sec_meta = (new_meta agent_client_secret_name namespace)\<lparr>m_labels := [addon_managed_by]\<rparr>,
      sec_type = ''kubernetes.io/tls'', sec_data = [(''tls.crt'', tlsCrt), (''tls.key'', tlsKey)], sec_string_data = []\<rparr>"

definition renewed_client_secret :: "secret \<Rightarrow> string \<Rightarrow> string \<Rightarrow> secret" where
  "renewed_client_secret existingSecret tlsCrt tlsKey =
     existingSecret\<lparr>sec_data := [(''tls.crt'', tlsCrt), (''tls.key'', tlsKey)], sec_type := ''kubernetes.io/tls'',
       sec_meta := (sec_meta existingSecret)\<lparr>m_labels :=
         put (fst addon_managed_by) (snd addon_managed_by) (m_labels (sec_meta existingSecret))\<rparr>\<rparr>"

definition store_client_secret :: "'w client \<Rightarrow> string \<Rightarrow> string \<Rightarrow> string \<Rightarrow> ('w, unit result) state" where
  "store_client_secret C namespace tlsCrt tlsKey = do {
     r \<leftarrow> fetch as_secret C (Ref KSecret namespace agent_client_secret_name);
     (case r of
        Inl e \<Rightarrow>
          if is_not_found e then create C (OSecret (new_client_secret namespace tlsCrt tlsKey))
          else ret (Inl (Wrapped ''failed to check existing secret'' e))
      | Inr existingSecret \<Rightarrow> update C (OSecret (renewed_client_secret existingSecret tlsCrt tlsKey))) }"

definition copyClientCertificate :: "'w client \<Rightarrow> environ \<Rightarrow> (string \<Rightarrow> string) \<Rightarrow> ('w, unit result) state" where
  "copyClientCertificate C env sha = do {
     let (_, argoCDNamespace) = getNamespaceConfig env;
     r \<leftarrow> fetch as_secret C source_secret_ref;
     (case r of
        Inl e \<Rightarrow>
          if is_not_found e then ret (Inr ()) else ret (Inl (Wrapped ''failed to get source secret'' e))
      | Inr sourceSecret \<Rightarrow>
          (case (map_of (sec_data sourceSecret) ''tls.crt'', map_of (sec_data sourceSecret) ''tls.key'') of
             (Some tlsCrt, Some tlsKey) \<Rightarrow>
               bindE (store_client_secret C argoCDNamespace tlsCrt tlsKey) (\<lambda>_. do {
                 _ \<leftarrow> ensureAgentRestartedForCert C argoCDNamespace (agentCertDigest sha tlsCrt tlsKey);
                 ret (Inr ()) })
           | _ \<Rightarrow> ret (Inl (Plain ''OCM secret missing tls.crt or tls.key'')))) }"

section \<open>Lemmas\<close>

subsection \<open>The input of the digest\<close>

lemma length_prefix_inject:
  assumes "itoa (int m) @ CHR '':'' # s = itoa (int n) @ CHR '':'' # t"
  shows "m = n" "s = t"
proof -
  let ?d = "\<lambda>c. c \<noteq> CHR '':''"
  have digits: "\<forall>c \<in> set (itoa (int k)). ?d c" for k
    using show_digits_digits [of "int k"] by (auto simp: itoa_def list_all_iff is_digit_def byte_def)
  have "takeWhile ?d (itoa (int k) @ CHR '':'' # u) = itoa (int k)" for k u
    using digits [of k] by (subst takeWhile_append2) auto
  then have "itoa (int m) = itoa (int n)" using assms by metis
  then show "m = n" by (simp only: itoa_nat_inject)
  with assms show "s = t" by simp
qed

lemma digest_input_inject: "digest_input c k = digest_input c' k' \<longleftrightarrow> c = c' \<and> k = k'"
proof
  assume eq: "digest_input c k = digest_input c' k'"
  then have "itoa (int (length c)) @ CHR '':'' # (c @ itoa (int (length k)) @ '':'' @ k) =
      itoa (int (length c')) @ CHR '':'' # (c' @ itoa (int (length k')) @ '':'' @ k')"
    by (simp add: digest_input_def)
  from length_prefix_inject [OF this] have c: "c = c'"
    and "itoa (int (length k)) @ CHR '':'' # k = itoa (int (length k')) @ CHR '':'' # k'" by auto
  from length_prefix_inject [OF this(2)] c show "c = c' \<and> k = k'" by simp
qed simp

subsection \<open>The restart\<close>

abbreviation agent_ref :: "environ \<Rightarrow> objref" where
  "agent_ref env \<equiv> Ref KDeployment (argocd_ns env) agentDeploymentName"

abbreviation client_secret_ref :: "environ \<Rightarrow> objref" where
  "client_secret_ref env \<equiv> Ref KSecret (argocd_ns env) agent_client_secret_name"

text \<open>The revision of the certificate a Deployment was last rolled for.\<close>

definition rolled_for :: "deployment \<Rightarrow> string \<Rightarrow> bool" where
  "rolled_for d digest = (mget (dep_template_annotations d) agentCertDigestAnnotation = digest)"

lemma annotation_names_distinct: "agentCertDigestAnnotation \<noteq> agentCertRestartedAtAnnotation"
  by (simp add: agentCertDigestAnnotation_def agentCertRestartedAtAnnotation_def)

lemma patched_rolled:
  "same_content (ODeployment (patch_annotations [(agentCertDigestAnnotation, digest), (agentCertRestartedAtAnnotation, t)] d)) y \<Longrightarrow>
   \<exists>d'. y = ODeployment d' \<and> rolled_for d' digest \<and>
     (\<forall>k. k \<noteq> agentCertDigestAnnotation \<and> k \<noteq> agentCertRestartedAtAnnotation \<longrightarrow>
        map_of (dep_template_annotations d') k = map_of (dep_template_annotations d) k)"
  using annotation_names_distinct
  by (auto simp: same_content_def rolled_for_def patch_annotations_def put_all_def gomap_simps)

context kube_api
begin

lemma wp_ensureAgentRestarted:
  "wp (ensureAgentRestartedForCert C ns digest) (\<lambda>_ w'.
     only_touches view {Ref KDeployment ns agentDeploymentName} w w' \<and>
     (\<forall>d. view w (Ref KDeployment ns agentDeploymentName) = Some (ODeployment d) \<and> rolled_for d digest \<longrightarrow> view w' = view w)) w"
  (is "wp _ (\<lambda>_ w'. ?Q w') w")
  unfolding ensureAgentRestartedForCert_def wp_bind
proof (rule wp_fetch)
  fix x d w1 assume v: "view w1 = view w" "view w (Ref KDeployment ns agentDeploymentName) = Some x" "as_deployment x = Some d"
  have t: "wp (restartAgentDeployment C ns digest) (\<lambda>_. only_touches view {Ref KDeployment ns agentDeploymentName} w1) w1"
    unfolding restartAgentDeployment_def by (intro touches) simp
  show "wp (case Inr d of Inl _ \<Rightarrow> ret () | Inr d \<Rightarrow>
      if mget (dep_template_annotations d) agentCertDigestAnnotation = digest then ret ()
      else log_error (restartAgentDeployment C ns digest)) (\<lambda>_. ?Q) w1"
    using v by (auto simp: wp_simps rolled_for_def only_touches_def intro!: wp_mono [OF t])
qed (simp add: wp_simps only_touches_view)

end

context reliable_api
begin

lemma wp_restart_agent_healthy:
  assumes "healthy w" and "view w (Ref KDeployment ns agentDeploymentName) = Some (ODeployment d)"
    and "\<And>w' d'. healthy w' \<Longrightarrow> (\<And>q. q \<noteq> Ref KDeployment ns agentDeploymentName \<Longrightarrow> view w' q = view w q) \<Longrightarrow>
      view w' (Ref KDeployment ns agentDeploymentName) = Some (ODeployment d') \<Longrightarrow> rolled_for d' digest \<Longrightarrow>
      (\<forall>k. k \<noteq> agentCertDigestAnnotation \<and> k \<noteq> agentCertRestartedAtAnnotation \<longrightarrow>
        map_of (dep_template_annotations d') k = map_of (dep_template_annotations d) k) \<Longrightarrow> Q (Inr ()) w'"
  shows "wp (restartAgentDeployment C ns digest) Q w"
  unfolding restartAgentDeployment_def wp_bind
proof (rule wpI)
  fix t w1 assume "run_state (c_now_text C) w = (t, w1)"
  from now_healthy [OF assms(1) this] now_text_view [OF this] have w1: "healthy w1" "view w1 = view w" by auto
  let ?r = "Ref KDeployment ns agentDeploymentName"
  let ?kvs = "[(agentCertDigestAnnotation, digest), (agentCertRestartedAtAnnotation, t)]"
  show "wp (c_patch C ?r (annotations_patch ?kvs)) Q w1"
  proof (rule wpI)
    fix a w2 assume run: "run_state (c_patch C ?r (annotations_patch ?kvs)) w1 = (a, w2)"
    have "view w1 ?r \<noteq> None" using assms(2) w1 by simp
    from patch_healthy [OF w1(1) this run] have h: "healthy w2" "a = Inr ()" by auto
    from patch_ok [OF run [unfolded h(2)]] assms(2) w1(2)
    have frame: "\<And>q. q \<noteq> ?r \<Longrightarrow> view w2 q = view w q"
      and "\<exists>y. view w2 ?r = Some y \<and> same_content (ODeployment (patch_annotations ?kvs d)) y" by auto
    then obtain y where "view w2 ?r = Some y" "same_content (ODeployment (patch_annotations ?kvs d)) y" by blast
    with patched_rolled [OF this(2)] show "Q a w2" unfolding h(2)
      by (elim exE conjE) (rule assms(3) [OF h(1) frame], simp_all)
  qed
qed

lemma wp_ensureAgentRestarted_healthy:
  assumes "healthy w"
  shows "wp (ensureAgentRestartedForCert C ns digest) (\<lambda>_ w'. healthy w' \<and>
     (\<forall>q. q \<noteq> Ref KDeployment ns agentDeploymentName \<longrightarrow> view w' q = view w q) \<and>
     (\<forall>d. view w (Ref KDeployment ns agentDeploymentName) = Some (ODeployment d) \<longrightarrow>
        (\<exists>d'. view w' (Ref KDeployment ns agentDeploymentName) = Some (ODeployment d') \<and> rolled_for d' digest \<and>
           (\<forall>k. k \<noteq> agentCertDigestAnnotation \<and> k \<noteq> agentCertRestartedAtAnnotation \<longrightarrow>
              map_of (dep_template_annotations d') k = map_of (dep_template_annotations d) k)))) w"
  (is "wp _ (\<lambda>_ w'. ?Q w') w")
  unfolding ensureAgentRestartedForCert_def wp_bind
proof (rule wp_fetch_healthy [OF assms])
  fix x d w1 assume v: "healthy w1" "view w1 = view w" "view w (Ref KDeployment ns agentDeploymentName) = Some x"
    "as_deployment x = Some d"
  then have d: "view w1 (Ref KDeployment ns agentDeploymentName) = Some (ODeployment d)" by simp
  have restart: "wp (restartAgentDeployment C ns digest) (\<lambda>_. ?Q) w1"
    by (rule wp_restart_agent_healthy [OF v(1) d]) (use v d in simp)
  show "wp (case Inr d of Inl _ \<Rightarrow> ret () | Inr d \<Rightarrow>
      if mget (dep_template_annotations d) agentCertDigestAnnotation = digest then ret ()
      else log_error (restartAgentDeployment C ns digest)) (\<lambda>_. ?Q) w1"
    using v d restart by (auto simp: wp_simps rolled_for_def)
next
  fix x assume "view w (Ref KDeployment ns agentDeploymentName) = Some x"
  from kind_of_view [OF this] show "\<exists>y. as_deployment x = Some y" by (cases x) auto
qed (simp add: wp_simps)

end

subsection \<open>The copy\<close>

text \<open>What is stored: the key pair, as a TLS Secret managed by the addon.\<close>

definition holds_key_pair :: "string \<Rightarrow> string \<Rightarrow> kobj \<Rightarrow> bool" where
  "holds_key_pair crt key x = (\<exists>s. x = OSecret s \<and> sec_data s = [(''tls.crt'', crt), (''tls.key'', key)] \<and>
     sec_type s = ''kubernetes.io/tls'' \<and> map_of (m_labels (sec_meta s)) (fst addon_managed_by) = Some (snd addon_managed_by) \<and>
     sec_string_data s = [] \<and> m_deletion (sec_meta s) = None)"

lemma new_secret_holds:
  "same_content (admit (OSecret (new_client_secret ns crt key))) y \<Longrightarrow> holds_key_pair crt key y"
  by (auto simp: same_content_def holds_key_pair_def new_client_secret_def put_all_def addon_managed_by_def)

lemma renewed_secret_holds:
  assumes "same_content (keep_status old (admit (OSecret (renewed_client_secret s crt key)))) y" "m_deletion (sec_meta s) = None" "sec_string_data s = []"
  shows "holds_key_pair crt key y"
  using assms by (cases old) (auto simp: same_content_def holds_key_pair_def renewed_client_secret_def put_all_def gomap_simps)

text \<open>A Secret that can be written: not on its way out, and read back without \<open>stringData\<close>.\<close>

definition plain_secret :: "kobj \<Rightarrow> bool" where
  "plain_secret x = (\<forall>s. x = OSecret s \<longrightarrow> m_deletion (sec_meta s) = None \<and> sec_string_data s = [])"

lemma renewed_secret_sel [simp]:
  "m_deletion (sec_meta (renewed_client_secret s crt key)) = m_deletion (sec_meta s)"
  "m_name (sec_meta (renewed_client_secret s crt key)) = m_name (sec_meta s)"
  "m_namespace (sec_meta (renewed_client_secret s crt key)) = m_namespace (sec_meta s)"
  by (simp_all add: renewed_client_secret_def)

lemma new_secret_ref [simp]: "ref_of (OSecret (new_client_secret ns crt key)) = Ref KSecret ns agent_client_secret_name"
  by (simp add: new_client_secret_def)

lemma agent_client_secret_name_ne: "agent_client_secret_name \<noteq> ''''"
  by (simp add: agent_client_secret_name_def)

context kube_api
begin

lemma wp_store_client_secret:
  assumes "\<forall>x. view w (Ref KSecret ns agent_client_secret_name) = Some x \<longrightarrow> plain_secret x"
  shows "wp (store_client_secret C ns crt key) (\<lambda>r w'.
     (\<forall>q. q \<noteq> Ref KSecret ns agent_client_secret_name \<longrightarrow> view w' q = view w q) \<and>
     (r = Inr () \<longrightarrow> (\<exists>x. view w' (Ref KSecret ns agent_client_secret_name) = Some x \<and> holds_key_pair crt key x))) w"
  (is "wp _ ?Q w")
  unfolding store_client_secret_def wp_bind
proof (rule wp_fetch, goal_cases)
  case (1 x s w1)
  then have x: "x = OSecret s" and del: "m_deletion (sec_meta s) = None" "sec_string_data s = []"
    using assms by (auto simp: plain_secret_def)
  have ref: "ref_of (OSecret (renewed_client_secret s crt key)) = Ref KSecret ns agent_client_secret_name"
    using 1(3) x by simp
  have "wp (update C (OSecret (renewed_client_secret s crt key))) ?Q w1"
    by (rule wp_update_unit)
      (auto simp: ref 1(1) del simp del: ref_of_simps admit.simps keep_status.simps dest!: renewed_secret_holds [OF _ del])
  then show ?case by simp
next
  case (2 e w1)
  have "wp (create C (OSecret (new_client_secret ns crt key))) ?Q w1"
    by (rule wp_create_unit) (auto simp: 2(1) simp del: ref_of_simps admit.simps dest!: new_secret_holds)
  then show ?case using 2(1) by (simp add: wp_simps)
qed

end

text \<open>The frame holds whatever the Secret looks like.\<close>

context kube_api
begin

lemma wp_store_touches: "wp (store_client_secret C ns crt key) (\<lambda>_. only_touches view {Ref KSecret ns agent_client_secret_name} w) w"
  unfolding store_client_secret_def wp_bind
proof (rule wp_fetch, goal_cases)
  case v: (1 x s w1)
  then have "ref_of (OSecret (renewed_client_secret s crt key)) = Ref KSecret ns agent_client_secret_name" by auto
  then have "wp (update C (OSecret (renewed_client_secret s crt key))) (\<lambda>_. only_touches view {Ref KSecret ns agent_client_secret_name} w1) w1"
    by (intro touches) (simp del: ref_of_simps)
  then show ?case using v(1) by (auto simp: only_touches_def elim!: wp_mono)
next
  case v: (2 e w1)
  have "wp (create C (OSecret (new_client_secret ns crt key))) (\<lambda>_. only_touches view {Ref KSecret ns agent_client_secret_name} w1) w1"
    by (intro touches) (simp del: ref_of_simps add: new_secret_ref)
  then show ?case using v(1) by (auto simp: only_touches_def wp_ret elim!: wp_mono)
qed

lemma wp_copy_touches: "wp (copyClientCertificate C env sha) (\<lambda>_. only_touches view {client_secret_ref env, agent_ref env} w) w"
proof -
  let ?S = "{client_secret_ref env, agent_ref env}"
  have store: "wp (store_client_secret C (argocd_ns env) crt key) (\<lambda>_. only_touches view ?S w1) w1" for crt key w1
    by (rule wp_mono [OF wp_store_touches]) (erule only_touches_mono, simp)
  have restart: "wp (ensureAgentRestartedForCert C (argocd_ns env) d) (\<lambda>_. only_touches view ?S w1) w1" for d w1
    by (rule wp_mono [OF wp_ensureAgentRestarted], elim conjE) (erule only_touches_mono, simp)
  show ?thesis
    unfolding copyClientCertificate_def Let_def split_def
    by (intro touches store restart)
qed

end

context reliable_api
begin

lemma wp_store_client_secret_healthy:
  assumes "healthy w"
  shows "wp (store_client_secret C ns crt key) (\<lambda>r w'. healthy w' \<and> r = Inr ()) w"
  unfolding store_client_secret_def wp_bind
proof (rule wp_fetch_healthy [OF assms])
  fix x s w1 assume v: "healthy w1" "view w1 = view w" "view w (Ref KSecret ns agent_client_secret_name) = Some x" "as_secret x = Some s"
    "ref_of x = Ref KSecret ns agent_client_secret_name"
  then have "view w1 (ref_of (OSecret (renewed_client_secret s crt key))) \<noteq> None" by auto
  then have "wp (update C (OSecret (renewed_client_secret s crt key))) (\<lambda>r w'. healthy w' \<and> r = Inr ()) w1"
    by (rule wp_update_healthy [OF v(1)]) simp
  then show "wp (case Inr s of Inl e \<Rightarrow> if is_not_found e then create C (OSecret (new_client_secret ns crt key))
       else ret (Inl (Wrapped ''failed to check existing secret'' e))
     | Inr s \<Rightarrow> update C (OSecret (renewed_client_secret s crt key))) (\<lambda>r w'. healthy w' \<and> r = Inr ()) w1" by simp
next
  fix e w1 assume v: "healthy w1" "view w1 = view w" "view w (Ref KSecret ns agent_client_secret_name) = None" "is_not_found e"
  have "wp (create C (OSecret (new_client_secret ns crt key))) (\<lambda>r w'. healthy w' \<and> r = Inr ()) w1"
    by (rule wp_create_healthy [OF v(1)])
      (use v agent_client_secret_name_ne in \<open>simp_all add: new_client_secret_def\<close>)
  with v(4) show "wp (case Inl e of Inl e \<Rightarrow> if is_not_found e then create C (OSecret (new_client_secret ns crt key))
       else ret (Inl (Wrapped ''failed to check existing secret'' e))
     | Inr s \<Rightarrow> update C (OSecret (renewed_client_secret s crt key))) (\<lambda>r w'. healthy w' \<and> r = Inr ()) w1" by simp
next
  fix x assume "view w (Ref KSecret ns agent_client_secret_name) = Some x"
  from kind_of_view [OF this] show "\<exists>y. as_secret x = Some y" by (cases x) auto
qed

end

section \<open>The certificate of the agent\<close>

text \<open>The key pair the addon framework has issued.\<close>

definition issued_pair :: "('w \<Rightarrow> objref \<Rightarrow> kobj option) \<Rightarrow> 'w \<Rightarrow> string \<Rightarrow> string \<Rightarrow> bool" where
  "issued_pair view w crt key = (\<exists>s. view w source_secret_ref = Some (OSecret s) \<and>
     map_of (sec_data s) ''tls.crt'' = Some crt \<and> map_of (sec_data s) ''tls.key'' = Some key)"

lemma client_refs_distinct: "client_secret_ref env \<noteq> agent_ref env" "source_secret_ref \<noteq> agent_ref env"
    "source_secret_ref \<noteq> client_secret_ref env"
  by (simp_all add: source_secret_ref_def agent_client_secret_name_def)

definition copy_post :: "('w \<Rightarrow> objref \<Rightarrow> kobj option) \<Rightarrow> environ \<Rightarrow> (string \<Rightarrow> string) \<Rightarrow> 'w \<Rightarrow> unit result \<Rightarrow> 'w \<Rightarrow> bool" where
  "copy_post view env sha w r w' = (only_touches view {client_secret_ref env, agent_ref env} w w' \<and>
     (\<forall>crt key. issued_pair view w crt key \<and> r = Inr () \<longrightarrow>
        (\<exists>x. view w' (client_secret_ref env) = Some x \<and> holds_key_pair crt key x)) \<and>
     (view w' (agent_ref env) \<noteq> view w (agent_ref env) \<longrightarrow> r = Inr () \<and>
        (\<exists>crt key. issued_pair view w crt key \<and>
          (\<forall>d. view w (agent_ref env) = Some (ODeployment d) \<longrightarrow> \<not> rolled_for d (agentCertDigest sha crt key)))))"

context kube_api
begin

lemma wp_store_and_restart:
  assumes "issued_pair view w crt key" and "\<forall>x. view w (client_secret_ref env) = Some x \<longrightarrow> plain_secret x"
  shows "wp (bindE (store_client_secret C (argocd_ns env) crt key) (\<lambda>_. do {
       _ \<leftarrow> ensureAgentRestartedForCert C (argocd_ns env) (agentCertDigest sha crt key); ret (Inr ()) })) (copy_post view env sha w) w"
proof (rule wp_bindE_rule [OF wp_store_client_secret [OF assms(2)]])
  fix e :: go_error and w1 assume "(\<forall>q. q \<noteq> client_secret_ref env \<longrightarrow> view w1 q = view w q) \<and> (Inl e = Inr () \<longrightarrow>
    (\<exists>x. view w1 (client_secret_ref env) = Some x \<and> holds_key_pair crt key x))"
  then show "copy_post view env sha w (Inl e) w1"
    using client_refs_distinct [of env] by (simp add: copy_post_def only_touches_def)
next
  fix u :: unit and w1 assume "(\<forall>q. q \<noteq> client_secret_ref env \<longrightarrow> view w1 q = view w q) \<and> ((Inr u :: unit result) = Inr () \<longrightarrow>
    (\<exists>x. view w1 (client_secret_ref env) = Some x \<and> holds_key_pair crt key x))"
  then have w1: "\<forall>q. q \<noteq> client_secret_ref env \<longrightarrow> view w1 q = view w q"
    "\<exists>x. view w1 (client_secret_ref env) = Some x \<and> holds_key_pair crt key x" by simp_all
  have pair: "c = crt \<and> k = key" if "issued_pair view w c k" for c k
    using that assms(1) by (auto simp: issued_pair_def)
  have agent: "view w1 (agent_ref env) = view w (agent_ref env)" using w1 client_refs_distinct [of env] by simp
  show "wp (do { _ \<leftarrow> ensureAgentRestartedForCert C (argocd_ns env) (agentCertDigest sha crt key); ret (Inr ()) })
     (copy_post view env sha w) w1"
    unfolding wp_bind wp_ret
  proof (rule wp_mono [OF wp_ensureAgentRestarted], elim conjE)
    fix a :: unit and w2
    assume t: "only_touches view {agent_ref env} w1 w2"
      and same: "\<forall>d. view w1 (agent_ref env) = Some (ODeployment d) \<and> rolled_for d (agentCertDigest sha crt key) \<longrightarrow> view w2 = view w1"
    have "only_touches view {client_secret_ref env, agent_ref env} w w2"
      using t w1 by (simp add: only_touches_def)
    moreover have "view w2 (client_secret_ref env) = view w1 (client_secret_ref env)"
      using t client_refs_distinct [of env] by (simp add: only_touches_def)
    moreover have "\<not> rolled_for d (agentCertDigest sha crt key)"
      if "view w2 (agent_ref env) \<noteq> view w (agent_ref env)" "view w (agent_ref env) = Some (ODeployment d)" for d
    proof
      assume "rolled_for d (agentCertDigest sha crt key)"
      with same agent that(2) have "view w2 = view w1" by simp
      with agent that(1) show False by simp
    qed
    ultimately show "copy_post view env sha w (Inr ()) w2"
      using w1 pair assms(1) unfolding copy_post_def by metis
  qed
qed

lemma wp_copyClientCertificate:
  assumes "\<forall>x. view w (client_secret_ref env) = Some x \<longrightarrow> plain_secret x"
  shows "wp (copyClientCertificate C env sha) (copy_post view env sha w) w"
  unfolding copyClientCertificate_def Let_def split_def wp_bind
proof (rule wp_fetch, goal_cases)
  case v: (1 x s w1)
  then have src: "view w source_secret_ref = Some (OSecret s)" by simp
  have eq: "copy_post view env sha w = copy_post view env sha w1" "issued_pair view w1 = issued_pair view w"
    by (simp_all add: copy_post_def issued_pair_def only_touches_def v(1) fun_eq_iff)
  show ?case
  proof (cases "map_of (sec_data s) ''tls.crt'' = None \<or> map_of (sec_data s) ''tls.key'' = None")
    case True
    then show ?thesis
      by (auto simp: wp_ret copy_post_def only_touches_view v(1) issued_pair_def src split: option.split)
  next
    case False
    then obtain crt key where pair: "map_of (sec_data s) ''tls.crt'' = Some crt" "map_of (sec_data s) ''tls.key'' = Some key"
      by auto
    then have "issued_pair view w1 crt key" using src v(1) by (simp add: issued_pair_def)
    from wp_store_and_restart [OF this] assms v(1) show ?thesis unfolding eq(1) by (simp add: pair)
  qed
qed (auto simp: wp_simps copy_post_def issued_pair_def only_touches_view)

end

text \<open>
  C17: copyClientCertificate touches the client certificate Secret and the agent Deployment only,
  stores the issued key pair when it succeeds, and rolls the agent only in a run that succeeds,
  with an issued key pair, and only when the Deployment is not already recorded as rolled for this
  pair. A client certificate Secret that exists is not already being deleted (and has no
  stringData, which the server never returns).
\<close>

theorem agent_rolled_only_for_new_certificate:
  assumes "kube_api C view" and "\<forall>x. view w (client_secret_ref env) = Some x \<longrightarrow> plain_secret x"
    and "run_state (copyClientCertificate C env sha) w = (r, w')"
  shows "(\<forall>q. q \<notin> {client_secret_ref env, agent_ref env} \<longrightarrow> view w' q = view w q) \<and>
     (\<forall>crt key. issued_pair view w crt key \<and> r = Inr () \<longrightarrow>
        (\<exists>x. view w' (client_secret_ref env) = Some x \<and> holds_key_pair crt key x)) \<and>
     (view w' (agent_ref env) \<noteq> view w (agent_ref env) \<longrightarrow> r = Inr () \<and>
        (\<exists>crt key. issued_pair view w crt key \<and>
          (\<forall>d. view w (agent_ref env) = Some (ODeployment d) \<longrightarrow> \<not> rolled_for d (agentCertDigest sha crt key))))"
  using wp_run [OF kube_api.wp_copyClientCertificate [OF assms(1,2)] assms(3)] unfolding copy_post_def only_touches_def .

definition example_env :: environ where
  "example_env = (\<lambda>_. '''')"

definition example_sha :: "string \<Rightarrow> string" where
  "example_sha s = ''sum of '' @ s"

definition example_agent :: "string \<Rightarrow> deployment" where
  "example_agent digest = \<lparr>dep_meta = new_meta agentDeploymentName ''argocd'',
     dep_template_annotations = [(agentCertDigestAnnotation, digest), (''team'', ''a'')]\<rparr>"

definition example_issued :: secret where
  "example_issued = \<lparr>sec_meta = new_meta (ref_name source_secret_ref) (ref_ns source_secret_ref), sec_type = ''Opaque'',
     sec_data = [(''tls.crt'', ''CERT''), (''tls.key'', ''KEY'')], sec_string_data = []\<rparr>"

definition example_agent_world :: "string \<Rightarrow> mem" where
  "example_agent_world digest = mem_of [OSecret example_issued, ODeployment (example_agent digest)]"

theorem agent_rolled_only_for_new_certificate_witness:
  "\<exists>x. mem_view (snd (run_state (copyClientCertificate mem_client example_env example_sha)
       (example_agent_world (agentCertDigest example_sha ''CERT'' ''KEY'')))) (client_secret_ref example_env) = Some x \<and>
     holds_key_pair ''CERT'' ''KEY'' x"
proof -
  let ?w = "example_agent_world (agentCertDigest example_sha ''CERT'' ''KEY'')"
  let ?run = "run_state (copyClientCertificate mem_client example_env example_sha) ?w"
  have none: "mem_view ?w (client_secret_ref example_env) = None" by code_simp
  then have new: "\<forall>x. mem_view ?w (client_secret_ref example_env) = Some x \<longrightarrow> plain_secret x" by simp
  have ok: "fst ?run = Inr ()" by code_simp
  have src: "mem_view ?w source_secret_ref = Some (OSecret example_issued)" by code_simp
  have pair: "map_of (sec_data example_issued) ''tls.crt'' = Some ''CERT''" "map_of (sec_data example_issued) ''tls.key'' = Some ''KEY''"
    by (simp_all add: example_issued_def)
  have issued: "issued_pair mem_view ?w ''CERT'' ''KEY''" using src pair by (auto simp: issued_pair_def)
  have run: "run_state (copyClientCertificate mem_client example_env example_sha) ?w = (fst ?run, snd ?run)" by simp
  note post = agent_rolled_only_for_new_certificate [OF mem_kube_api, OF new, OF run]
  show ?thesis using conjunct1 [OF conjunct2 [OF post]] ok issued by blast
qed

context reliable_api
begin

lemma wp_copyClientCertificate_healthy:
  assumes "healthy w" and "issued_pair view w crt key" and "\<forall>x. view w (client_secret_ref env) = Some x \<longrightarrow> plain_secret x"
  shows "wp (copyClientCertificate C env sha) (\<lambda>r w'. healthy w' \<and> r = Inr () \<and>
     (\<forall>d. view w (agent_ref env) = Some (ODeployment d) \<longrightarrow>
        (\<exists>d'. view w' (agent_ref env) = Some (ODeployment d') \<and> rolled_for d' (agentCertDigest sha crt key) \<and>
           (\<forall>k. k \<noteq> agentCertDigestAnnotation \<and> k \<noteq> agentCertRestartedAtAnnotation \<longrightarrow>
              map_of (dep_template_annotations d') k = map_of (dep_template_annotations d) k)))) w"
  (is "wp _ ?Q w")
proof -
  from assms(2) obtain s where s: "view w source_secret_ref = Some (OSecret s)"
    "map_of (sec_data s) ''tls.crt'' = Some crt" "map_of (sec_data s) ''tls.key'' = Some key"
    by (auto simp: issued_pair_def)
  have store: "wp (bindE (store_client_secret C (argocd_ns env) crt key) (\<lambda>_. do {
       _ \<leftarrow> ensureAgentRestartedForCert C (argocd_ns env) (agentCertDigest sha crt key); ret (Inr ()) })) ?Q w1"
    if w1: "healthy w1" "view w1 = view w" for w1
  proof (rule wp_bindE_rule)
    show "wp (store_client_secret C (argocd_ns env) crt key) (\<lambda>r w'. (healthy w' \<and> r = Inr ()) \<and>
        only_touches view {client_secret_ref env} w1 w') w1"
      by (rule wp_mono [OF wp_conj [OF wp_store_client_secret_healthy [OF w1(1)] wp_store_client_secret]])
        (use w1 assms(3) in \<open>auto simp: only_touches_def\<close>)
  next
    fix u w2 assume "(healthy w2 \<and> (Inr u :: unit result) = Inr ()) \<and> only_touches view {client_secret_ref env} w1 w2"
    then have w2: "healthy w2" "view w2 (agent_ref env) = view w (agent_ref env)"
      using client_refs_distinct [of env] w1 by (auto simp: only_touches_def)
    show "wp (do { _ \<leftarrow> ensureAgentRestartedForCert C (argocd_ns env) (agentCertDigest sha crt key); ret (Inr ()) }) ?Q w2"
      unfolding wp_bind wp_ret by (rule wp_mono [OF wp_ensureAgentRestarted_healthy [OF w2(1)]]) (use w2(2) in auto)
  qed auto
  show ?thesis
    unfolding copyClientCertificate_def Let_def split_def wp_bind
  proof (rule wp_fetch_healthy [OF assms(1)], goal_cases)
    case v: (1 x s' w1)
    with s have "s' = s" by simp
    with store [OF v(1,2)] s show ?case by simp
  qed (use s in auto)
qed

end

text \<open>
  C16: The restart is level-triggered: with an API server that answers, whatever earlier runs did
  or missed, a run that finds an issued key pair succeeds and ends with the Deployment of the
  agent recorded as rolled for that pair, its other annotations as they were; and a run after it
  does not roll the agent again. A client certificate Secret that exists is not already being
  deleted (and has no stringData, which the server never returns).
\<close>

theorem agent_converges_on_certificate:
  assumes "reliable_api C view healthy" and "healthy w" and "\<forall>x. view w (client_secret_ref env) = Some x \<longrightarrow> plain_secret x"
    and "issued_pair view w crt key" and "view w (agent_ref env) = Some (ODeployment d)"
    and "run_state (copyClientCertificate C env sha) w = (r, w1)" and "run_state (copyClientCertificate C env sha) w1 = (r', w2)"
  shows "r = Inr () \<and> (\<exists>d'. view w1 (agent_ref env) = Some (ODeployment d') \<and> rolled_for d' (agentCertDigest sha crt key) \<and>
       (\<forall>k. k \<noteq> agentCertDigestAnnotation \<and> k \<noteq> agentCertRestartedAtAnnotation \<longrightarrow>
          map_of (dep_template_annotations d') k = map_of (dep_template_annotations d) k)) \<and>
     view w2 (agent_ref env) = view w1 (agent_ref env)"
proof -
  have api: "kube_api C view" using assms(1) by (rule reliable_api.axioms(1))
  have run: "r = Inr ()" "\<exists>d'. view w1 (agent_ref env) = Some (ODeployment d') \<and> rolled_for d' (agentCertDigest sha crt key) \<and>
       (\<forall>k. k \<noteq> agentCertDigestAnnotation \<and> k \<noteq> agentCertRestartedAtAnnotation \<longrightarrow>
          map_of (dep_template_annotations d') k = map_of (dep_template_annotations d) k)"
    using wp_run [OF reliable_api.wp_copyClientCertificate_healthy [OF assms(1,2,4,3)] assms(6)] assms(5) by auto
  note post = wp_run [OF kube_api.wp_copyClientCertificate [OF api assms(3)] assms(6), unfolded copy_post_def]
  from post run(1) assms(4) obtain x where x: "view w1 (client_secret_ref env) = Some x" "holds_key_pair crt key x" by blast
  have src: "view w1 source_secret_ref = view w source_secret_ref"
    using post client_refs_distinct [of env] by (simp add: only_touches_def)
  have plain: "\<forall>x. view w1 (client_secret_ref env) = Some x \<longrightarrow> plain_secret x"
    using x by (auto simp: holds_key_pair_def plain_secret_def)
  note post2 = wp_run [OF kube_api.wp_copyClientCertificate [OF api plain] assms(7), unfolded copy_post_def]
  have again: "c = crt \<and> k = key" if "issued_pair view w1 c k" for c k
    using that assms(4) src by (auto simp: issued_pair_def)
  have "view w2 (agent_ref env) = view w1 (agent_ref env)"
  proof (rule ccontr)
    assume "view w2 (agent_ref env) \<noteq> view w1 (agent_ref env)"
    with post2 again run(2) show False by metis
  qed
  with run show ?thesis by blast
qed

theorem agent_converges_on_certificate_witness:
  "let w1 = snd (run_state (copyClientCertificate mem_client example_env example_sha) (example_agent_world ''stale''));
       w2 = snd (run_state (copyClientCertificate mem_client example_env example_sha) w1)
   in (\<exists>d'. mem_view w1 (agent_ref example_env) = Some (ODeployment d') \<and>
         rolled_for d' (agentCertDigest example_sha ''CERT'' ''KEY'')) \<and>
      mem_view w2 (agent_ref example_env) = mem_view w1 (agent_ref example_env)"
proof -
  let ?w = "example_agent_world ''stale''" and ?m = "copyClientCertificate mem_client example_env example_sha"
  let ?w1 = "snd (run_state ?m ?w)"
  have h: "mem_healthy ?w" by code_simp
  have none: "mem_view ?w (client_secret_ref example_env) = None" by code_simp
  then have new: "\<forall>x. mem_view ?w (client_secret_ref example_env) = Some x \<longrightarrow> plain_secret x" by simp
  have "mem_view ?w source_secret_ref = Some (OSecret example_issued)" by code_simp
  then have issued: "issued_pair mem_view ?w ''CERT'' ''KEY''" by (auto simp: issued_pair_def example_issued_def)
  have agent: "mem_view ?w (agent_ref example_env) = Some (ODeployment (example_agent ''stale''))" by code_simp
  have runs: "run_state ?m ?w = (fst (run_state ?m ?w), ?w1)" "run_state ?m ?w1 = (fst (run_state ?m ?w1), snd (run_state ?m ?w1))"
    by simp_all
  from agent_converges_on_certificate [OF mem_reliable_api, OF h, OF new, OF issued, OF agent, OF runs]
  show ?thesis unfolding Let_def by blast
qed

text \<open>
  The text that is hashed determines the key pair: two different pairs never share a digest unless
  SHA-256 itself collides.
\<close>

theorem digest_tells_key_pairs_apart:
  "agentCertDigest sha crt key = agentCertDigest sha crt' key' \<longleftrightarrow>
     crt = crt' \<and> key = key' \<or>
     digest_input crt key \<noteq> digest_input crt' key' \<and> sha (digest_input crt key) = sha (digest_input crt' key')"
  by (auto simp: agentCertDigest_def digest_input_inject)

end
