(* ===== verification/Go_Strings.thy ===== *)
theory Go_Strings
  imports Go_Text
begin

text \<open>
  The functions of Go's \<open>strings\<close> package that the addon code cuts text with: \<open>Split\<close> on a separator,
  \<open>TrimSpace\<close> and the cut at the last colon. A string is a list of bytes, as in Go.
\<close>

section \<open>Splitting\<close>

text \<open>
  \<open>strings.Split(s, sep)\<close> for a separator that is not empty: the leftmost occurrences of the separator, which do not overlap,
  end the parts. \<open>acc\<close> is the part read so far, backwards.
\<close>

function split_from :: "string \<Rightarrow> string \<Rightarrow> string \<Rightarrow> string list" where
  "split_from sep acc s =
     (if s = [] then [rev acc]
      else if sep \<noteq> [] \<and> has_prefix s sep then rev acc # split_from sep [] (drop (length sep) s)
      else split_from sep (hd s # acc) (tl s))"
  by pat_completeness auto
termination
  by (relation "measure (\<lambda>(sep, acc, s). length s)") auto

declare split_from.simps [simp del]

definition split_on :: "string \<Rightarrow> string \<Rightarrow> string list" where
  "split_on sep s = split_from sep [] s"

fun join_with :: "string \<Rightarrow> string list \<Rightarrow> string" where
  "join_with sep [] = []"
| "join_with sep [x] = x"
| "join_with sep (x # y # xs) = x @ sep @ join_with sep (y # xs)"

lemma join_with_Cons: "xs \<noteq> [] \<Longrightarrow> join_with sep (x # xs) = x @ sep @ join_with sep xs"
  by (cases xs) auto

lemma has_prefix_drop: "has_prefix s t \<Longrightarrow> t @ drop (length t) s = s"
  unfolding has_prefix_def by (metis append_take_drop_id)

lemma split_from_ne [simp]: "split_from sep acc s \<noteq> []"
  by (induction sep acc s rule: split_from.induct) (subst split_from.simps, simp)

lemma join_split_from: "join_with sep (split_from sep acc s) = rev acc @ s"
proof (induction sep acc s rule: split_from.induct)
  case (1 sep acc s)
  show ?case
  proof (cases "s = []")
    case True
    then show ?thesis by (subst split_from.simps) simp
  next
    case False
    then show ?thesis
      using 1 by (subst split_from.simps) (auto simp: join_with_Cons has_prefix_drop)
  qed
qed

text \<open>Splitting loses nothing.\<close>

lemma join_split_on: "join_with sep (split_on sep s) = s"
  by (simp add: split_on_def join_split_from)

lemma split_char_parts: "c \<notin> set acc \<Longrightarrow> p \<in> set (split_from [c] acc s) \<Longrightarrow> c \<notin> set p"
proof (induction "[c]" acc s rule: split_from.induct)
  case (1 acc s)
  show ?case
  proof (cases "s = []")
    case True
    with 1(3,4) show ?thesis by (simp add: split_from.simps)
  next
    case False
    then obtain x t where s: "s = x # t" by (cases s) auto
    show ?thesis
    proof (cases "x = c")
      case True
      with 1 s show ?thesis by (subst (asm) (3) split_from.simps) (auto simp: has_prefix_def)
    next
      case no: False
      with 1(4) s have "p \<in> set (split_from [c] (x # acc) t)"
        by (subst (asm) split_from.simps) (auto simp: has_prefix_def)
      with 1(2) [OF False] 1(3) s no show ?thesis by (auto simp: has_prefix_def)
    qed
  qed
qed

text \<open>Two parts: one occurrence of the separating character.\<close>

lemma split_on_two:
  assumes "split_on [c] s = [a, b]"
  shows "s = a @ c # b" "c \<notin> set a" "c \<notin> set b"
  using assms join_split_on [of "[c]" s] split_char_parts [of c "[]" _ s] by (auto simp: split_on_def)

lemma split_from_skip: "c \<notin> set a \<Longrightarrow> split_from [c] acc (a @ t) = split_from [c] (rev a @ acc) t"
proof (induction a arbitrary: acc)
  case (Cons x a)
  then have "split_from [c] acc ((x # a) @ t) = split_from [c] (x # acc) (a @ t)"
    by (subst split_from.simps) (auto simp: has_prefix_def)
  with Cons show ?case by simp
qed simp

lemma split_on_parts:
  assumes "c \<notin> set a" "c \<notin> set b"
  shows "split_on [c] (a @ c # b) = [a, b]"
proof -
  have "split_from [c] (rev b) [] = [b]" by (simp add: split_from.simps)
  with split_from_skip [OF assms(2), of "[]" "[]"] have b: "split_from [c] [] b = [b]" by simp
  have "split_from [c] (rev a) (c # b) = [a, b]"
    by (subst split_from.simps) (simp add: has_prefix_def b)
  with split_from_skip [OF assms(1), of "[]" "c # b"] show ?thesis by (simp add: split_on_def)
qed

section \<open>The last occurrence of a character\<close>

text \<open>The text before and after \<open>strings.LastIndex(s, c)\<close>; \<open>None\<close> when it is -1.\<close>

fun cut_last :: "char \<Rightarrow> string \<Rightarrow> (string \<times> string) option" where
  "cut_last c [] = None"
| "cut_last c (x # s) =
     (case cut_last c s of
        Some (a, b) \<Rightarrow> Some (x # a, b)
      | None \<Rightarrow> if x = c then Some ([], s) else None)"

lemma cut_last_None: "cut_last c s = None \<longleftrightarrow> c \<notin> set s"
  by (induction s) (auto split: option.splits)

lemma cut_last_SomeD: "cut_last c s = Some (a, b) \<Longrightarrow> s = a @ c # b \<and> c \<notin> set b"
proof (induction s arbitrary: a b)
  case (Cons x s)
  show ?case
  proof (cases "cut_last c s")
    case None
    with Cons.prems cut_last_None [of c s] show ?thesis by (simp split: if_splits)
  next
    case (Some p)
    obtain a' b' where p: "p = (a', b')" by (cases p)
    from Cons.IH [OF Some [unfolded p]] Cons.prems Some p show ?thesis by auto
  qed
qed simp

lemma cut_last_append: "c \<notin> set b \<Longrightarrow> cut_last c (a @ c # b) = Some (a, b)"
  by (induction a) (simp_all add: cut_last_None [THEN iffD2])

section \<open>White space\<close>

text \<open>The characters of \<open>unicode.IsSpace\<close> in UTF-8: ASCII white space, U+0085, U+00A0 and the Unicode spaces.\<close>

definition space_codes :: "string list" where
  "space_codes = [
     [CHR 0x09], [CHR 0x0A], [CHR 0x0B], [CHR 0x0C], [CHR 0x0D], [CHR 0x20], [CHR 0xC2, CHR 0x85],
     [CHR 0xC2, CHR 0xA0], [CHR 0xE1, CHR 0x9A, CHR 0x80], [CHR 0xE2, CHR 0x80, CHR 0x80],
     [CHR 0xE2, CHR 0x80, CHR 0x81], [CHR 0xE2, CHR 0x80, CHR 0x82], [CHR 0xE2, CHR 0x80, CHR 0x83],
     [CHR 0xE2, CHR 0x80, CHR 0x84], [CHR 0xE2, CHR 0x80, CHR 0x85], [CHR 0xE2, CHR 0x80, CHR 0x86],
     [CHR 0xE2, CHR 0x80, CHR 0x87], [CHR 0xE2, CHR 0x80, CHR 0x88], [CHR 0xE2, CHR 0x80, CHR 0x89],
     [CHR 0xE2, CHR 0x80, CHR 0x8A], [CHR 0xE2, CHR 0x80, CHR 0xA8], [CHR 0xE2, CHR 0x80, CHR 0xA9],
     [CHR 0xE2, CHR 0x80, CHR 0xAF], [CHR 0xE2, CHR 0x81, CHR 0x9F], [CHR 0xE3, CHR 0x80, CHR 0x80]]"

text \<open>Dropping the codes a text starts with.\<close>

function strip_codes :: "string list \<Rightarrow> string \<Rightarrow> string" where
  "strip_codes codes s = (case find (\<lambda>c. c \<noteq> [] \<and> has_prefix s c) codes of
       None \<Rightarrow> s
     | Some c \<Rightarrow> strip_codes codes (drop (length c) s))"
  by pat_completeness auto
termination
proof (relation "measure (\<lambda>(codes, s). length s)", simp)
  fix codes s c assume "find (\<lambda>c. c \<noteq> [] \<and> has_prefix s c) codes = Some c"
  then have "c \<noteq> []" "has_prefix s c" by (auto simp: find_Some_iff)
  then have "0 < length c" "length c \<le> length s" by (auto simp: has_prefix_def dest: arg_cong [where f = length])
  then have "length s - length c < length s" by linarith
  then show "((codes, drop (length c) s), codes, s) \<in> measure (\<lambda>(codes, s). length s)" by simp
qed

declare strip_codes.simps [simp del]

text \<open>From the right, the encodings are read backwards.\<close>

definition trim_space :: "string \<Rightarrow> string" where
  "trim_space s = rev (strip_codes (map rev space_codes) (rev (strip_codes space_codes s)))"

end
