(* ===== verification/Addon_Chart.thy ===== *)
theory Addon_Chart
  imports Addon_Certificate Go_Strings Run_Frames
begin

text \<open>
  \<open>internal/addon/addon_utils.go\<close> and \<open>ParseImageReference\<close> of \<open>addon_install.go\<close>: rendering the embedded Helm
  chart of the Argo CD operator and applying its manifests. Helm, the YAML decoder, the discovery client and the
  operating system are the record \<open>chart_lib\<close>. The embedded files are a tree.
\<close>

section \<open>Image references\<close>

text \<open>The repository and the tag or digest. The error result of the function is always nil.\<close>

definition ParseImageReference :: "string \<Rightarrow> (string \<times> string) result" where
  "ParseImageReference imageRef =
     (case split_on ''@'' imageRef of
        [repository, digest] \<Rightarrow> Inr (repository, digest)
      | _ \<Rightarrow>
          (case cut_last (CHR '':'') imageRef of
             Some (repository, tag) \<Rightarrow>
               if CHR ''/'' \<notin> set tag then Inr (repository, tag) else Inr (imageRef, ''latest'')
           | None \<Rightarrow> Inr (imageRef, ''latest'')))"

section \<open>What the code calls\<close>

text \<open>The embedded files: a directory lists its entries in the order of their names.\<close>

datatype entry = File string string | Dir string "entry list"

fun entry_name :: "entry \<Rightarrow> string" where
  "entry_name (File name _) = name"
| "entry_name (Dir name _) = name"

fun open_entry :: "string list \<Rightarrow> entry list \<Rightarrow> entry option" where
  "open_entry [] es = None"
| "open_entry [name] es = find (\<lambda>e. entry_name e = name) es"
| "open_entry (name # names) es =
     (case find (\<lambda>e. entry_name e = name) es of
        Some (Dir _ sub) \<Rightarrow> open_entry names sub
      | _ \<Rightarrow> None)"

definition no_file :: go_error where
  "no_file = Plain ''file does not exist''"

definition read_dir :: "entry list \<Rightarrow> string \<Rightarrow> entry list result" where
  "read_dir fs path = (case open_entry (split_on ''/'' path) fs of
     Some (Dir _ entries) \<Rightarrow> Inr entries
   | _ \<Rightarrow> Inl no_file)"

definition read_file :: "entry list \<Rightarrow> string \<Rightarrow> string result" where
  "read_file fs path = (case open_entry (split_on ''/'' path) fs of
     Some (File _ data) \<Rightarrow> Inr data
   | _ \<Rightarrow> Inl no_file)"

text \<open>
  \<open>cl_yaml\<close> decodes a document into an \<open>Unstructured\<close>, \<open>cl_yaml_crd\<close> into a CustomResourceDefinition (with the
  kind the document names), \<open>cl_decode\<close> is the object the API server makes of an \<open>Unstructured\<close> it is sent.
\<close>

record ('w, 'c, 'v) chart_lib =
  cl_files :: "entry list"
  cl_mkdir_temp :: "('w, string result) state"
  cl_mkdir_all :: "string \<Rightarrow> ('w, unit result) state"
  cl_write_file :: "string \<Rightarrow> string \<Rightarrow> ('w, unit result) state"
  cl_remove_all :: "string \<Rightarrow> ('w, unit) state"
  cl_load :: "string \<Rightarrow> ('w, 'c result) state"
  cl_render_values :: "'c \<Rightarrow> fields \<Rightarrow> string \<Rightarrow> string \<Rightarrow> 'v result"
  cl_render :: "'c \<Rightarrow> 'v \<Rightarrow> (string \<times> string) list result"
  cl_yaml :: "string \<Rightarrow> unstructured option"
  cl_yaml_crd :: "string \<Rightarrow> unstructured option"
  cl_decode :: "unstructured \<Rightarrow> kobj"
  cl_discovery :: "unit result"
  cl_resources :: "string \<Rightarrow> ('w, string list result) state"

text \<open>
  What is relied on: none of it changes the objects of the cluster, and an object that is sent as \<open>Unstructured\<close> keeps its kind
  and its metadata.
\<close>

locale chart_api =
  fixes L :: "('w, 'c, 'v) chart_lib" and view :: "'w \<Rightarrow> objref \<Rightarrow> kobj option"
  assumes mkdir_temp_view: "run_state (cl_mkdir_temp L) w = (r1, w') \<Longrightarrow> view w' = view w"
    and mkdir_all_view: "run_state (cl_mkdir_all L p) w = (r2, w') \<Longrightarrow> view w' = view w"
    and write_file_view: "run_state (cl_write_file L p d) w = (r2, w') \<Longrightarrow> view w' = view w"
    and remove_all_view: "run_state (cl_remove_all L p) w = (r3, w') \<Longrightarrow> view w' = view w"
    and load_view: "run_state (cl_load L p) w = (r4, w') \<Longrightarrow> view w' = view w"
    and resources_view: "run_state (cl_resources L p) w = (r5, w') \<Longrightarrow> view w' = view w"
    and decode_kind: "kind_of (cl_decode L u) = kind_of_gvk (u_api_version u) (u_kind u)"
    and decode_meta: "meta_of (cl_decode L u) = u_meta u"

section \<open>The copy of the chart\<close>

definition join_path :: "string \<Rightarrow> string \<Rightarrow> string" where
  "join_path dir name = (if dir = '''' then name else dir @ ''/'' @ name)"

text \<open>Reading a listed entry again gives what was listed: the embedded files do not change.\<close>

fun copy_entries :: "('w, 'c, 'v) chart_lib \<Rightarrow> entry list \<Rightarrow> string \<Rightarrow> ('w, unit result) state" where
  "copy_entries L [] destPath = ret (Inr ())"
| "copy_entries L (File name data # entries) destPath =
     bindE (cl_write_file L (join_path destPath name) data) (\<lambda>_. copy_entries L entries destPath)"
| "copy_entries L (Dir name sub # entries) destPath =
     bindE (cl_mkdir_all L (join_path destPath name)) (\<lambda>_.
     bindE (copy_entries L sub (join_path destPath name)) (\<lambda>_. copy_entries L entries destPath))"

definition copyEmbeddedToTemp :: "('w, 'c, 'v) chart_lib \<Rightarrow> string \<Rightarrow> string \<Rightarrow> ('w, unit result) state" where
  "copyEmbeddedToTemp L srcPath destPath = bindE (ret (read_dir (cl_files L) srcPath)) (\<lambda>entries. copy_entries L entries destPath)"

section \<open>Applying a manifest\<close>

definition managed_meta :: "object_meta \<Rightarrow> object_meta" where
  "managed_meta m = m\<lparr>m_labels := put (fst addon_managed_by) (snd addon_managed_by) (m_labels m)\<rparr>"

definition manifest_ref :: "unstructured \<Rightarrow> objref" where
  "manifest_ref obj = Ref (kind_of_gvk (u_api_version obj) (u_kind obj)) (m_namespace (u_meta obj)) (m_name (u_meta obj))"

definition applyManifest :: "'w client \<Rightarrow> ('w, 'c, 'v) chart_lib \<Rightarrow> unstructured \<Rightarrow> ('w, unit result) state" where
  "applyManifest C L obj = do {
     r \<leftarrow> fetch as_any C (manifest_ref obj);
     let labelled = obj\<lparr>u_meta := managed_meta (u_meta obj)\<rparr>;
     (case r of
        Inl e \<Rightarrow> if is_not_found e then create C (cl_decode L labelled) else ret (Inl e)
      | Inr existing \<Rightarrow>
          if skip_annotated (meta_of existing) then ret (Inr ())
          else update C (cl_decode L (labelled\<lparr>u_meta := (u_meta labelled)
            \<lparr>m_resource_version := m_resource_version (meta_of existing)\<rparr>\<rparr>))) }"

section \<open>The manifests of the chart\<close>

definition doc_separator :: string where
  "doc_separator = CHR 0x0A # ''---'' @ [CHR 0x0A]"

definition yaml_docs :: "string \<Rightarrow> string list" where
  "yaml_docs content = filter (\<lambda>doc. doc \<noteq> '''') (map trim_space (split_on doc_separator content))"

definition default_namespace :: "string \<Rightarrow> string \<Rightarrow> unstructured \<Rightarrow> unstructured" where
  "default_namespace operatorNs argoCDNs obj =
     (if m_namespace (u_meta obj) = '''' \<and> u_kind obj \<noteq> ''Namespace'' \<and> u_kind obj \<noteq> ''ClusterRole'' \<and>
         u_kind obj \<noteq> ''ClusterRoleBinding''
      then obj\<lparr>u_meta := (u_meta obj)\<lparr>m_namespace :=
        if u_kind obj = ''ArgoCD'' then argoCDNs else operatorNs\<rparr>\<rparr>
      else obj)"

definition chart_object :: "('w, 'c, 'v) chart_lib \<Rightarrow> string \<Rightarrow> string \<Rightarrow> string \<Rightarrow> unstructured option" where
  "chart_object L operatorNs argoCDNs doc =
     (case cl_yaml L doc of
        None \<Rightarrow> None
      | Some obj \<Rightarrow>
          if u_kind obj = '''' \<or> m_name (u_meta obj) = '''' then None
          else Some (default_namespace operatorNs argoCDNs obj))"

definition file_objects :: "('w, 'c, 'v) chart_lib \<Rightarrow> string \<Rightarrow> string \<Rightarrow> string \<times> string \<Rightarrow> unstructured list" where
  "file_objects L operatorNs argoCDNs = (\<lambda>(name, content).
     if trim_space content = '''' \<or> has_suffix name ''NOTES.txt'' then []
     else List.map_filter (chart_object L operatorNs argoCDNs) (yaml_docs content))"

definition chart_objects :: "('w, 'c, 'v) chart_lib \<Rightarrow> string \<Rightarrow> string \<Rightarrow> (string \<times> string) list \<Rightarrow> unstructured list" where
  "chart_objects L operatorNs argoCDNs files =
     concat (map (file_objects L operatorNs argoCDNs) files)"

text \<open>\<open>fmt.Errorf("p: %v", err)\<close>, which keeps the text of the error only.\<close>

definition printE :: "string \<Rightarrow> 'a result \<Rightarrow> 'a result" where
  "printE p r = (case r of Inl e \<Rightarrow> Inl (Plain (p @ '': '' @ error_text e)) | Inr x \<Rightarrow> Inr x)"

definition chart_values :: "string \<Rightarrow> string \<Rightarrow> string \<times> string \<Rightarrow> fields" where
  "chart_values operatorNs argoCDNs = (\<lambda>(operatorImageRepo, operatorImageTag).
     [(''global'', JObj [(''argoCDOperatorNamespace'', JStr operatorNs), (''argoCDNamespace'', JStr argoCDNs)]),
      (''operatorImage'', JStr operatorImageRepo), (''operatorImageTag'', JStr operatorImageTag)])"

definition render_chart :: "('w, 'c, 'v) chart_lib \<Rightarrow> string \<Rightarrow> string \<Rightarrow> string \<Rightarrow> string \<Rightarrow> string \<Rightarrow> string \<Rightarrow>
    ('w, (string \<times> string) list result) state" where
  "render_chart L operatorImage tempDir chartPath operatorNs argoCDNs releaseName =
     bindE (do { r \<leftarrow> copyEmbeddedToTemp L chartPath tempDir; ret (printE ''failed to copy files'' r) }) (\<lambda>_.
     bindE (do { r \<leftarrow> cl_load L tempDir; ret (printE ''failed to load chart'' r) }) (\<lambda>chart.
     bindE (ret (wrap_result ''failed to parse operator image'' (ParseImageReference operatorImage))) (\<lambda>img.
     bindE (ret (printE ''failed to prepare chart values''
       (cl_render_values L chart (chart_values operatorNs argoCDNs img) releaseName operatorNs))) (\<lambda>vals.
     ret (printE ''failed to render chart templates'' (cl_render L chart vals))))))"

text \<open>A manifest that cannot be applied is logged; the others are still applied. The directory goes in any case.\<close>

definition templateAndApplyChart :: "'w client \<Rightarrow> ('w, 'c, 'v) chart_lib \<Rightarrow> string \<Rightarrow> string \<Rightarrow> string \<Rightarrow> string \<Rightarrow> string \<Rightarrow>
    ('w, unit result) state" where
  "templateAndApplyChart C L operatorImage chartPath operatorNs argoCDNs releaseName = do {
     t \<leftarrow> cl_mkdir_temp L;
     (case t of
        Inl e \<Rightarrow> ret (Inl (Plain (''failed to create temp dir: '' @ error_text e)))
      | Inr tempDir \<Rightarrow> do {
          r \<leftarrow> bindE (render_chart L operatorImage tempDir chartPath operatorNs argoCDNs releaseName) (\<lambda>files. do {
            _ \<leftarrow> for_each (\<lambda>obj. log_error (applyManifest C L obj)) (chart_objects L operatorNs argoCDNs files);
            ret (Inr ()) });
          _ \<leftarrow> cl_remove_all L tempDir;
          ret r }) }"

section \<open>CustomResourceDefinitions\<close>

definition managed_crd :: "unstructured \<Rightarrow> kobj" where
  "managed_crd crd = OUnstr (crd\<lparr>u_api_version := ''apiextensions.k8s.io/v1'', u_meta := managed_meta (u_meta crd)\<rparr>)"

fun create_crds :: "'w client \<Rightarrow> ('w, 'c, 'v) chart_lib \<Rightarrow> string list \<Rightarrow> ('w, unit result) state" where
  "create_crds C L [] = ret (Inr ())"
| "create_crds C L (doc # docs) =
     (case cl_yaml_crd L doc of
        None \<Rightarrow> create_crds C L docs
      | Some crd \<Rightarrow>
          if u_kind crd \<noteq> ''CustomResourceDefinition'' \<or> skip_annotated (u_meta crd) then create_crds C L docs
          else do {
            r \<leftarrow> create C (managed_crd crd);
            (case r of
               Inl e \<Rightarrow> if is_already_exists e then create_crds C L docs else ret (Inl e)
             | Inr _ \<Rightarrow> create_crds C L docs) })"

definition applyCRDIfNotExists :: "'w client \<Rightarrow> ('w, 'c, 'v) chart_lib \<Rightarrow> string \<Rightarrow> string \<Rightarrow> string \<Rightarrow> ('w, unit result) state" where
  "applyCRDIfNotExists C L resource apiVersion yamlFilePath =
     bindE (ret (printE ''failed to create discovery client'' (cl_discovery L))) (\<lambda>_. do {
       apiResourceList \<leftarrow> cl_resources L apiVersion;
       if (case apiResourceList of Inl _ \<Rightarrow> False | Inr names \<Rightarrow> resource \<in> set names) then ret (Inr ())
       else bindE (ret (printE (''failed to read CRD file '' @ yamlFilePath) (read_file (cl_files L) yamlFilePath))) (\<lambda>crdData.
         create_crds C L (yaml_docs crdData)) })"

section \<open>What image references mean\<close>

text \<open>One \<open>@\<close> separates a digest; else the text after the last colon is the tag, unless it belongs to a path.\<close>

definition image_parts :: "string \<Rightarrow> string \<Rightarrow> string \<Rightarrow> bool" where
  "image_parts img repository tag =
     (if length (filter (\<lambda>c. c = CHR ''@'') img) = 1 then img = repository @ ''@'' @ tag
      else if \<exists>a b. img = a @ '':'' @ b \<and> {CHR '':'', CHR ''/''} \<inter> set b = {}
      then img = repository @ '':'' @ tag \<and> CHR '':'' \<notin> set tag
      else repository = img \<and> tag = ''latest'')"

lemma one_occurrence:
  "length (filter (\<lambda>x. x = c) s) = 1 \<longleftrightarrow> (\<exists>a b. s = a @ c # b \<and> c \<notin> set a \<and> c \<notin> set b)"
proof
  assume one: "length (filter (\<lambda>x. x = c) s) = 1"
  then have "c \<in> set s" by (metis (mono_tags, lifting) filter_False list.size(3) zero_neq_one)
  then obtain a b where s: "s = a @ c # b" "c \<notin> set a" by (meson split_list_first)
  with one have "c \<notin> set b" by (auto simp: filter_empty_conv)
  with s show "\<exists>a b. s = a @ c # b \<and> c \<notin> set a \<and> c \<notin> set b" by blast
next
  assume "\<exists>a b. s = a @ c # b \<and> c \<notin> set a \<and> c \<notin> set b"
  then obtain a b where s: "s = a @ c # b" "c \<notin> set a" "c \<notin> set b" by blast
  then have "filter (\<lambda>x. x = c) a = []" "filter (\<lambda>x. x = c) b = []" by (auto simp: filter_empty_conv)
  with s(1) show "length (filter (\<lambda>x. x = c) s) = 1" by simp
qed

lemma parse_tag:
  assumes "length (filter (\<lambda>c. c = CHR ''@'') img) \<noteq> 1"
  shows "ParseImageReference img = (case cut_last (CHR '':'') img of
     Some (repository, tag) \<Rightarrow> if CHR ''/'' \<notin> set tag then Inr (repository, tag) else Inr (img, ''latest'')
   | None \<Rightarrow> Inr (img, ''latest''))"
proof -
  have "split_on ''@'' img \<noteq> [a, b]" for a b
  proof
    assume split: "split_on ''@'' img = [a, b]"
    with split_on_two [OF split] assms show False unfolding one_occurrence by blast
  qed
  then show ?thesis unfolding ParseImageReference_def by (auto split: list.split)
qed

text \<open>
  C36: ParseImageReference never fails and gives exactly the parts of the reference: repository
  and digest when there is one @ sign, otherwise repository and tag cut at the last colon when no
  slash follows it, otherwise the whole reference with the tag latest.
\<close>

theorem image_reference_parsed:
  "(\<exists>parts. ParseImageReference img = Inr parts) \<and>
   (ParseImageReference img = Inr (repository, tag) \<longleftrightarrow> image_parts img repository tag)"
proof (cases "length (filter (\<lambda>c. c = CHR ''@'') img) = 1")
  case True
  then obtain a b where img: "img = a @ CHR ''@'' # b" "CHR ''@'' \<notin> set a" "CHR ''@'' \<notin> set b"
    unfolding one_occurrence by blast
  then have "ParseImageReference img = Inr (a, b)" by (simp add: ParseImageReference_def split_on_parts)
  moreover have "img = repository @ ''@'' @ tag \<longleftrightarrow> a = repository \<and> b = tag"
    using img append_Cons_eq_iff [of "CHR ''@''" a b repository tag] by auto
  ultimately show ?thesis using True by (simp add: image_parts_def)
next
  case no: False
  show ?thesis
  proof (cases "cut_last (CHR '':'') img")
    case None
    then have "\<nexists>a b. img = a @ '':'' @ b" by (auto simp: cut_last_None)
    with no None show ?thesis by (auto simp: parse_tag image_parts_def)
  next
    case (Some p)
    obtain a b where p: "p = (a, b)" by (cases p)
    note img = cut_last_SomeD [OF Some [unfolded p]]
    have unique: "a' = a \<and> b' = b" if "img = a' @ '':'' @ b'" "CHR '':'' \<notin> set b'" for a' b'
      using cut_last_append [OF that(2), of a'] that(1) Some p by simp
    have ex: "(\<exists>a b. img = a @ '':'' @ b \<and> {CHR '':'', CHR ''/''} \<inter> set b = {}) \<longleftrightarrow> CHR ''/'' \<notin> set b"
      using unique img by auto
    have parts: "img = repository @ '':'' @ tag \<and> CHR '':'' \<notin> set tag \<longleftrightarrow> a = repository \<and> b = tag"
      using unique [of repository tag] img by auto
    show ?thesis unfolding parse_tag [OF no] Some p image_parts_def ex parts using no by auto
  qed
qed

text \<open>
  C35: Every manifest of the chart that is applied has a kind, a name and a namespace, unless its
  kind is one of the three cluster-scoped kinds of the chart; it is a decoded document of a
  rendered file with at most its namespace changed, and an ArgoCD resource without a namespace
  goes to the Argo CD namespace.
\<close>

theorem chart_manifests_well_formed:
  assumes "obj \<in> set (chart_objects L (operator_ns env) (argocd_ns env) files)"
  shows "u_kind obj \<noteq> '''' \<and> m_name (u_meta obj) \<noteq> '''' \<and>
     (m_namespace (u_meta obj) \<noteq> '''' \<or> u_kind obj \<in> {''Namespace'', ''ClusterRole'', ''ClusterRoleBinding''}) \<and>
     (\<exists>name content doc u. (name, content) \<in> set files \<and> doc \<in> set (yaml_docs content) \<and> cl_yaml L doc = Some u \<and>
        obj = u\<lparr>u_meta := (u_meta u)\<lparr>m_namespace := m_namespace (u_meta obj)\<rparr>\<rparr> \<and>
        (m_namespace (u_meta u) = '''' \<and> u_kind u = ''ArgoCD'' \<longrightarrow> m_namespace (u_meta obj) = argocd_ns env))"
proof -
  from assms obtain name content doc u where src: "(name, content) \<in> set files" "doc \<in> set (yaml_docs content)"
    "cl_yaml L doc = Some u" "u_kind u \<noteq> ''''" "m_name (u_meta u) \<noteq> ''''"
    "obj = default_namespace (operator_ns env) (argocd_ns env) u"
    by (auto simp: chart_objects_def file_objects_def set_map_filter chart_object_def split: if_splits option.splits)
  moreover have "default_namespace (operator_ns env) (argocd_ns env) u =
      u\<lparr>u_meta := (u_meta u)\<lparr>m_namespace := m_namespace (u_meta (default_namespace (operator_ns env) (argocd_ns env) u))\<rparr>\<rparr>"
    by (simp add: default_namespace_def)
  ultimately show ?thesis
    by (intro conjI exI [of _ name] exI [of _ content] exI [of _ doc] exI [of _ u]) (auto simp: default_namespace_def)
qed

section \<open>What applying the chart touches\<close>

text \<open>The cluster and the libraries together.\<close>

locale chart_world = kube_api C view + chart_api L view
  for C :: "'w client" and L :: "('w, 'c, 'v) chart_lib" and view

lemma managed_meta_sel [simp]:
  "m_name (managed_meta m) = m_name m" "m_namespace (managed_meta m) = m_namespace m"
  "m_annotations (managed_meta m) = m_annotations m" "m_deletion (managed_meta m) = m_deletion m"
  "map_of (m_labels (managed_meta m)) (fst addon_managed_by) = Some (snd addon_managed_by)"
  by (simp_all add: managed_meta_def gomap_simps)

context chart_world
begin

lemma decoded_ref:
  "ref_of (cl_decode L (obj\<lparr>u_meta := managed_meta (u_meta obj)\<rparr>)) = manifest_ref obj"
  "ref_of (cl_decode L (obj\<lparr>u_meta := (managed_meta (u_meta obj))\<lparr>m_resource_version := rv\<rparr>\<rparr>)) = manifest_ref obj"
  by (simp_all add: ref_of_def manifest_ref_def decode_kind decode_meta)

lemma wp_applyManifest:
  assumes "m_deletion (u_meta obj) = None"
  shows "wp (applyManifest C L obj) (\<lambda>r w'. (\<forall>q. q \<noteq> manifest_ref obj \<longrightarrow> view w' q = view w q) \<and>
     (skipped view w (manifest_ref obj) \<longrightarrow> view w' = view w) \<and>
     (r = Inr () \<and> \<not> skipped view w (manifest_ref obj) \<longrightarrow> (\<exists>y. view w' (manifest_ref obj) = Some y \<and>
        map_of (m_labels (meta_of y)) (fst addon_managed_by) = Some (snd addon_managed_by) \<and>
        m_annotations (meta_of y) = m_annotations (u_meta obj)))) w" (is "wp _ ?Q w")
  unfolding applyManifest_def wp_bind Let_def
proof (rule wp_fetch, goal_cases)
  case v: (1 x y w1)
  then have x: "view w (manifest_ref obj) = Some y" by simp
  let ?new = "cl_decode L (obj\<lparr>u_meta := (managed_meta (u_meta obj))\<lparr>m_resource_version := m_resource_version (meta_of y)\<rparr>\<rparr>)"
  show ?case
  proof (cases "skip_annotated (meta_of y)")
    case True
    with x v(1) show ?thesis by (simp add: wp_ret skipped_def)
  next
    case False
    have "wp (update C ?new) ?Q w1"
    proof (rule wp_update_unit)
      fix z w2 old assume z: "same_content (keep_status old (admit ?new)) z"
        "view w2 = (view w1)(ref_of ?new := if m_deletion (meta_of ?new) \<noteq> None \<and> m_finalizers (meta_of ?new) = [] then None else Some z)"
      have "m_labels (meta_of z) = m_labels (managed_meta (u_meta obj))" "m_annotations (meta_of z) = m_annotations (u_meta obj)"
        using same_content_meta(1,2) [OF z(1)] by (simp_all add: decode_meta)
      with z(2) x False v(1) assms show "?Q (Inr ()) w2"
        by (simp add: decoded_ref decode_meta skipped_def)
    next
      fix e w2 assume "\<And>q. q \<noteq> ref_of ?new \<Longrightarrow> view w2 q = view w1 q"
      with x False v(1) show "?Q (Inl e) w2" by (simp add: decoded_ref skipped_def)
    qed
    with False show ?thesis by simp
  qed
next
  case v: (2 e w1)
  let ?new = "cl_decode L (obj\<lparr>u_meta := managed_meta (u_meta obj)\<rparr>)"
  show ?case
  proof (cases "is_not_found e")
    case True
    with v(2) have none: "view w (manifest_ref obj) = None" by simp
    have "wp (create C ?new) ?Q w1"
    proof (rule wp_create_unit)
      fix z w2 assume z: "same_content (admit ?new) z" "view w2 = (view w1)(ref_of ?new := Some z)"
      have "m_labels (meta_of z) = m_labels (managed_meta (u_meta obj))" "m_annotations (meta_of z) = m_annotations (u_meta obj)"
        using same_content_meta(1,2) [OF z(1)] by (simp_all add: decode_meta)
      with z(2) none v(1) show "?Q (Inr ()) w2"
        by (simp add: decoded_ref skipped_def)
    next
      fix e w2 assume "\<And>q. q \<noteq> ref_of ?new \<Longrightarrow> view w2 q = view w1 q"
      with none v(1) show "?Q (Inl e) w2" by (simp add: decoded_ref skipped_def)
    qed
    with True show ?thesis by simp
  next
    case False
    with v(1) show ?thesis by (simp add: wp_ret)
  qed
qed

text \<open>The frame needs no assumption on the manifest.\<close>

lemma applyManifest_within:
  assumes "manifest_ref obj \<in> S"
  shows "spares.within view F S (applyManifest C L obj)"
proof (rule spares.withinI)
  fix w
  show "wp (applyManifest C L obj) (\<lambda>_. spares view F S w) w"
    unfolding applyManifest_def wp_bind Let_def
  proof (rule wp_fetch, goal_cases)
    case v: (1 x y w1)
    let ?new = "cl_decode L (obj\<lparr>u_meta := (managed_meta (u_meta obj))\<lparr>m_resource_version := m_resource_version (meta_of y)\<rparr>\<rparr>)"
    have "wp (update C ?new) (\<lambda>_. only_touches view {manifest_ref obj} w1) w1"
      by (rule wp_touches_update) (simp add: decoded_ref)
    with v assms show ?case
      by (auto simp: wp_simps only_touches_def skipped_def spares_view elim!: wp_mono intro!: spares_one [of "manifest_ref obj"])
  next
    case v: (2 e w1)
    let ?new = "cl_decode L (obj\<lparr>u_meta := managed_meta (u_meta obj)\<rparr>)"
    have "wp (create C ?new) (\<lambda>_. only_touches view {manifest_ref obj} w1) w1"
      by (rule wp_touches_create) (simp add: decoded_ref)
    with v assms show ?case
      by (auto simp: wp_simps only_touches_def skipped_def spares_view elim!: wp_mono intro!: spares_one [of "manifest_ref obj"])
  qed
qed

end

text \<open>The manifests Helm can render and the CustomResourceDefinitions of a file.\<close>

definition chart_refs :: "('w, 'c, 'v) chart_lib \<Rightarrow> string \<Rightarrow> string \<Rightarrow> objref set" where
  "chart_refs L operatorNs argoCDNs = {manifest_ref u |u chart vals files.
     cl_render L chart vals = Inr files \<and> u \<in> set (chart_objects L operatorNs argoCDNs files)}"

definition crd_refs :: "('w, 'c, 'v) chart_lib \<Rightarrow> string \<Rightarrow> objref set" where
  "crd_refs L path = {ref_of (managed_crd crd) |crd doc content.
     read_file (cl_files L) path = Inr content \<and> doc \<in> set (yaml_docs content) \<and> cl_yaml_crd L doc = Some crd}"

context chart_world
begin

lemma lib_within:
  "spares.within view F S (cl_mkdir_temp L)" "spares.within view F S (cl_mkdir_all L p)"
  "spares.within view F S (cl_write_file L p d)" "spares.within view F S (cl_remove_all L p)"
  "spares.within view F S (cl_load L p)" "spares.within view F S (cl_resources L p)"
  by (intro spares_quiet, erule mkdir_temp_view mkdir_all_view write_file_view remove_all_view load_view resources_view)+

lemma copy_entries_within: "L' = L \<Longrightarrow> spares.within view F S (copy_entries L' es dest)"
  by (induction L' es dest rule: copy_entries.induct) (auto intro!: spares.within_rules lib_within)

lemma render_chart_within: "spares.within view F S (render_chart L img tempDir path operatorNs argoCDNs releaseName)"
  unfolding render_chart_def copyEmbeddedToTemp_def
  by (intro spares.within_rules copy_entries_within lib_within refl)

lemma render_chart_renders:
  "wp (render_chart L img tempDir path operatorNs argoCDNs releaseName)
     (\<lambda>r _. \<forall>files. r = Inr files \<longrightarrow> (\<exists>chart vals. cl_render L chart vals = Inr files)) w"
  unfolding render_chart_def wp_bindE wp_bind wp_ret
  by (rule wp_mono [OF wp_True], split sum.split, intro conjI impI allI, simp, rule wp_mono [OF wp_True])
    (auto simp: printE_def split: sum.splits)

lemma templateAndApplyChart_within:
  assumes "chart_refs L operatorNs argoCDNs \<subseteq> S"
  shows "spares.within view F S (templateAndApplyChart C L img path operatorNs argoCDNs releaseName)"
  unfolding templateAndApplyChart_def
proof (intro spares.within_bind spares.within_sum spares.within_ret lib_within)
  fix tempDir
  show "spares.within view F S (bindE (render_chart L img tempDir path operatorNs argoCDNs releaseName) (\<lambda>files. do {
      _ \<leftarrow> for_each (\<lambda>obj. log_error (applyManifest C L obj)) (chart_objects L operatorNs argoCDNs files); ret (Inr ()) }))"
  proof (rule spares.withinI, rule wp_bindE_rule [OF wp_conj [OF spares.within_wp [OF render_chart_within] render_chart_renders]])
    fix w files w1
    assume r: "spares view F S w w1 \<and> (\<forall>files'. Inr files = Inr files' \<longrightarrow> (\<exists>chart vals. cl_render L chart vals = Inr files'))"
    then have "manifest_ref u \<in> S" if "u \<in> set (chart_objects L operatorNs argoCDNs files)" for u
      using that assms unfolding chart_refs_def by blast
    then have "spares.within view F S (do {
        _ \<leftarrow> for_each (\<lambda>obj. log_error (applyManifest C L obj)) (chart_objects L operatorNs argoCDNs files); ret (Inr ()) })"
      by (intro spares.within_bind spares.within_ret spares.within_for_each spares.within_log_error applyManifest_within)
    from spares.within_wp [OF this, of w1] r
    show "wp (do { _ \<leftarrow> for_each (\<lambda>obj. log_error (applyManifest C L obj)) (chart_objects L operatorNs argoCDNs files); ret (Inr ()) })
       (\<lambda>_. spares view F S w) w1"
      by (auto elim!: wp_mono intro: spares.step)
  qed simp
qed

lemma create_within: "ref_of x \<in> F \<Longrightarrow> spares.within view F S (create C x)"
  by (rule spares.withinI) (rule wp_mono [OF wp_touches_create], assumption, rule spares_touches)

lemma create_crds_within:
  "(\<And>doc crd. doc \<in> set docs \<Longrightarrow> cl_yaml_crd L doc = Some crd \<Longrightarrow> ref_of (managed_crd crd) \<in> F) \<Longrightarrow>
   spares.within view F S (create_crds C L docs)"
  by (induction docs)
    (auto split: option.split intro!: spares.within_bind spares.within_sum spares.within_if spares.within_ret create_within)

lemma applyCRD_within:
  assumes "crd_refs L path \<subseteq> F"
  shows "spares.within view F S (applyCRDIfNotExists C L resource apiVersion path)"
proof -
  have "spares.within view F S (bindE (ret (printE m (read_file (cl_files L) path))) (\<lambda>crdData. create_crds C L (yaml_docs crdData)))" for m
  proof (cases "read_file (cl_files L) path")
    case (Inl e)
    have "wp (bindE (ret (printE m (Inl e))) (\<lambda>crdData. create_crds C L (yaml_docs crdData))) (\<lambda>_. spares view F S w) w" for w
      by (simp add: printE_def wp_simps spares.stay)
    then show ?thesis unfolding Inl by (rule spares.withinI)
  next
    case (Inr content)
    have crds: "spares.within view F S (create_crds C L (yaml_docs content))"
      by (rule create_crds_within) (use assms Inr in \<open>auto simp: crd_refs_def simp del: ref_of_simps\<close>)
    have "wp (bindE (ret (printE m (Inr content))) (\<lambda>crdData. create_crds C L (yaml_docs crdData))) (\<lambda>_. spares view F S w) w" for w
      using spares.within_wp [OF crds] by (simp add: printE_def wp_simps)
    then show ?thesis unfolding Inr by (rule spares.withinI)
  qed
  note install = this
  show ?thesis
    unfolding applyCRDIfNotExists_def
    by (rule spares.within_bindE [OF spares.within_ret], rule spares.within_bind [OF lib_within(6)], rule spares.within_if,
        rule spares.within_ret, rule install)
qed

end

section \<open>A chart\<close>

text \<open>A small instance of the libraries, for the witnesses. A document is its own name.\<close>

definition plain_decode :: "unstructured \<Rightarrow> kobj" where
  "plain_decode u = (case kind_of_gvk (u_api_version u) (u_kind u) of
     KDeployment \<Rightarrow> ODeployment \<lparr>dep_meta = u_meta u, dep_template_annotations = []\<rparr>
   | KService \<Rightarrow> OService \<lparr>svc_meta = u_meta u, svc_type = '''', svc_ports = [], svc_ingress = []\<rparr>
   | KConfigMap \<Rightarrow> OConfigMap \<lparr>cm_meta = u_meta u, cm_data = []\<rparr>
   | KSecret \<Rightarrow> OSecret \<lparr>sec_meta = u_meta u, sec_type = '''', sec_data = [], sec_string_data = []\<rparr>
   | KNamespace \<Rightarrow> ONamespace \<lparr>ns_meta = u_meta u\<rparr>
   | KRole \<Rightarrow> ORole \<lparr>role_meta = u_meta u, role_rules = []\<rparr>
   | KRoleBinding \<Rightarrow> ORoleBinding \<lparr>rb_meta = u_meta u, rb_subjects = [], rb_role_ref = \<lparr>rr_kind = '''', rr_name = '''', rr_api_group = ''''\<rparr>\<rparr>
   | _ \<Rightarrow> OUnstr u)"

lemma plain_decode_laws: "kind_of (plain_decode u) = kind_of_gvk (u_api_version u) (u_kind u)" "meta_of (plain_decode u) = u_meta u"
  by (simp_all add: plain_decode_def kind_of_gvk_def)

definition example_manifest :: "string \<Rightarrow> string \<Rightarrow> string \<Rightarrow> unstructured" where
  "example_manifest api_version k name = \<lparr>u_api_version = api_version, u_kind = k, u_meta = new_meta name '''', u_fields = []\<rparr>"

definition example_yaml :: "string \<Rightarrow> unstructured option" where
  "example_yaml doc =
     (if doc = ''operator'' then Some (example_manifest ''apps/v1'' ''Deployment'' ''argocd-operator'')
      else if doc = ''argocd'' then Some (example_manifest ''argoproj.io/v1beta1'' ''ArgoCD'' ''argocd'')
      else if doc = ''role'' then Some (example_manifest ''rbac.authorization.k8s.io/v1'' ''ClusterRole'' ''manager'')
      else if doc = ''crd'' then Some (example_manifest ''apiextensions.k8s.io/v1'' ''CustomResourceDefinition'' ''argocds.argoproj.io'')
      else None)"

definition example_content :: string where
  "example_content = join_with doc_separator ['' operator'', ''argocd '', '''', ''role'', ''no yaml'']"

definition example_chart :: "(mem, unit, fields) chart_lib" where
  "example_chart = \<lparr>
     cl_files = [Dir ''charts'' [Dir ''argocd-agent-addon'' [File ''Chart.yaml'' ''name: argocd-agent-addon'',
       Dir ''crds'' [File ''argocd-operator-crds.yaml'' ''crd'']]]],
     cl_mkdir_temp = ret (Inr ''/tmp/helm-chart-1''), cl_mkdir_all = (\<lambda>_. ret (Inr ())), cl_write_file = (\<lambda>_ _. ret (Inr ())),
     cl_remove_all = (\<lambda>_. ret ()), cl_load = (\<lambda>_. ret (Inr ())), cl_render_values = (\<lambda>_ values _ _. Inr values),
     cl_render = (\<lambda>_ _. Inr [(''templates/operator.yaml'', example_content), (''templates/NOTES.txt'', ''role'')]),
     cl_yaml = example_yaml, cl_yaml_crd = example_yaml, cl_decode = plain_decode, cl_discovery = Inr (),
     cl_resources = (\<lambda>_. ret (Inl (Plain ''not served'')))\<rparr>"

interpretation mem_chart: chart_world mem_client example_chart mem_view
  by unfold_locales (auto simp: example_chart_def plain_decode_laws)

lemma mem_chart_world: "chart_world mem_client example_chart mem_view"
  by (rule mem_chart.chart_world_axioms)

definition example_chart_objects :: "unstructured list" where
  "example_chart_objects = chart_objects example_chart (operator_ns example_env) (argocd_ns example_env)
     [(''templates/operator.yaml'', example_content), (''templates/NOTES.txt'', ''role'')]"

theorem chart_manifests_well_formed_witness:
  "map manifest_ref example_chart_objects =
     [Ref KDeployment ''argocd-operator-system'' ''argocd-operator'',
      Ref (KUnstr ''argoproj.io/v1beta1'' ''ArgoCD'') ''argocd'' ''argocd'',
      Ref (KUnstr ''rbac.authorization.k8s.io/v1'' ''ClusterRole'') '''' ''manager''] \<and>
   u_kind (hd example_chart_objects) \<noteq> '''' \<and> m_name (u_meta (hd example_chart_objects)) \<noteq> ''''"
proof -
  have refs: "map manifest_ref example_chart_objects =
     [Ref KDeployment ''argocd-operator-system'' ''argocd-operator'',
      Ref (KUnstr ''argoproj.io/v1beta1'' ''ArgoCD'') ''argocd'' ''argocd'',
      Ref (KUnstr ''rbac.authorization.k8s.io/v1'' ''ClusterRole'') '''' ''manager'']" by code_simp
  then have "example_chart_objects \<noteq> []" by auto
  then have "hd example_chart_objects \<in> set example_chart_objects" by simp
  from chart_manifests_well_formed [OF this [unfolded example_chart_objects_def]] refs
  show ?thesis unfolding example_chart_objects_def [symmetric] by blast
qed

text \<open>
  Applying a manifest touches the object it names only, and not even that when the object carries the skip
  annotation; otherwise, after a success the stored object carries the label of the addon and the annotations of the manifest.
\<close>

theorem manifest_applied_unless_skipped:
  assumes "chart_world C L view" and "m_deletion (u_meta obj) = None" and "run_state (applyManifest C L obj) w = (r, w')"
  shows "(\<forall>q. q \<noteq> manifest_ref obj \<longrightarrow> view w' q = view w q) \<and>
     (skipped view w (manifest_ref obj) \<longrightarrow> view w' = view w) \<and>
     (r = Inr () \<and> \<not> skipped view w (manifest_ref obj) \<longrightarrow> (\<exists>y. view w' (manifest_ref obj) = Some y \<and>
        map_of (m_labels (meta_of y)) (fst addon_managed_by) = Some (snd addon_managed_by) \<and>
        m_annotations (meta_of y) = m_annotations (u_meta obj)))"
  by (rule wp_run [OF chart_world.wp_applyManifest [OF assms(1,2)] assms(3)])

definition example_operator :: unstructured where
  "example_operator = default_namespace ''argocd-operator-system'' ''argocd'' (example_manifest ''apps/v1'' ''Deployment'' ''argocd-operator'')"

theorem manifest_applied_unless_skipped_witness:
  "\<exists>y. mem_view (snd (run_state (applyManifest mem_client example_chart example_operator) (mem_of [])))
     (Ref KDeployment ''argocd-operator-system'' ''argocd-operator'') = Some y \<and>
     map_of (m_labels (meta_of y)) ''app.kubernetes.io/managed-by'' = Some ''argocd-agent-addon''"
proof -
  let ?run = "run_state (applyManifest mem_client example_chart example_operator) (mem_of [])"
  have live: "m_deletion (u_meta example_operator) = None" by code_simp
  have ref: "manifest_ref example_operator = Ref KDeployment ''argocd-operator-system'' ''argocd-operator''" by code_simp
  have ok: "fst ?run = Inr ()" by code_simp
  have "mem_view (mem_of []) (manifest_ref example_operator) = None" by code_simp
  then have free: "\<not> skipped mem_view (mem_of []) (manifest_ref example_operator)" by (simp add: skipped_def)
  have run: "?run = (fst ?run, snd ?run)" by simp
  from manifest_applied_unless_skipped [OF mem_chart_world, OF live, OF run] ok free ref
  show ?thesis by (simp add: addon_managed_by_def) blast
qed

section \<open>The copied files\<close>

text \<open>
  What the directory of the chart holds: \<open>os.WriteFile\<close> stores its file and nothing else, \<open>os.MkdirAll\<close> no file at all.
  \<open>stored\<close> reads the files from the world.
\<close>

locale file_store =
  fixes L :: "('w, 'c, 'v) chart_lib" and stored :: "'w \<Rightarrow> string \<Rightarrow> string option"
  assumes write_stores: "run_state (cl_write_file L p d) w = (Inr (), w') \<Longrightarrow> stored w' = (stored w)(p \<mapsto> d)"
    and mkdir_stores: "run_state (cl_mkdir_all L p) w = (r, w') \<Longrightarrow> stored w' = stored w"

text \<open>The files below a list of entries, with their paths.\<close>

fun tree_files :: "entry list \<Rightarrow> string \<Rightarrow> (string \<times> string) list" where
  "tree_files [] path = []"
| "tree_files (File name data # entries) path = (join_path path name, data) # tree_files entries path"
| "tree_files (Dir name sub # entries) path = tree_files sub (join_path path name) @ tree_files entries path"

context file_store
begin

lemma wp_copy_entries:
  "L' = L \<Longrightarrow> wp (copy_entries L' es dest) (\<lambda>r w'. r = Inr () \<longrightarrow> stored w' = stored w ++ map_of (rev (tree_files es dest))) w"
proof (induction L' es dest arbitrary: w rule: copy_entries.induct)
  case (1 L' dest)
  then show ?case by (simp add: wp_ret)
next
  case (2 L' name data es dest)
  have "wp (cl_write_file L (join_path dest name) data)
      (\<lambda>r w'. r = Inr () \<longrightarrow> stored w' = (stored w)(join_path dest name \<mapsto> data)) w"
    by (rule wpI) (auto dest: write_stores)
  then show ?case unfolding copy_entries.simps 2(2)
  proof (rule wp_bindE_rule)
    fix u :: unit and w1 assume "Inr u = Inr () \<longrightarrow> stored w1 = (stored w)(join_path dest name \<mapsto> data)"
    then have w1: "stored w1 = (stored w)(join_path dest name \<mapsto> data)" by simp
    show "wp (copy_entries L es dest) (\<lambda>r w'. r = Inr () \<longrightarrow>
        stored w' = stored w ++ map_of (rev (tree_files (File name data # es) dest))) w1"
      by (rule wp_mono [OF 2(1) [OF 2(2), unfolded 2(2)]]) (simp add: w1 map_add_def fun_eq_iff split: option.split)
  qed simp
next
  case (3 L' name sub es dest)
  have "wp (cl_mkdir_all L (join_path dest name)) (\<lambda>_ w'. stored w' = stored w) w"
    by (rule wpI) (auto dest: mkdir_stores)
  then show ?case unfolding copy_entries.simps 3(3)
  proof (rule wp_bindE_rule)
    fix u :: unit and w1 assume w1: "stored w1 = stored w"
    from 3(1) [OF 3(3), of w1, unfolded 3(3)]
    show "wp (bindE (copy_entries L sub (join_path dest name)) (\<lambda>_. copy_entries L es dest))
       (\<lambda>r w'. r = Inr () \<longrightarrow> stored w' = stored w ++ map_of (rev (tree_files (Dir name sub # es) dest))) w1"
      by (rule wp_bindE_rule) (auto intro!: wp_mono [OF 3(2) [OF 3(3), unfolded 3(3)]] simp: w1)
  qed simp
qed

text \<open>After a copy that succeeds every file below the source path is in the directory, and the other files are as they were.\<close>

lemma copied_files:
  "wp (copyEmbeddedToTemp L srcPath destPath) (\<lambda>r w'. r = Inr () \<longrightarrow>
     (\<exists>entries. read_dir (cl_files L) srcPath = Inr entries \<and> stored w' = stored w ++ map_of (rev (tree_files entries destPath)))) w"
  unfolding copyEmbeddedToTemp_def wp_bindE wp_ret
  by (cases "read_dir (cl_files L) srcPath") (auto intro!: wp_mono [OF wp_copy_entries [OF refl]])

end

text \<open>The example with a disk, for which the law holds.\<close>

definition disk_chart :: "(string \<rightharpoonup> string, unit, fields) chart_lib" where
  "disk_chart = \<lparr>
     cl_files = cl_files example_chart,
     cl_mkdir_temp = ret (Inr ''/tmp/helm-chart-1''), cl_mkdir_all = (\<lambda>_. ret (Inr ())),
     cl_write_file = (\<lambda>p d. State (\<lambda>disk. (Inr (), disk(p \<mapsto> d)))),
     cl_remove_all = (\<lambda>_. ret ()), cl_load = (\<lambda>_. ret (Inr ())), cl_render_values = (\<lambda>_ values _ _. Inr values),
     cl_render = cl_render example_chart, cl_yaml = example_yaml, cl_yaml_crd = example_yaml, cl_decode = plain_decode,
     cl_discovery = Inr (), cl_resources = (\<lambda>_. ret (Inl (Plain ''not served'')))\<rparr>"

interpretation disk: file_store disk_chart "\<lambda>disk. disk"
  by unfold_locales (auto simp: disk_chart_def)

end
