(* ===== verification/Addon_Install.thy ===== *)
theory Addon_Install
  imports Addon_Chart
begin

text \<open>
  The rest of \<open>internal/addon/addon_install.go\<close>: the namespaces of the addon and the order of an installation.
\<close>

section \<open>Namespaces\<close>

definition namespace_labels :: "string gomap" where
  "namespace_labels = [(''addon.open-cluster-management.io/namespace'', ''true''),
     (''apps.open-cluster-management.io/argocd-addon'', ''true''), addon_managed_by]"

text \<open>The entries of the map of expected labels whose value differs are stored.\<close>

definition add_expected_labels :: "string gomap \<Rightarrow> string gomap" where
  "add_expected_labels labels = fold (\<lambda>(key, value) m. if mget m key \<noteq> value then put key value m else m) namespace_labels labels"

definition labels_outdated :: "string gomap \<Rightarrow> bool" where
  "labels_outdated labels = (labels = [] \<or> list_ex (\<lambda>(key, value). mget labels key \<noteq> value) namespace_labels)"

definition new_namespace :: "string \<Rightarrow> namespace" where
  "new_namespace name = \<lparr>ns_meta = (new_meta name '''')\<lparr>m_labels := namespace_labels\<rparr>\<rparr>"

definition relabel_namespace :: "'w client \<Rightarrow> string \<Rightarrow> namespace \<Rightarrow> ('w, unit result) state" where
  "relabel_namespace C name ns =
     (if skip_annotated (ns_meta ns) then ret (Inr ())
      else if labels_outdated (m_labels (ns_meta ns)) then
        wrapE (''failed to update namespace '' @ name) (update C (ONamespace (ns\<lparr>ns_meta := (ns_meta ns)
          \<lparr>m_labels := add_expected_labels (m_labels (ns_meta ns))\<rparr>\<rparr>)))
      else ret (Inr ()))"

definition ensureNamespace :: "'w client \<Rightarrow> string \<Rightarrow> ('w, unit result) state" where
  "ensureNamespace C name =
     ensure_object C as_namespace (Ref KNamespace '''' name) (''failed to get namespace '' @ name) (''failed to create namespace '' @ name)
       (relabel_namespace C name) (ret (Inr (ONamespace (new_namespace name))))"

section \<open>The installation\<close>

definition crd_path :: string where
  "crd_path = ''charts/argocd-agent-addon/crds/argocd-operator-crds.yaml''"

text \<open>A failure to copy the certificate does not fail the installation.\<close>

definition installOrUpdateArgoCDAgent :: "'w client \<Rightarrow> ('w, 'c, 'v) chart_lib \<Rightarrow> environ \<Rightarrow> (string \<Rightarrow> string) \<Rightarrow> string \<Rightarrow>
    ('w, unit result) state" where
  "installOrUpdateArgoCDAgent C L env sha operatorImage =
     (let (operatorNs, argoCDNs) = getNamespaceConfig env in
      bindE (wrapE ''failed to apply ArgoCD CRDs'' (applyCRDIfNotExists C L ''argocds'' ''argoproj.io/v1beta1'' crd_path)) (\<lambda>_.
      bindE (wrapE ''failed to create operator namespace'' (ensureNamespace C operatorNs)) (\<lambda>_.
      bindE (wrapE ''failed to create ArgoCD namespace'' (ensureNamespace C argoCDNs)) (\<lambda>_.
      bindE (wrapE ''failed to template and apply ArgoCD operator''
        (templateAndApplyChart C L operatorImage ''charts/argocd-agent-addon'' operatorNs argoCDNs ''argocd-agent-addon'')) (\<lambda>_. do {
        _ \<leftarrow> log_error (copyClientCertificate C env sha);
        ret (Inr ()) })))))"

section \<open>Lemmas\<close>

abbreviation namespace_ref :: "string \<Rightarrow> objref" where
  "namespace_ref name \<equiv> Ref KNamespace '''' name"

text \<open>The expected labels are set, the others kept.\<close>

lemma namespace_labels_distinct: "distinct (map fst namespace_labels)"
  by (simp add: namespace_labels_def addon_managed_by_def)

lemma add_expected_labels_lookup:
  "mget (add_expected_labels labels) k = (case map_of namespace_labels k of None \<Rightarrow> mget labels k | Some v \<Rightarrow> v)"
  by (simp add: add_expected_labels_def namespace_labels_def addon_managed_by_def gomap_simps)

text \<open>A namespace that is labelled is not written again.\<close>

lemma add_expected_labels_current: "\<not> labels_outdated (add_expected_labels labels)"
proof -
  have "add_expected_labels labels \<noteq> []"
  proof
    assume "add_expected_labels labels = []"
    with add_expected_labels_lookup [of labels "fst addon_managed_by"] show False
      by (simp add: namespace_labels_def addon_managed_by_def)
  qed
  moreover have "mget (add_expected_labels labels) k = v" if "(k, v) \<in> set namespace_labels" for k v
    using that namespace_labels_distinct by (simp add: add_expected_labels_lookup)
  ultimately show ?thesis by (auto simp: labels_outdated_def list_ex_iff)
qed

context kube_api
begin

lemma ensureNamespace_within:
  assumes "namespace_ref name \<in> S"
  shows "spares.within view F S (ensureNamespace C name)"
proof (rule spares.withinI)
  fix w
  show "wp (ensureNamespace C name) (\<lambda>_. spares view F S w) w"
    unfolding ensureNamespace_def
  proof (rule wp_ensure_object)
    fix ns w1 assume v: "view w1 = view w" "view w (namespace_ref name) \<noteq> None"
      "\<And>y. view w (namespace_ref name) = Some y \<Longrightarrow> as_namespace y = Some ns"
    then have x: "view w (namespace_ref name) = Some (ONamespace ns)" by auto
    let ?new = "ONamespace (ns\<lparr>ns_meta := (ns_meta ns)\<lparr>m_labels := add_expected_labels (m_labels (ns_meta ns))\<rparr>\<rparr>)"
    have "ref_of ?new = namespace_ref name" using view_ref [OF x] by simp
    then have "wp (update C ?new) (\<lambda>_. only_touches view {namespace_ref name} w1) w1"
      by (intro touches) (simp del: ref_of_simps)
    with v(1) x assms show "wp (relabel_namespace C name ns) (\<lambda>_. spares view F S w) w1"
      unfolding relabel_namespace_def
      by (auto simp: wp_simps only_touches_def skipped_def spares_view elim!: wp_mono intro!: spares_one [of "namespace_ref name"])
  next
    fix w1 assume v: "view w1 = view w" "view w (namespace_ref name) = None"
    have "wp (create_unless_exists C msg (ONamespace (new_namespace name))) (\<lambda>_. only_touches view {namespace_ref name} w1) w1" for msg
      unfolding create_unless_exists_def by (intro touches) (simp add: new_namespace_def)
    then show "wp (bindE (ret (Inr (ONamespace (new_namespace name))))
        (create_unless_exists C (''failed to create namespace '' @ name))) (\<lambda>_. spares view F S w) w1"
      unfolding wp_bindE wp_ret sum.case
      by (rule wp_mono) (use v assms in \<open>auto simp: only_touches_def skipped_def intro!: spares_one [of "namespace_ref name"]\<close>)
  qed (simp add: spares_view)
qed

end

text \<open>What an installation may write, freely or unless it is annotated.\<close>

definition install_free :: "('w, 'c, 'v) chart_lib \<Rightarrow> environ \<Rightarrow> objref set" where
  "install_free L env = crd_refs L crd_path \<union> {client_secret_ref env, agent_ref env}"

definition install_guarded :: "('w, 'c, 'v) chart_lib \<Rightarrow> environ \<Rightarrow> objref set" where
  "install_guarded L env = chart_refs L (operator_ns env) (argocd_ns env) \<union>
     {namespace_ref (operator_ns env), namespace_ref (argocd_ns env)}"

context chart_world
begin

lemma copyClientCertificate_within:
  "spares.within view (install_free L env) S (copyClientCertificate C env sha)"
  by (rule spares.withinI, rule wp_mono [OF wp_copy_touches])
    (auto simp: install_free_def intro!: spares_touches elim!: only_touches_mono)

lemma install_within:
  "spares.within view (install_free L env) (install_guarded L env) (installOrUpdateArgoCDAgent C L env sha img)"
  unfolding installOrUpdateArgoCDAgent_def Let_def split_def
  by (intro spares.within_bindE spares.within_wrapE spares.within_bind spares.within_log_error spares.within_ret
      applyCRD_within ensureNamespace_within templateAndApplyChart_within copyClientCertificate_within)
    (auto simp: install_free_def install_guarded_def)

end

text \<open>
  C18: An installation, whatever fails in it, writes no object but the CustomResourceDefinitions
  of the chart, the two namespaces, the manifests that Helm renders, the client certificate Secret
  and the Deployment of the agent; and a namespace or manifest that carries the skip annotation
  stays as it is.
\<close>

theorem install_spares_skipped:
  assumes "chart_world C L view" and "run_state (installOrUpdateArgoCDAgent C L env sha img) w = (r, w')"
  shows "(view w' q \<noteq> view w q \<longrightarrow> q \<in> install_free L env \<union> install_guarded L env) \<and>
     (skipped view w q \<and> q \<notin> install_free L env \<longrightarrow> view w' q = view w q)"
  using spares.within_run [OF chart_world.install_within [OF assms(1)] assms(2)] by (auto simp: spares_def)

definition example_kept_operator :: deployment where
  "example_kept_operator = \<lparr>dep_meta = (new_meta ''argocd-operator'' ''argocd-operator-system'')
     \<lparr>m_annotations := [(''argocd-addon.open-cluster-management.io/skip'', ''true'')]\<rparr>, dep_template_annotations = []\<rparr>"

theorem install_spares_skipped_witness:
  "let w' = snd (run_state (installOrUpdateArgoCDAgent mem_client example_chart example_env example_sha ''quay.io/op:v1'')
      (mem_of [ODeployment example_kept_operator]))
   in mem_view w' (Ref KDeployment ''argocd-operator-system'' ''argocd-operator'') = Some (ODeployment example_kept_operator) \<and>
      mem_view w' (Ref (KUnstr ''argoproj.io/v1beta1'' ''ArgoCD'') ''argocd'' ''argocd'') \<noteq> None"
proof -
  let ?w = "mem_of [ODeployment example_kept_operator]" and ?q = "Ref KDeployment ''argocd-operator-system'' ''argocd-operator''"
  let ?run = "run_state (installOrUpdateArgoCDAgent mem_client example_chart example_env example_sha ''quay.io/op:v1'') ?w"
  have x: "mem_view ?w ?q = Some (ODeployment example_kept_operator)" by code_simp
  have "skip_annotated (meta_of (ODeployment example_kept_operator))" by code_simp
  with x have skip: "skipped mem_view ?w ?q" by (simp add: skipped_def)
  have crds: "ref_kind (ref_of (managed_crd crd)) = KUnstr ''apiextensions.k8s.io/v1'' (u_kind crd)" for crd
    by (simp add: managed_crd_def)
  have free: "?q \<notin> install_free example_chart example_env"
  proof
    assume "?q \<in> install_free example_chart example_env"
    then have "(\<exists>crd. ?q = ref_of (managed_crd crd)) \<or> agentDeploymentName = ''argocd-operator''"
      by (auto simp: install_free_def crd_refs_def simp del: ref_of_simps)
    then show False using crds by (auto simp: agentDeploymentName_def simp del: ref_of_simps dest: arg_cong [where f = ref_kind])
  qed
  have cr: "mem_view (snd ?run) (Ref (KUnstr ''argoproj.io/v1beta1'' ''ArgoCD'') ''argocd'' ''argocd'') \<noteq> None" by code_simp
  have run: "?run = (fst ?run, snd ?run)" by simp
  from install_spares_skipped [OF mem_chart_world, OF run, of ?q] skip free x cr show ?thesis by (simp add: Let_def)
qed

end
