(* ===== verification/Addon_Cleanup.thy ===== *)
theory Addon_Cleanup
  imports Addon_Install "HOL-Library.Word"
begin

text \<open>
  \<open>internal/addon/addon_cleanup.go\<close>: the uninstallation of the Argo CD agent. \<open>sleep\<close> is \<open>time.Sleep\<close>, during which
  the rest of the cluster may act; a \<open>time.Duration\<close> is an \<open>int64\<close> number of nanoseconds, a \<open>64 word\<close> here.
  The verification loop runs for a time that is read from the environment, and need not end: it is a partial function.
\<close>

section \<open>The pause marker\<close>

definition PauseMarkerName :: string where
  "PauseMarkerName = ''argocd-agent-addon-pause''"

definition pause_marker :: "string \<Rightarrow> string \<Rightarrow> config_map" where
  "pause_marker namespace timestamp =
     \<lparr>cm_meta = (new_meta PauseMarkerName namespace)\<lparr>m_labels := [(''app'', ''argocd-agent-addon'')]\<rparr>,
      cm_data = [(''paused'', ''true''), (''reason'', ''cleanup''), (''timestamp'', timestamp)]\<rparr>"

definition createPauseMarker :: "'w client \<Rightarrow> string \<Rightarrow> ('w, unit result) state" where
  "createPauseMarker C namespace = do {
     now \<leftarrow> c_now_text C;
     create_unless_exists C ''failed to create pause marker'' (OConfigMap (pause_marker namespace now)) }"

text \<open>A marker that cannot be read does not pause.\<close>

definition IsPaused :: "'w client \<Rightarrow> string \<Rightarrow> ('w, bool) state" where
  "IsPaused C namespace = do {
     r \<leftarrow> fetch as_config_map C (Ref KConfigMap namespace PauseMarkerName);
     ret (case r of Inl _ \<Rightarrow> False | Inr pauseMarker \<Rightarrow> mget (cm_data pauseMarker) ''paused'' = ''true'') }"

section \<open>The resources of the operator\<close>

definition operator_kinds :: "kind list" where
  "operator_kinds = map (\<lambda>(k, apiVersion). kind_of_gvk apiVersion k)
     [(''Deployment'', ''apps/v1''), (''Service'', ''v1''), (''ServiceAccount'', ''v1''), (''ConfigMap'', ''v1''),
      (''RoleBinding'', ''rbac.authorization.k8s.io/v1''), (''Role'', ''rbac.authorization.k8s.io/v1'')]"

definition operator_cluster_kinds :: "kind list" where
  "operator_cluster_kinds = map (\<lambda>(k, apiVersion). kind_of_gvk apiVersion k)
     [(''ClusterRoleBinding'', ''rbac.authorization.k8s.io/v1''), (''ClusterRole'', ''rbac.authorization.k8s.io/v1'')]"

definition delete_listed :: "'w client \<Rightarrow> string option \<Rightarrow> kind \<Rightarrow> ('w, unit) state" where
  "delete_listed C namespace k = do {
     r \<leftarrow> list_as as_any C k namespace [addon_managed_by];
     (case r of
        Inl _ \<Rightarrow> ret ()
      | Inr items \<Rightarrow> for_each (\<lambda>item. log_error (delete_obj C item)) items) }"

definition deleteOperatorResourcesInternal :: "'w client \<Rightarrow> string \<Rightarrow> ('w, unit result) state" where
  "deleteOperatorResourcesInternal C namespace = do {
     _ \<leftarrow> for_each (delete_listed C (Some namespace)) operator_kinds;
     _ \<leftarrow> for_each (delete_listed C None) operator_cluster_kinds;
     ret (Inr ()) }"

text \<open>The method of the reconciler passes the second of the two namespaces.\<close>

definition deleteOperatorResources :: "'w client \<Rightarrow> environ \<Rightarrow> ('w, unit result) state" where
  "deleteOperatorResources C env =
     (let (_, operatorNs) = getNamespaceConfig env in deleteOperatorResourcesInternal C operatorNs)"

section \<open>The ArgoCD resource\<close>

type_synonym duration = "64 word"

definition seconds :: "int \<Rightarrow> duration" where
  "seconds n = word_of_int n * 1000000000"

definition argocd_cr :: "environ \<Rightarrow> objref" where
  "argocd_cr env = Ref (KUnstr ''argoproj.io/v1beta1'' ''ArgoCD'') (argocd_ns env) ''argocd''"

definition found_gone :: "kobj result \<Rightarrow> bool" where
  "found_gone r = (case r of Inl e \<Rightarrow> is_not_found e | Inr _ \<Rightarrow> False)"

lemma sint_add_small:
  assumes "sint (a :: duration) + sint b < 2 ^ 63" "0 \<le> sint b"
  shows "sint (a + b) = sint a + sint b"
proof -
  have "- (2 ^ 63) \<le> sint a" using sint_ge [of a] by simp
  then have "signed_take_bit 63 (sint a + sint b) = sint a + sint b"
    using assms by (intro signed_take_bit_int_eq_self) auto
  then show ?thesis by (simp add: sint_word_ariths)
qed

function wait_gone :: "'w client \<Rightarrow> (duration \<Rightarrow> ('w, unit) state) \<Rightarrow> objref \<Rightarrow> duration \<Rightarrow> ('w, unit) state" where
  "wait_gone C sleep cr elapsed =
     (if elapsed <s seconds 120 then do {
        r \<leftarrow> fetch as_any C cr;
        if found_gone r then ret ()
        else do { _ \<leftarrow> sleep (seconds 5); wait_gone C sleep cr (elapsed + seconds 5) } }
      else ret ())"
  by pat_completeness auto
termination
proof (relation "measure (\<lambda>(C, sleep, cr, elapsed). nat (120000000000 - sint elapsed))", simp)
  fix C :: "'w client" and sleep :: "duration \<Rightarrow> ('w, unit) state" and cr and elapsed :: duration
  assume "elapsed <s seconds 120"
  then have small: "sint elapsed < 120000000000" by (simp add: word_sless_alt seconds_def)
  then have "sint (elapsed + seconds 5) = sint elapsed + 5000000000"
    by (subst sint_add_small) (simp_all add: seconds_def)
  with small show "((C, sleep, cr, elapsed + seconds 5), C, sleep, cr, elapsed) \<in>
      measure (\<lambda>(C, sleep, cr, elapsed). nat (120000000000 - sint elapsed))" by simp
qed

declare wait_gone.simps [simp del]

definition ignore_not_found :: "'a result \<Rightarrow> unit result" where
  "ignore_not_found r = (case r of Inl e \<Rightarrow> if is_not_found e then Inr () else Inl e | Inr _ \<Rightarrow> Inr ())"

text \<open>A resource that is still there after the wait is only logged.\<close>

definition remove_argocd :: "'w client \<Rightarrow> (duration \<Rightarrow> ('w, unit) state) \<Rightarrow> objref \<Rightarrow> ('w, unit result) state" where
  "remove_argocd C sleep cr = do {
     r \<leftarrow> fetch as_any C cr;
     (case r of
        Inl e \<Rightarrow> ret (wrap_result ''failed to check ArgoCD CR'' (ignore_not_found r))
      | Inr _ \<Rightarrow>
          bindE (do { d \<leftarrow> c_delete C cr; ret (wrap_result ''failed to delete ArgoCD CR'' (ignore_not_found d)) }) (\<lambda>_. do {
            _ \<leftarrow> wait_gone C sleep cr 0;
            g \<leftarrow> fetch as_any C cr;
            ret (wrap_result ''failed to check ArgoCD CR final status'' (ignore_not_found g)) })) }"

section \<open>The verification\<close>

definition verifyNamespaceCleanup :: "'w client \<Rightarrow> string \<Rightarrow> ('w, bool result) state" where
  "verifyNamespaceCleanup C namespace = do {
     r \<leftarrow> list_as as_any C KDeployment (Some namespace) [addon_managed_by];
     ret (case r of Inl e \<Rightarrow> if is_not_found e then Inr False else Inl e | Inr deployments \<Rightarrow> Inr (deployments \<noteq> [])) }"

definition verify_once :: "'w client \<Rightarrow> (duration \<Rightarrow> ('w, unit) state) \<Rightarrow> objref \<Rightarrow> string \<Rightarrow> ('w, unit) state" where
  "verify_once C sleep cr operatorNs = do {
     _ \<leftarrow> sleep (seconds 20);
     r \<leftarrow> fetch as_any C cr;
     _ \<leftarrow> (case r of Inl _ \<Rightarrow> ret () | Inr _ \<Rightarrow> log_error (c_delete C cr));
     v \<leftarrow> verifyNamespaceCleanup C operatorNs;
     (case v of
        Inr True \<Rightarrow> log_error (deleteOperatorResourcesInternal C operatorNs)
      | _ \<Rightarrow> ret ()) }"

text \<open>\<open>None\<close>: the loop never ends.\<close>

partial_function (option) verify_loop :: "'w client \<Rightarrow> (duration \<Rightarrow> ('w, unit) state) \<Rightarrow> objref \<Rightarrow> string \<Rightarrow> duration \<Rightarrow> duration \<Rightarrow>
    'w \<Rightarrow> 'w option" where
  "verify_loop C sleep cr operatorNs waitDuration elapsed w =
     (if elapsed <s waitDuration then
        verify_loop C sleep cr operatorNs waitDuration (elapsed + seconds 20) (snd (run_state (verify_once C sleep cr operatorNs) w))
      else Some w)"

definition final_check :: "'w client \<Rightarrow> objref \<Rightarrow> string \<Rightarrow> ('w, unit result) state" where
  "final_check C cr operatorNs = do {
     r \<leftarrow> fetch as_any C cr;
     v \<leftarrow> verifyNamespaceCleanup C operatorNs;
     ret (if (case r of Inl _ \<Rightarrow> False | Inr _ \<Rightarrow> True) \<or> v = Inr True
       then Inl (Plain ''resources still exist after cleanup verification period'') else Inr ()) }"

definition waitAndVerifyCleanup :: "'w client \<Rightarrow> (duration \<Rightarrow> ('w, unit) state) \<Rightarrow> duration \<Rightarrow> objref \<Rightarrow> string \<Rightarrow> 'w \<Rightarrow>
    (unit result \<times> 'w) option" where
  "waitAndVerifyCleanup C sleep waitDuration cr operatorNs w =
     map_option (run_state (final_check C cr operatorNs)) (verify_loop C sleep cr operatorNs waitDuration 0 w)"

text \<open>\<open>strconv.Atoi\<close> with its range check, and a product of \<open>int64\<close> values, which wraps around.\<close>

definition atoi64 :: "string \<Rightarrow> int option" where
  "atoi64 s = (case atoi s of
     Some n \<Rightarrow> if - (2 ^ 63) \<le> n \<and> n < 2 ^ 63 then Some n else None
   | None \<Rightarrow> None)"

definition getCleanupVerificationWaitDuration :: "environ \<Rightarrow> duration" where
  "getCleanupVerificationWaitDuration env =
     (let waitSecondsStr = env ''CLEANUP_VERIFICATION_WAIT_SECONDS'' in
      if waitSecondsStr = '''' then 0
      else case atoi64 waitSecondsStr of None \<Rightarrow> 0 | Some waitSeconds \<Rightarrow> seconds waitSeconds)"

section \<open>The uninstallation\<close>

definition logged_as :: "string \<Rightarrow> unit result \<Rightarrow> go_error list" where
  "logged_as p r = (case r of Inl e \<Rightarrow> [Wrapped p e] | Inr _ \<Rightarrow> [])"

text \<open>Steps 0 to 2: an error here, or the errors to report at the end.\<close>

definition uninstall_steps :: "'w client \<Rightarrow> (duration \<Rightarrow> ('w, unit) state) \<Rightarrow> environ \<Rightarrow> ('w, go_error list result) state" where
  "uninstall_steps C sleep env = do {
     m \<leftarrow> createPauseMarker C (operator_ns env);
     bindE (remove_argocd C sleep (argocd_cr env)) (\<lambda>_. do {
       d \<leftarrow> deleteOperatorResourcesInternal C (operator_ns env);
       ret (Inr (logged_as ''failed to create pause marker'' m @ logged_as ''failed to delete operator resources'' d)) }) }"

fun first_error :: "go_error list \<Rightarrow> unit result" where
  "first_error [] = Inr ()"
| "first_error (e # es) = Inl e"

definition uninstallArgoCDAgentInternal :: "'w client \<Rightarrow> (duration \<Rightarrow> ('w, unit) state) \<Rightarrow> environ \<Rightarrow> 'w \<Rightarrow> (unit result \<times> 'w) option" where
  "uninstallArgoCDAgentInternal C sleep env w =
     (case run_state (uninstall_steps C sleep env) w of
        (Inl e, w1) \<Rightarrow> Some (Inl e, w1)
      | (Inr cleanupErrors, w1) \<Rightarrow>
          (let waitDuration = getCleanupVerificationWaitDuration env in
           if 0 <s waitDuration then
             map_option (\<lambda>(v, w2). (first_error (cleanupErrors @ logged_as ''cleanup verification failed'' v), w2))
               (waitAndVerifyCleanup C sleep waitDuration (argocd_cr env) (operator_ns env) w1)
           else Some (first_error cleanupErrors, w1)))"

section \<open>The loops end\<close>

text \<open>The number of rounds of the verification: one for each started period of 20 seconds.\<close>

definition rounds :: "duration \<Rightarrow> nat" where
  "rounds d = nat ((sint d + 19999999999) div 20000000000)"

lemma verify_loop_from:
  assumes "sint waitDuration < 2 ^ 63 - 20000000000"
  shows "verify_loop C sleep cr ns waitDuration elapsed w =
     Some (((\<lambda>w. snd (run_state (verify_once C sleep cr ns) w)) ^^ nat ((sint waitDuration - sint elapsed + 19999999999) div 20000000000)) w)"
proof (induction "nat (sint waitDuration - sint elapsed)" arbitrary: elapsed w rule: less_induct)
  case less
  show ?case
  proof (cases "elapsed <s waitDuration")
    case False
    then have "sint waitDuration - sint elapsed \<le> 0" by (simp add: word_sless_alt)
    then have "nat ((sint waitDuration - sint elapsed + 19999999999) div 20000000000) = 0" by simp
    with False show ?thesis by (subst verify_loop.simps) simp
  next
    case True
    let ?f = "\<lambda>w. snd (run_state (verify_once C sleep cr ns) w)"
    from True have lt: "sint elapsed < sint waitDuration" by (simp add: word_sless_alt)
    have later: "sint (elapsed + seconds 20) = sint elapsed + 20000000000"
      using lt assms by (subst sint_add_small) (simp_all add: seconds_def)
    have count: "nat ((sint waitDuration - sint elapsed + 19999999999) div 20000000000) =
        Suc (nat ((sint waitDuration - sint (elapsed + seconds 20) + 19999999999) div 20000000000))"
    proof -
      have step: "(x + 19999999999) div 20000000000 = (x - 20000000000 + 19999999999) div 20000000000 + 1"
        and pos: "0 < x \<Longrightarrow> 0 \<le> (x - 20000000000 + 19999999999) div 20000000000" for x :: int
        using div_add_self2 [of 20000000000 "x - 20000000000 + 19999999999"] by (simp_all add: pos_imp_zdiv_nonneg_iff)
      show ?thesis
        unfolding later diff_diff_eq [symmetric] step [of "sint waitDuration - sint elapsed"]
        using pos [of "sint waitDuration - sint elapsed"] lt by (simp add: Suc_nat_eq_nat_zadd1)
    qed
    have "nat (sint waitDuration - sint (elapsed + seconds 20)) < nat (sint waitDuration - sint elapsed)"
      unfolding later using lt by simp
    from less.hyps [OF this, of "?f w"] True show ?thesis
      unfolding count funpow_Suc_right by (subst verify_loop.simps) simp
  qed
qed

text \<open>A clock: requests take no time, and a sleep takes its own.\<close>

locale timed_client =
  fixes C :: "'w client" and sleep :: "duration \<Rightarrow> ('w, unit) state" and slept :: "'w \<Rightarrow> int"
  assumes get_time: "run_state (c_get C r) w = (a1, w') \<Longrightarrow> slept w' = slept w"
    and list_time: "run_state (c_list C k ns sel) w = (a2, w') \<Longrightarrow> slept w' = slept w"
    and create_time: "run_state (c_create C x) w = (a1, w') \<Longrightarrow> slept w' = slept w"
    and delete_time: "run_state (c_delete C r) w = (a3, w') \<Longrightarrow> slept w' = slept w"
    and now_time: "run_state (c_now_text C) w = (a4, w') \<Longrightarrow> slept w' = slept w"
    and sleep_time: "run_state (sleep d) w = (a5, w') \<Longrightarrow> slept w' = slept w + sint d"

interpretation timeless: run_frame "\<lambda>w w'. slept w' = slept w" for slept :: "'w \<Rightarrow> int"
  by unfold_locales auto

lemma timeless_op: "(\<And>a w w'. run_state m w = (a, w') \<Longrightarrow> slept w' = slept w) \<Longrightarrow> timeless.within slept m"
  by (rule timeless.withinI) (auto intro!: wpI)

context timed_client
begin

lemma requests_timeless:
  "timeless.within slept (fetch as_o C r)" "timeless.within slept (list_as as_o C k ns sel)" "timeless.within slept (create C x)"
  "timeless.within slept (c_delete C r)" "timeless.within slept (delete_obj C x)" "timeless.within slept (c_now_text C)"
  unfolding fetch_def list_as_def create_def delete_obj_def
  by (intro timeless.within_bindE timeless.within_option timeless.within_ret timeless_op,
      erule get_time list_time create_time delete_time now_time)+

lemma delete_resources_timeless: "timeless.within slept (deleteOperatorResourcesInternal C ns)"
  unfolding deleteOperatorResourcesInternal_def delete_listed_def
  by (intro timeless.within_bind timeless.within_sum timeless.within_log_error timeless.within_for_each timeless.within_ret
      requests_timeless)

lemma createPauseMarker_timeless: "timeless.within slept (createPauseMarker C ns)"
  unfolding createPauseMarker_def create_unless_exists_def
  by (intro timeless.within_rules requests_timeless)

lemma verifyNamespace_timeless: "timeless.within slept (verifyNamespaceCleanup C ns)"
  unfolding verifyNamespaceCleanup_def by (intro timeless.within_bind timeless.within_ret requests_timeless)

lemma wp_timeless: "timeless.within slept m \<Longrightarrow> (\<And>a w'. slept w' = slept w \<Longrightarrow> Q a w') \<Longrightarrow> wp m Q w"
  by (rule wp_mono [OF timeless.within_wp]) auto

lemma wp_sleep: "(\<And>w'. slept w' = slept w + sint d \<Longrightarrow> Q () w') \<Longrightarrow> wp (sleep d) Q w"
  by (rule wpI) (auto dest: sleep_time)

text \<open>The wait for the ArgoCD resource takes at most two minutes.\<close>

lemma wp_wait_gone:
  assumes "5000000000 dvd sint elapsed"
  shows "wp (wait_gone C sleep cr elapsed) (\<lambda>_ w'. slept w' \<le> slept w + max 0 (120000000000 - sint elapsed)) w"
  using assms
proof (induction "nat (120000000000 - sint elapsed)" arbitrary: elapsed w rule: less_induct)
  case less
  show ?case
  proof (cases "elapsed <s seconds 120")
    case False
    then show ?thesis by (subst wait_gone.simps) (simp add: wp_ret)
  next
    case True
    then have lt: "sint elapsed < 120000000000" by (simp add: word_sless_alt seconds_def)
    then have later: "sint (elapsed + seconds 5) = sint elapsed + 5000000000"
      by (subst sint_add_small) (simp_all add: seconds_def)
    have five: "sint (seconds 5) = 5000000000" by (simp add: seconds_def)
    from less.prems have dvd: "5000000000 dvd sint (elapsed + seconds 5)" unfolding later by simp
    have room: "sint elapsed + 5000000000 \<le> 120000000000"
      using lt less.prems by (auto elim!: dvdE)
    have "nat (120000000000 - sint (elapsed + seconds 5)) < nat (120000000000 - sint elapsed)"
      unfolding later using lt by simp
    note again = less.hyps [OF this dvd]
    show ?thesis
      unfolding wait_gone.simps [of C sleep cr elapsed] if_P [OF True] wp_bind
    proof (rule wp_timeless [OF requests_timeless(1)])
      fix a :: "kobj result" and w1 assume w1: "slept w1 = slept w"
      show "wp (if found_gone a then ret () else do { _ \<leftarrow> sleep (seconds 5); wait_gone C sleep cr (elapsed + seconds 5) })
        (\<lambda>_ w'. slept w' \<le> slept w + max 0 (120000000000 - sint elapsed)) w1"
      proof (cases "found_gone a")
        case True
        with w1 show ?thesis by (simp add: wp_ret)
      next
        case False
        have "wp (sleep (seconds 5) \<bind> (\<lambda>_. wait_gone C sleep cr (elapsed + seconds 5)))
          (\<lambda>_ w'. slept w' \<le> slept w + max 0 (120000000000 - sint elapsed)) w1"
          unfolding wp_bind
        proof (rule wp_sleep)
          fix w2 assume w2: "slept w2 = slept w1 + sint (seconds 5)"
          show "wp (wait_gone C sleep cr (elapsed + seconds 5)) (\<lambda>_ w'. slept w' \<le> slept w + max 0 (120000000000 - sint elapsed)) w2"
            by (rule wp_mono [OF again]) (use w1 w2 room five in \<open>simp add: later\<close>)
        qed
        with False show ?thesis by simp
      qed
    qed
  qed
qed

lemma wp_remove_argocd: "wp (remove_argocd C sleep cr) (\<lambda>_ w'. slept w' \<le> slept w + 120000000000) w"
  unfolding remove_argocd_def wp_bind
proof (rule wp_timeless [OF requests_timeless(1)])
  fix r :: "kobj result" and w1 assume w1: "slept w1 = slept w"
  have wait: "wp (do { _ \<leftarrow> wait_gone C sleep cr 0; g \<leftarrow> fetch as_any C cr; ret (f g) }) (\<lambda>_ w'. slept w' \<le> slept w + 120000000000) w2"
    if w2: "slept w2 = slept w" for w2 and f :: "kobj result \<Rightarrow> unit result"
    unfolding wp_bind
  proof (rule wp_mono [OF wp_wait_gone])
    fix a w3 assume "slept w3 \<le> slept w2 + max 0 (120000000000 - sint (0 :: duration))"
    then show "wp (fetch as_any C cr) (\<lambda>g. wp (ret (f g)) (\<lambda>_ w'. slept w' \<le> slept w + 120000000000)) w3"
      by (intro wp_timeless [OF requests_timeless(1)]) (simp add: wp_ret w2)
  qed simp
  show "wp (case r of Inl e \<Rightarrow> ret (wrap_result ''failed to check ArgoCD CR'' (ignore_not_found r))
      | Inr _ \<Rightarrow>
          bindE (do { d \<leftarrow> c_delete C cr; ret (wrap_result ''failed to delete ArgoCD CR'' (ignore_not_found d)) }) (\<lambda>_. do {
            _ \<leftarrow> wait_gone C sleep cr 0;
            g \<leftarrow> fetch as_any C cr;
            ret (wrap_result ''failed to check ArgoCD CR final status'' (ignore_not_found g)) }))
    (\<lambda>_ w'. slept w' \<le> slept w + 120000000000) w1"
  proof (cases r)
    case (Inl e)
    with w1 show ?thesis by (simp add: wp_ret)
  next
    case (Inr x)
    have "wp (bindE (do { d \<leftarrow> c_delete C cr; ret (wrap_result ''failed to delete ArgoCD CR'' (ignore_not_found d)) }) (\<lambda>_. do {
            _ \<leftarrow> wait_gone C sleep cr 0;
            g \<leftarrow> fetch as_any C cr;
            ret (wrap_result ''failed to check ArgoCD CR final status'' (ignore_not_found g)) }))
      (\<lambda>_ w'. slept w' \<le> slept w + 120000000000) w1"
      unfolding wp_bindE wp_bind [of "c_delete C cr"] wp_ret
    proof (rule wp_timeless [OF requests_timeless(4)])
      fix d w2 assume "slept w2 = slept w1"
      with w1 have w2: "slept w2 = slept w" by simp
      then show "case wrap_result ''failed to delete ArgoCD CR'' (ignore_not_found d) of
          Inl e \<Rightarrow> slept w2 \<le> slept w + 120000000000
        | Inr x \<Rightarrow> wp (do { _ \<leftarrow> wait_gone C sleep cr 0; g \<leftarrow> fetch as_any C cr;
             ret (wrap_result ''failed to check ArgoCD CR final status'' (ignore_not_found g)) }) (\<lambda>_ w'. slept w' \<le> slept w + 120000000000) w2"
        using wait [OF w2] by (simp split: sum.split)
    qed
    with Inr show ?thesis by simp
  qed
qed

end

context timed_client
begin

lemma wp_uninstall_steps: "wp (uninstall_steps C sleep env) (\<lambda>_ w'. slept w' \<le> slept w + 120000000000) w"
  unfolding uninstall_steps_def wp_bind wp_bindE
proof (rule wp_timeless [OF createPauseMarker_timeless], rule wp_mono [OF wp_remove_argocd])
  fix m :: "unit result" and w1 r w2 assume w2: "slept w1 = slept w" "slept w2 \<le> slept w1 + 120000000000"
  show "case r of Inl e \<Rightarrow> slept w2 \<le> slept w + 120000000000
    | Inr _ \<Rightarrow> wp (deleteOperatorResourcesInternal C (operator_ns env)) (\<lambda>d. wp (ret (Inr (logged_as ''failed to create pause marker'' m @
        logged_as ''failed to delete operator resources'' d))) (\<lambda>_ w'. slept w' \<le> slept w + 120000000000)) w2"
    using w2 by (auto simp: wp_ret split: sum.split intro!: wp_timeless [OF delete_resources_timeless])
qed

lemma verify_once_time: "slept (snd (run_state (verify_once C sleep cr ns) w)) = slept w + 20000000000"
proof -
  have rest: "timeless.within slept (do {
      r \<leftarrow> fetch as_any C cr;
      _ \<leftarrow> (case r of Inl _ \<Rightarrow> ret () | Inr _ \<Rightarrow> log_error (c_delete C cr));
      v \<leftarrow> verifyNamespaceCleanup C ns;
      (case v of Inr True \<Rightarrow> log_error (deleteOperatorResourcesInternal C ns) | _ \<Rightarrow> ret ()) })"
    by (intro timeless.within_bind timeless.within_sum timeless.within_log_error timeless.within_ret
        requests_timeless verifyNamespace_timeless) (auto split: bool.split intro!: timeless.within_log_error timeless.within_ret delete_resources_timeless)
  have "wp (verify_once C sleep cr ns) (\<lambda>_ w'. slept w' = slept w + 20000000000) w"
    unfolding verify_once_def wp_bind [of "sleep (seconds 20)"]
    by (rule wp_sleep, rule wp_timeless [OF rest]) (simp add: seconds_def)
  then show ?thesis by (cases "run_state (verify_once C sleep cr ns) w") (auto dest: wp_run)
qed

lemma verify_rounds_time: "slept (((\<lambda>w. snd (run_state (verify_once C sleep cr ns) w)) ^^ n) w) = slept w + 20000000000 * int n"
  by (induction n arbitrary: w) (simp_all add: funpow_Suc_right verify_once_time algebra_simps del: funpow.simps(2))

lemma final_check_timeless: "timeless.within slept (final_check C cr ns)"
  unfolding final_check_def by (intro timeless.within_bind timeless.within_ret requests_timeless verifyNamespace_timeless)

end

text \<open>The value of a finished uninstallation.\<close>

lemma uninstall_value:
  assumes "sint (getCleanupVerificationWaitDuration env) < 2 ^ 63 - 20000000000"
  shows "uninstallArgoCDAgentInternal C sleep env w =
     (case run_state (uninstall_steps C sleep env) w of
        (Inl e, w1) \<Rightarrow> Some (Inl e, w1)
      | (Inr es, w1) \<Rightarrow>
          if 0 <s getCleanupVerificationWaitDuration env then
            (case run_state (final_check C (argocd_cr env) (operator_ns env))
               (((\<lambda>w. snd (run_state (verify_once C sleep (argocd_cr env) (operator_ns env)) w)) ^^
                  rounds (getCleanupVerificationWaitDuration env)) w1) of
               (v, w2) \<Rightarrow> Some (first_error (es @ logged_as ''cleanup verification failed'' v), w2))
          else Some (first_error es, w1))"
  using verify_loop_from [OF assms, of C sleep "argocd_cr env" "operator_ns env" 0]
  by (simp add: uninstallArgoCDAgentInternal_def waitAndVerifyCleanup_def rounds_def Let_def split: prod.split sum.split)

lemma uninstall_defined:
  assumes "sint (getCleanupVerificationWaitDuration env) < 2 ^ 63 - 20000000000"
  shows "\<exists>r w'. uninstallArgoCDAgentInternal C sleep env w = Some (r, w')"
  unfolding uninstall_value [OF assms] by (simp split: prod.split sum.split)

text \<open>
  C15: The uninstallation returns, whatever the cluster and the operator do meanwhile, unless the
  verification time in the environment is within 20 seconds of the largest int64 number of
  nanoseconds; and it sleeps for at most two minutes plus 20 seconds for each started period of 20
  seconds of the verification time.
\<close>

theorem uninstall_returns:
  assumes "timed_client C sleep slept" and "sint (getCleanupVerificationWaitDuration env) < 2 ^ 63 - 20000000000"
  shows "\<exists>r w'. uninstallArgoCDAgentInternal C sleep env w = Some (r, w') \<and>
     slept w' \<le> slept w + 120000000000 + 20000000000 * int (rounds (getCleanupVerificationWaitDuration env))"
proof -
  obtain s w1 where run: "run_state (uninstall_steps C sleep env) w = (s, w1)" by (cases "run_state (uninstall_steps C sleep env) w")
  from wp_run [OF timed_client.wp_uninstall_steps [OF assms(1)] run] have w1: "slept w1 \<le> slept w + 120000000000" .
  let ?d = "getCleanupVerificationWaitDuration env"
  let ?w2 = "((\<lambda>w. snd (run_state (verify_once C sleep (argocd_cr env) (operator_ns env)) w)) ^^ rounds ?d) w1"
  obtain v w3 where final: "run_state (final_check C (argocd_cr env) (operator_ns env)) ?w2 = (v, w3)"
    by (cases "run_state (final_check C (argocd_cr env) (operator_ns env)) ?w2")
  from timeless.within_run [OF timed_client.final_check_timeless [OF assms(1)] final]
  have w3: "slept w3 = slept w1 + 20000000000 * int (rounds ?d)"
    by (simp add: timed_client.verify_rounds_time [OF assms(1)])
  show ?thesis unfolding uninstall_value [OF assms(2)] run
    using w1 w3 by (cases s) (auto simp: final)
qed

text \<open>The clock of the in-memory store.\<close>

definition mem_sleep :: "duration \<Rightarrow> (mem, unit) state" where
  "mem_sleep d = State (\<lambda>w. ((), w\<lparr>mem_nanos := mem_nanos w + sint d\<rparr>))"

lemma mem_call_time: "run_state (mem_call f) w = (a, w') \<Longrightarrow> mem_nanos w' = mem_nanos w"
  by (auto simp: mem_call_def split: list.splits option.splits prod.splits)

interpretation mem_timed: timed_client mem_client mem_sleep mem_nanos
  by unfold_locales (auto simp: mem_defs mem_sleep_def dest: mem_call_time)

lemma mem_timed_client: "timed_client mem_client mem_sleep mem_nanos"
  by (rule mem_timed.timed_client_axioms)

definition example_wait_env :: environ where
  "example_wait_env v = (if v = ''CLEANUP_VERIFICATION_WAIT_SECONDS'' then ''30'' else '''')"

definition example_stuck_argocd :: unstructured where
  "example_stuck_argocd = \<lparr>u_api_version = ''argoproj.io/v1beta1'', u_kind = ''ArgoCD'',
     u_meta = (new_meta ''argocd'' ''argocd'')\<lparr>m_finalizers := [''argoproj.io/finalizer'']\<rparr>, u_fields = []\<rparr>"

theorem uninstall_returns_witness:
  "\<exists>r w'. uninstallArgoCDAgentInternal mem_client mem_sleep example_wait_env (mem_of [OUnstr example_stuck_argocd]) = Some (r, w') \<and>
     mem_nanos w' \<le> 160000000000"
proof -
  have "atoi64 ''30'' = Some 30" by code_simp
  then have d: "getCleanupVerificationWaitDuration example_wait_env = 30000000000"
    by (simp add: getCleanupVerificationWaitDuration_def example_wait_env_def seconds_def)
  have n: "rounds 30000000000 = 2" by (simp add: rounds_def)
  have small: "sint (getCleanupVerificationWaitDuration example_wait_env) < 2 ^ 63 - 20000000000" by (simp add: d)
  from uninstall_returns [OF mem_timed_client, OF small, of "mem_of [OUnstr example_stuck_argocd]"]
  show ?thesis by (simp add: d n mem_of_def)
qed

section \<open>What an uninstallation deletes\<close>

definition labelled_objects :: "('w \<Rightarrow> objref \<Rightarrow> kobj option) \<Rightarrow> 'w \<Rightarrow> string option \<Rightarrow> kind \<Rightarrow> objref set" where
  "labelled_objects view w ns k = {q. \<exists>x. view w q = Some x \<and> kind_of x = k \<and> in_ns ns (m_namespace (meta_of x)) \<and>
     map_of (m_labels (meta_of x)) (fst addon_managed_by) = Some (snd addon_managed_by)}"

text \<open>The objects of the operator: labelled, of one of the six kinds in its namespace or of the two cluster-scoped kinds.\<close>

definition operator_objects :: "('w \<Rightarrow> objref \<Rightarrow> kobj option) \<Rightarrow> 'w \<Rightarrow> string \<Rightarrow> objref set" where
  "operator_objects view w ns = (\<Union>k \<in> set operator_kinds. labelled_objects view w (Some ns) k) \<union>
     (\<Union>k \<in> set operator_cluster_kinds. labelled_objects view w None k)"

lemma operator_kinds_eq: "operator_kinds = [KDeployment, KService, KUnstr ''v1'' ''ServiceAccount'', KConfigMap, KRoleBinding, KRole]"
  by code_simp

lemma operator_cluster_kinds_eq: "operator_cluster_kinds = [KUnstr ''rbac.authorization.k8s.io/v1'' ''ClusterRoleBinding'',
    KUnstr ''rbac.authorization.k8s.io/v1'' ''ClusterRole'']"
  by code_simp

lemma labels_match_managed: "labels_match [addon_managed_by] labels \<longleftrightarrow>
    map_of labels (fst addon_managed_by) = Some (snd addon_managed_by)"
  by (simp add: labels_match_def addon_managed_by_def)

context kube_api
begin

lemma labelled_kind: "q \<in> labelled_objects view w ns k \<Longrightarrow> ref_kind q = k"
  by (auto simp: labelled_objects_def ref_of_def dest: view_ref)

lemma labelled_other_kinds:
  assumes "only_touches view S w w'" "\<And>q. q \<in> S \<Longrightarrow> ref_kind q \<noteq> k"
  shows "labelled_objects view w' ns k = labelled_objects view w ns k"
proof -
  have "q \<in> labelled_objects view w' ns k \<longleftrightarrow> q \<in> labelled_objects view w ns k" for q
  proof (cases "ref_kind q = k")
    case True
    with assms(2) have "q \<notin> S" by blast
    with assms(1) show ?thesis by (simp add: labelled_objects_def only_touches_def)
  next
    case False
    with labelled_kind show ?thesis by blast
  qed
  then show ?thesis by blast
qed

text \<open>Whatever fails, nothing but the listed objects is touched.\<close>

lemma listed_objects:
  assumes "\<And>x. x \<in> set xs \<longleftrightarrow> view w (ref_of x) = Some x \<and> kind_of x = k \<and> in_ns ns (m_namespace (meta_of x)) \<and>
         labels_match [addon_managed_by] (m_labels (meta_of x))"
  shows "ref_of ` set xs = labelled_objects view w ns k"
proof (rule set_eqI)
  fix q
  show "q \<in> ref_of ` set xs \<longleftrightarrow> q \<in> labelled_objects view w ns k"
  proof
    assume "q \<in> ref_of ` set xs"
    then obtain x where "x \<in> set xs" "q = ref_of x" by blast
    then show "q \<in> labelled_objects view w ns k"
      unfolding assms labelled_objects_def labels_match_managed by blast
  next
    assume "q \<in> labelled_objects view w ns k"
    then obtain x where x: "view w q = Some x" "kind_of x = k" "in_ns ns (m_namespace (meta_of x))"
      "map_of (m_labels (meta_of x)) (fst addon_managed_by) = Some (snd addon_managed_by)"
      by (auto simp: labelled_objects_def)
    from view_ref [OF x(1)] x have "x \<in> set xs" unfolding assms labels_match_managed by simp
    with view_ref [OF x(1)] show "q \<in> ref_of ` set xs" by blast
  qed
qed

lemma map_filter_any: "List.map_filter as_any xs = xs"
  by (induction xs) (auto simp: List.map_filter_simps)

lemma wp_delete_listed: "wp (delete_listed C ns k) (\<lambda>_. only_touches view (labelled_objects view w ns k) w) w"
  unfolding delete_listed_def wp_bind
proof (rule wp_list_as)
  fix xs w1 assume v: "view w1 = view w" "distinct (map ref_of xs)" and
    xs: "\<And>x. x \<in> set xs \<longleftrightarrow> view w (ref_of x) = Some x \<and> kind_of x = k \<and> in_ns ns (m_namespace (meta_of x)) \<and>
       labels_match [addon_managed_by] (m_labels (meta_of x))"
  have "wp (for_each (\<lambda>item. log_error (delete_obj C item)) xs) (\<lambda>_. only_touches view (ref_of ` set xs) w1) w1"
    by (intro touches) (simp del: ref_of_simps)
  then show "wp (case Inr (List.map_filter as_any xs) of Inl _ \<Rightarrow> ret ()
      | Inr items \<Rightarrow> for_each (\<lambda>item. log_error (delete_obj C item)) items)
    (\<lambda>_. only_touches view (labelled_objects view w ns k) w) w1"
    unfolding map_filter_any sum.case listed_objects [OF xs] by (rule wp_mono) (simp add: only_touches_def v(1))
qed (simp add: wp_ret only_touches_view)

lemma wp_delete_kinds:
  assumes "distinct ks"
  shows "wp (for_each (delete_listed C ns) ks) (\<lambda>_. only_touches view (\<Union>k \<in> set ks. labelled_objects view w ns k) w) w"
  using assms
proof (induction ks arbitrary: w)
  case (Cons k ks)
  show ?case
    unfolding for_each.simps
  proof (rule wp_bind_rule [OF wp_delete_listed])
    fix u :: unit and w1 assume t: "only_touches view (labelled_objects view w ns k) w w1"
    have "labelled_objects view w1 ns k' = labelled_objects view w ns k'" if "k' \<in> set ks" for k'
      using that Cons.prems by (intro labelled_other_kinds [OF t]) (auto dest: labelled_kind)
    then have eq: "(\<Union>k \<in> set ks. labelled_objects view w1 ns k) = (\<Union>k \<in> set ks. labelled_objects view w ns k)" by simp
    show "wp (for_each (delete_listed C ns) ks) (\<lambda>_. only_touches view (\<Union>k \<in> set (k # ks). labelled_objects view w ns k) w) w1"
      by (rule wp_mono [OF Cons.IH]) (use Cons.prems t eq in \<open>auto simp: only_touches_def\<close>)
  qed
qed (simp add: wp_ret)

lemma cluster_kinds_apart:
  assumes "only_touches view (\<Union>k \<in> set operator_kinds. labelled_objects view w (Some ns) k) w w1"
  shows "(\<Union>k \<in> set operator_cluster_kinds. labelled_objects view w1 None k) =
     (\<Union>k \<in> set operator_cluster_kinds. labelled_objects view w None k)"
proof -
  have "labelled_objects view w1 None k = labelled_objects view w None k" if "k \<in> set operator_cluster_kinds" for k
    using that by (intro labelled_other_kinds [OF assms])
      (auto simp: operator_kinds_eq operator_cluster_kinds_eq dest!: labelled_kind)
  then show ?thesis by simp
qed

lemma operator_kinds_distinct: "distinct operator_kinds" "distinct operator_cluster_kinds"
  by (simp_all add: operator_kinds_eq operator_cluster_kinds_eq)

lemma wp_deleteOperatorResources:
  "wp (deleteOperatorResourcesInternal C ns) (\<lambda>r w'. r = Inr () \<and> only_touches view (operator_objects view w ns) w w') w"
  unfolding deleteOperatorResourcesInternal_def
proof (rule wp_bind_rule [OF wp_delete_kinds [OF operator_kinds_distinct(1)]])
  fix u :: unit and w1 assume t: "only_touches view (\<Union>k \<in> set operator_kinds. labelled_objects view w (Some ns) k) w w1"
  show "wp (do { _ \<leftarrow> for_each (delete_listed C None) operator_cluster_kinds; ret (Inr ()) })
     (\<lambda>r w'. r = Inr () \<and> only_touches view (operator_objects view w ns) w w') w1"
    unfolding wp_bind wp_ret
    by (rule wp_mono [OF wp_delete_kinds [OF operator_kinds_distinct(2)]])
      (use t cluster_kinds_apart [OF t] in \<open>auto simp: only_touches_def operator_objects_def\<close>)
qed

end

context reliable_api
begin

lemma wp_delete_listed_healthy:
  assumes "healthy w"
  shows "wp (delete_listed C ns k) (\<lambda>_. removes view healthy (labelled_objects view w ns k) w) w"
  unfolding delete_listed_def wp_bind
proof (rule wp_list_healthy [OF assms])
  fix xs w1 assume v: "healthy w1" "view w1 = view w" "distinct (map ref_of xs)" and
    xs: "\<And>x. x \<in> set xs \<longleftrightarrow> view w (ref_of x) = Some x \<and> kind_of x = k \<and> in_ns ns (m_namespace (meta_of x)) \<and>
       labels_match [addon_managed_by] (m_labels (meta_of x))"
  have "wp (for_each (\<lambda>item. log_error (delete_obj C item)) xs) (\<lambda>_. removes view healthy (ref_of ` set xs) w1) w1"
    by (rule wp_delete_all) (use v xs in auto)
  then show "wp (case Inr (List.map_filter as_any xs) of Inl _ \<Rightarrow> ret ()
      | Inr items \<Rightarrow> for_each (\<lambda>item. log_error (delete_obj C item)) items)
    (\<lambda>_. removes view healthy (labelled_objects view w ns k) w) w1"
    unfolding map_filter_any sum.case listed_objects [OF xs] by (rule wp_mono) (simp add: removes_def only_touches_def v(2))
qed

lemma wp_delete_kinds_healthy:
  assumes "distinct ks" "healthy w"
  shows "wp (for_each (delete_listed C ns) ks) (\<lambda>_. removes view healthy (\<Union>k \<in> set ks. labelled_objects view w ns k) w) w"
  using assms
proof (induction ks arbitrary: w)
  case (Cons k ks)
  show ?case
    unfolding for_each.simps
  proof (rule wp_bind_rule [OF wp_delete_listed_healthy [OF Cons.prems(2)]])
    fix u :: unit and w1 assume r: "removes view healthy (labelled_objects view w ns k) w w1"
    then have "healthy w1" and t: "only_touches view (labelled_objects view w ns k) w w1" by (simp_all add: removes_def)
    have "labelled_objects view w1 ns k' = labelled_objects view w ns k'" if "k' \<in> set ks" for k'
      using that Cons.prems(1) by (intro labelled_other_kinds [OF t]) (auto dest: labelled_kind)
    then have eq: "(\<Union>k \<in> set ks. labelled_objects view w1 ns k) = (\<Union>k \<in> set ks. labelled_objects view w ns k)" by simp
    have "wp (for_each (delete_listed C ns) ks) (\<lambda>_. removes view healthy (\<Union>k \<in> set ks. labelled_objects view w1 ns k) w1) w1"
      using Cons.prems(1) \<open>healthy w1\<close> by (intro Cons.IH) simp_all
    then show "wp (for_each (delete_listed C ns) ks) (\<lambda>_. removes view healthy (\<Union>k \<in> set (k # ks). labelled_objects view w ns k) w) w1"
      by (rule wp_mono) (use removes_union [OF r] eq in simp)
  qed
qed (simp add: wp_ret removes_def)

lemma wp_deleteOperatorResources_healthy:
  assumes "healthy w"
  shows "wp (deleteOperatorResourcesInternal C ns) (\<lambda>_. removes view healthy (operator_objects view w ns) w) w"
  unfolding deleteOperatorResourcesInternal_def
proof (rule wp_bind_rule [OF wp_delete_kinds_healthy [OF operator_kinds_distinct(1) assms]])
  fix u :: unit and w1 assume r: "removes view healthy (\<Union>k \<in> set operator_kinds. labelled_objects view w (Some ns) k) w w1"
  then have "healthy w1" and t: "only_touches view (\<Union>k \<in> set operator_kinds. labelled_objects view w (Some ns) k) w w1"
    by (simp_all add: removes_def)
  show "wp (do { _ \<leftarrow> for_each (delete_listed C None) operator_cluster_kinds; ret (Inr ()) })
     (\<lambda>_. removes view healthy (operator_objects view w ns) w) w1"
    unfolding wp_bind wp_ret
    by (rule wp_mono [OF wp_delete_kinds_healthy [OF operator_kinds_distinct(2) \<open>healthy w1\<close>]])
      (use removes_union [OF r] cluster_kinds_apart [OF t] in \<open>simp add: operator_objects_def\<close>)
qed

end

text \<open>
  C25: Deleting the operator's resources reports no error and, whatever its requests do, never
  touches an object other than the labelled ones of the eight kinds; with an API server that
  answers, all of these are gone or on their way out.
\<close>

theorem operator_resources_deleted:
  assumes "kube_api C view" and "run_state (deleteOperatorResourcesInternal C ns) w = (r, w')"
  shows "r = Inr () \<and> (\<forall>q. q \<notin> operator_objects view w ns \<longrightarrow> view w' q = view w q) \<and>
     ((\<exists>healthy. reliable_api C view healthy \<and> healthy w) \<longrightarrow> (\<forall>q \<in> operator_objects view w ns. gone view w' q))"
proof -
  have "gone view w' q" if "reliable_api C view healthy" "healthy w" "q \<in> operator_objects view w ns" for healthy q
    using wp_run [OF reliable_api.wp_deleteOperatorResources_healthy [OF that(1,2)] assms(2)] that(3) by (simp add: removes_def)
  moreover from wp_run [OF kube_api.wp_deleteOperatorResources [OF assms(1)] assms(2)]
  have "r = Inr ()" "\<forall>q. q \<notin> operator_objects view w ns \<longrightarrow> view w' q = view w q" by (simp_all add: only_touches_def)
  ultimately show ?thesis by blast
qed

definition example_addon_deployment :: "string \<Rightarrow> string \<Rightarrow> deployment" where
  "example_addon_deployment ns name = \<lparr>dep_meta = (new_meta name ns)\<lparr>m_labels := [addon_managed_by]\<rparr>, dep_template_annotations = []\<rparr>"

definition example_other_deployment :: deployment where
  "example_other_deployment = \<lparr>dep_meta = new_meta ''other'' ''argocd-operator-system'', dep_template_annotations = []\<rparr>"

definition example_installed_world :: mem where
  "example_installed_world = mem_of [ODeployment (example_addon_deployment ''argocd-operator-system'' ''argocd-operator''),
     ODeployment example_other_deployment, OUnstr example_stuck_argocd]"

theorem operator_resources_deleted_witness:
  "let w' = snd (run_state (deleteOperatorResourcesInternal mem_client ''argocd-operator-system'') example_installed_world)
   in gone mem_view w' (Ref KDeployment ''argocd-operator-system'' ''argocd-operator'') \<and>
      mem_view w' (Ref KDeployment ''argocd-operator-system'' ''other'') = Some (ODeployment example_other_deployment)"
proof -
  let ?w = example_installed_world
  let ?run = "run_state (deleteOperatorResourcesInternal mem_client ''argocd-operator-system'') ?w"
  let ?a = "Ref KDeployment ''argocd-operator-system'' ''argocd-operator''" and ?b = "Ref KDeployment ''argocd-operator-system'' ''other''"
  have h: "mem_healthy ?w" by code_simp
  have a: "mem_view ?w ?a = Some (ODeployment (example_addon_deployment ''argocd-operator-system'' ''argocd-operator''))" by code_simp
  have b: "mem_view ?w ?b = Some (ODeployment example_other_deployment)" by code_simp
  have ina: "?a \<in> operator_objects mem_view ?w ''argocd-operator-system''"
    using a by (simp add: operator_objects_def labelled_objects_def operator_kinds_eq in_ns_def example_addon_deployment_def)
  have inb: "?b \<notin> operator_objects mem_view ?w ''argocd-operator-system''"
    using b by (auto simp: operator_objects_def labelled_objects_def example_other_deployment_def)
  have run: "?run = (fst ?run, snd ?run)" by simp
  have gone: "gone mem_view (snd ?run) ?a"
    using operator_resources_deleted [OF mem_kube_api, OF run] mem_reliable_api h ina by blast
  have "mem_view (snd ?run) ?b = mem_view ?w ?b"
    using operator_resources_deleted [OF mem_kube_api, OF run] inb by blast
  with gone b show ?thesis by (simp add: Let_def)
qed

section \<open>A failed uninstallation\<close>

abbreviation pause_ref :: "environ \<Rightarrow> objref" where
  "pause_ref env \<equiv> Ref KConfigMap (operator_ns env) PauseMarkerName"

lemma pause_marker_sel [simp]:
  "m_namespace (cm_meta (pause_marker ns t)) = ns" "m_name (cm_meta (pause_marker ns t)) = PauseMarkerName"
  by (simp_all add: pause_marker_def)

text \<open>Sleeping without a concurrent writer.\<close>

definition quiet_sleep :: "(duration \<Rightarrow> ('w, unit) state) \<Rightarrow> ('w \<Rightarrow> objref \<Rightarrow> kobj option) \<Rightarrow> bool" where
  "quiet_sleep sleep view = (\<forall>d w u w'. run_state (sleep d) w = (u, w') \<longrightarrow> view w' = view w)"

lemma wp_quiet_sleep: "quiet_sleep sleep view \<Longrightarrow> wp (sleep d) (\<lambda>_. only_touches view S w) w"
  by (rule wpI) (auto simp: quiet_sleep_def intro: only_touches_view)

context kube_api
begin

lemma wp_touches_wait:
  assumes "quiet_sleep sleep view"
  shows "C' = C \<Longrightarrow> sleep' = sleep \<Longrightarrow> wp (wait_gone C' sleep' cr elapsed) (\<lambda>_. only_touches view S w) w"
proof (induction C' sleep' cr elapsed arbitrary: w rule: wait_gone.induct)
  case (1 C' sleep' cr elapsed)
  then show ?case
    unfolding wait_gone.simps [of C' sleep' cr elapsed]
    by (intro touches) (auto intro: wp_quiet_sleep [OF assms] wp_touches_fetch)
qed

lemma wp_touches_remove:
  assumes "quiet_sleep sleep view"
  shows "wp (remove_argocd C sleep cr) (\<lambda>_. only_touches view {cr} w) w"
  unfolding remove_argocd_def by (intro touches wp_touches_wait [OF assms refl refl]) simp_all

lemma wp_touches_marker: "wp (createPauseMarker C ns) (\<lambda>_. only_touches view {Ref KConfigMap ns PauseMarkerName} w) w"
  unfolding createPauseMarker_def create_unless_exists_def by (intro touches) simp

end

text \<open>The errors that stop the uninstallation: those of the ArgoCD resource, except that it is not there.\<close>

definition argocd_error :: "go_error \<Rightarrow> bool" where
  "argocd_error e = (\<exists>p e'. e = Wrapped p e' \<and> \<not> is_not_found e' \<and>
     p \<in> {''failed to check ArgoCD CR'', ''failed to delete ArgoCD CR'', ''failed to check ArgoCD CR final status''})"

lemma ignore_not_found_error:
  "wrap_result p (ignore_not_found r) = Inl e \<Longrightarrow>
   p \<in> {''failed to check ArgoCD CR'', ''failed to delete ArgoCD CR'', ''failed to check ArgoCD CR final status''} \<Longrightarrow> argocd_error e"
  by (auto simp: ignore_not_found_def argocd_error_def split: sum.splits if_splits)

lemma wp_remove_errors: "wp (remove_argocd C sleep cr) (\<lambda>r _. \<forall>e. r = Inl e \<longrightarrow> argocd_error e) w"
  unfolding remove_argocd_def
  by (auto simp: wp_run_iff bindE_def split: prod.splits sum.splits dest: ignore_not_found_error)

text \<open>The operator outlives the ArgoCD resource: the step that deletes the resource succeeds only when it is gone or on its way out.\<close>

lemma ignore_not_found_simps:
  "ignore_not_found (Inr x) = Inr ()" "ignore_not_found (Inl e) = (if is_not_found e then Inr () else Inl e)"
  by (simp_all add: ignore_not_found_def)

lemma goneI: "(\<And>x. view w r = Some x \<Longrightarrow> terminating x) \<Longrightarrow> gone view w r"
  by (simp add: gone_def)

lemma argocd_not_operator:
  assumes "kube_api C view"
  shows "argocd_cr env \<notin> operator_objects view w ns"
proof
  assume "argocd_cr env \<in> operator_objects view w ns"
  then obtain k where "k \<in> set operator_kinds \<union> set operator_cluster_kinds" "ref_kind (argocd_cr env) = k"
    by (auto simp: operator_objects_def dest: kube_api.labelled_kind [OF assms])
  then show False by (auto simp: operator_kinds_eq operator_cluster_kinds_eq argocd_cr_def)
qed

context kube_api
begin

lemma wp_remove_gone:
  assumes "quiet_sleep sleep view"
  shows "wp (remove_argocd C sleep cr) (\<lambda>r w'. r = Inr () \<longrightarrow> gone view w' cr) w"
  unfolding remove_argocd_def wp_bind
proof (rule wp_fetch, goal_cases)
  case (1 x y w1)
  have wait: "wp (do { _ \<leftarrow> wait_gone C sleep cr 0; g \<leftarrow> fetch as_any C cr; ret (f g) }) (\<lambda>r w'. r = Inr () \<longrightarrow> gone view w' cr) w2"
    if "gone view w2 cr" for w2 and f :: "kobj result \<Rightarrow> unit result"
  proof -
    have "wp (do { _ \<leftarrow> wait_gone C sleep cr 0; g \<leftarrow> fetch as_any C cr; ret (f g) }) (\<lambda>_. only_touches view {} w2) w2"
      by (intro touches wp_touches_wait [OF assms refl refl] wp_touches_fetch)
    then show ?thesis by (rule wp_mono) (use that in \<open>auto intro: gone_other\<close>)
  qed
  show ?case
    unfolding sum.case wp_bindE wp_bind [of "c_delete C cr"] wp_ret
    by (rule wp_delete) (auto simp: ignore_not_found_simps intro!: wait goneI)
next
  case (2 e w1)
  then show ?case by (auto simp: wp_ret ignore_not_found_simps intro!: goneI)
qed

end

text \<open>
  C26: Unless the ArgoCD resource is gone or on its way out, the steps of the uninstallation
  before its verification end in an error about this resource. The uninstallation then returns
  that error, and nothing but the pause marker and the ArgoCD resource has been touched: the
  operator that should finalize it still runs. Nobody else is taken to write while the
  uninstallation sleeps.
\<close>

theorem failed_uninstall_keeps_operator:
  assumes "kube_api C view" and "quiet_sleep sleep view" and "run_state (uninstall_steps C sleep env) w = (r, w')"
  shows "(gone view w' (argocd_cr env) \<or> (\<exists>e. r = Inl e)) \<and>
     (\<forall>e. r = Inl e \<longrightarrow> uninstallArgoCDAgentInternal C sleep env w = Some (Inl e, w') \<and> argocd_error e \<and>
        (\<forall>q. q \<noteq> pause_ref env \<and> q \<noteq> argocd_cr env \<longrightarrow> view w' q = view w q))"
proof -
  let ?rest = "\<lambda>m. do {
        d \<leftarrow> deleteOperatorResourcesInternal C (operator_ns env);
        ret (Inr (logged_as ''failed to create pause marker'' m @ logged_as ''failed to delete operator resources'' d)) }"
  let ?Q = "\<lambda>r w'. (gone view w' (argocd_cr env) \<or> (\<exists>e. r = Inl e)) \<and>
     (\<forall>e. r = Inl e \<longrightarrow> argocd_error e \<and> only_touches view {pause_ref env, argocd_cr env} w w')"
  have delete: "wp (?rest m) ?Q w2" if "gone view w2 (argocd_cr env)" for m w2
    unfolding wp_bind wp_ret
    by (rule wp_mono [OF kube_api.wp_deleteOperatorResources [OF assms(1)]])
      (use that argocd_not_operator [OF assms(1)] in \<open>auto intro: gone_other\<close>)
  have "wp (uninstall_steps C sleep env) ?Q w"
    unfolding uninstall_steps_def
  proof (rule wp_bind_rule [OF kube_api.wp_touches_marker [OF assms(1)]])
    fix m :: "unit result" and w1 assume t: "only_touches view {pause_ref env} w w1"
    show "wp (bindE (remove_argocd C sleep (argocd_cr env)) (\<lambda>_. ?rest m)) ?Q w1"
    proof (rule wp_bindE_rule [OF wp_conj [OF kube_api.wp_touches_remove [OF assms(1,2)]
          wp_conj [OF wp_remove_errors kube_api.wp_remove_gone [OF assms(1,2)]]]], goal_cases)
      case (1 e w2)
      with t show ?case by (auto simp: only_touches_def)
    next
      case (2 u w2)
      then show ?case by (intro delete) simp
    qed
  qed
  from wp_run [OF this assms(3)] show ?thesis
    by (auto simp: uninstallArgoCDAgentInternal_def assms(3) only_touches_def)
qed

text \<open>The API server refuses the deletion of the ArgoCD resource.\<close>

definition example_refusing_world :: mem where
  "example_refusing_world = example_installed_world\<lparr>mem_faults := [None, None, Some ''forbidden'']\<rparr>"

lemma mem_quiet_sleep: "quiet_sleep mem_sleep mem_view"
  by (auto simp: quiet_sleep_def mem_sleep_def mem_view_def fun_eq_iff)

theorem failed_uninstall_keeps_operator_witness:
  "\<exists>e w'. uninstallArgoCDAgentInternal mem_client mem_sleep example_env example_refusing_world = Some (Inl e, w') \<and>
     mem_view w' (Ref KDeployment ''argocd-operator-system'' ''argocd-operator'') =
       Some (ODeployment (example_addon_deployment ''argocd-operator-system'' ''argocd-operator''))"
proof -
  let ?w = example_refusing_world and ?q = "Ref KDeployment ''argocd-operator-system'' ''argocd-operator''"
  let ?run = "run_state (uninstall_steps mem_client mem_sleep example_env) ?w"
  have a: "mem_view ?w ?q = Some (ODeployment (example_addon_deployment ''argocd-operator-system'' ''argocd-operator''))" by code_simp
  have "fst ?run = Inl (Wrapped ''failed to delete ArgoCD CR'' (ApiStatus SOther ''forbidden''))" by code_simp
  then have run: "?run = (Inl (Wrapped ''failed to delete ArgoCD CR'' (ApiStatus SOther ''forbidden'')), snd ?run)"
    by (metis prod.collapse)
  have "?q \<noteq> pause_ref example_env" "?q \<noteq> argocd_cr example_env" by (simp_all add: argocd_cr_def)
  with failed_uninstall_keeps_operator [OF mem_kube_api, OF mem_quiet_sleep, OF run] a show ?thesis by metis
qed

end
