(* ===== verification/Addon_Controller.thy ===== *)
theory Addon_Controller
  imports Addon_Cleanup Work_Cleanup
begin

text \<open>
  \<open>internal/addon/addon_controller.go\<close>: the controller that installs the agent periodically unless it is paused, and the one that
  uninstalls it once and ends the process. The ticks of \<open>wait.UntilWithContext\<close> and the end of the context are the argument \<open>events\<close>.
\<close>

section \<open>The controllers\<close>

text \<open>The manager of controller-runtime that takes the reconciler is the argument \<open>mgr_add\<close>.\<close>

definition SetupWithManager :: "(int \<Rightarrow> string \<Rightarrow> unit result) \<Rightarrow> int \<Rightarrow> string \<Rightarrow> unit result" where
  "SetupWithManager mgr_add interval operatorImage =
     (if operatorImage = '''' then
        Inl (Plain ''operatorImage must not be empty (set via ARGOCD_OPERATOR_IMAGE at runtime or Makefile / ldflags)'')
      else case ParseImageReference operatorImage of
        Inl e \<Rightarrow> Inl (Wrapped (''invalid operatorImage '' @ operatorImage) e)
      | Inr _ \<Rightarrow> mgr_add interval operatorImage)"

definition reconcile_addon :: "'w client \<Rightarrow> ('w, 'c, 'v) chart_lib \<Rightarrow> environ \<Rightarrow> (string \<Rightarrow> string) \<Rightarrow> string \<Rightarrow> ('w, unit) state" where
  "reconcile_addon C L env sha operatorImage = do {
     paused \<leftarrow> IsPaused C (operator_ns env);
     if paused then ret () else log_error (installOrUpdateArgoCDAgent C L env sha operatorImage) }"

fun addon_loop :: "'w client \<Rightarrow> ('w, 'c, 'v) chart_lib \<Rightarrow> environ \<Rightarrow> (string \<Rightarrow> string) \<Rightarrow> string \<Rightarrow> cleanup_event list \<Rightarrow> ('w, unit) state" where
  "addon_loop C L env sha operatorImage [] = ret ()"
| "addon_loop C L env sha operatorImage (Done # events) = ret ()"
| "addon_loop C L env sha operatorImage (Tick # events) = do {
     _ \<leftarrow> reconcile_addon C L env sha operatorImage;
     addon_loop C L env sha operatorImage events }"

definition start_addon :: "'w client \<Rightarrow> ('w, 'c, 'v) chart_lib \<Rightarrow> environ \<Rightarrow> (string \<Rightarrow> string) \<Rightarrow> string \<Rightarrow> cleanup_event list \<Rightarrow>
    ('w, unit result) state" where
  "start_addon C L env sha operatorImage events = do {
     _ \<leftarrow> reconcile_addon C L env sha operatorImage;
     _ \<leftarrow> addon_loop C L env sha operatorImage events;
     ret (Inr ()) }"

text \<open>The exit code of the process that cleans up.\<close>

definition start_uninstall :: "'w client \<Rightarrow> (duration \<Rightarrow> ('w, unit) state) \<Rightarrow> environ \<Rightarrow> 'w \<Rightarrow> (nat \<times> 'w) option" where
  "start_uninstall C sleep env w = map_option (\<lambda>(r, w'). (case r of Inl _ \<Rightarrow> 1 | Inr _ \<Rightarrow> 0, w')) (uninstallArgoCDAgentInternal C sleep env w)"

section \<open>Pausing\<close>

definition paused :: "('w \<Rightarrow> objref \<Rightarrow> kobj option) \<Rightarrow> environ \<Rightarrow> 'w \<Rightarrow> bool" where
  "paused view env w = (\<exists>m. view w (pause_ref env) = Some (OConfigMap m) \<and> mget (cm_data m) ''paused'' = ''true'')"

text \<open>A marker that the deletion of the operator's resources does not find.\<close>

definition lasting_pause :: "('w \<Rightarrow> objref \<Rightarrow> kobj option) \<Rightarrow> environ \<Rightarrow> 'w \<Rightarrow> bool" where
  "lasting_pause view env w = (\<exists>m. view w (pause_ref env) = Some (OConfigMap m) \<and> mget (cm_data m) ''paused'' = ''true'' \<and>
     map_of (m_labels (cm_meta m)) (fst addon_managed_by) \<noteq> Some (snd addon_managed_by))"

lemma lasting_paused: "lasting_pause view env w \<Longrightarrow> paused view env w"
  by (auto simp: lasting_pause_def paused_def)

lemma lasting_pause_cong: "view w' (pause_ref env) = view w (pause_ref env) \<Longrightarrow> lasting_pause view env w' = lasting_pause view env w"
  by (simp add: lasting_pause_def)

lemma lasting_not_operator: "lasting_pause view env w \<Longrightarrow> pause_ref env \<notin> operator_objects view w ns"
  by (auto simp: lasting_pause_def operator_objects_def labelled_objects_def)

text \<open>An invariant of a world as a preorder on worlds.\<close>

interpretation keeps: run_frame "\<lambda>w w'. I w \<longrightarrow> I w'" for I :: "'w \<Rightarrow> bool"
  by unfold_locales auto

lemma keepsI: "(\<And>w. I w \<Longrightarrow> wp m (\<lambda>_. I) w) \<Longrightarrow> keeps.within I m"
  by (rule keeps.withinI) (auto simp: wp_run_iff)

context reliable_api
begin

lemma reconcile_paused:
  assumes "healthy w" "paused view env w"
  shows "wp (reconcile_addon C L env sha img) (\<lambda>_ w'. healthy w' \<and> view w' = view w) w"
  unfolding reconcile_addon_def IsPaused_def wp_bind wp_ret
  by (rule wp_fetch_healthy [OF assms(1)]) (use assms(2) in \<open>auto simp: paused_def wp_ret\<close>)

lemma paused_cong: "view w' = view w \<Longrightarrow> paused view env w' = paused view env w"
  by (simp add: paused_def)

lemma addon_loop_paused:
  "healthy w \<Longrightarrow> paused view env w \<Longrightarrow> wp (addon_loop C L env sha img events) (\<lambda>_ w'. healthy w' \<and> view w' = view w) w"
proof (induction events arbitrary: w)
  case (Cons ev events)
  show ?case
  proof (cases ev)
    case Tick
    show ?thesis
      unfolding Tick addon_loop.simps
    proof (rule wp_bind_rule [OF reconcile_paused [OF Cons.prems]], elim conjE)
      fix u :: unit and w1 assume w1: "healthy w1" "view w1 = view w"
      from Cons.IH [OF w1(1)] Cons.prems(2) paused_cong [OF w1(2)] w1(2)
      show "wp (addon_loop C L env sha img events) (\<lambda>_ w'. healthy w' \<and> view w' = view w) w1" by simp
    qed
  qed (simp add: wp_ret Cons.prems)
qed (simp add: wp_ret)

lemma start_addon_paused:
  assumes "healthy w" "paused view env w"
  shows "wp (start_addon C L env sha img events) (\<lambda>_ w'. view w' = view w) w"
  unfolding start_addon_def
proof (rule wp_bind_rule [OF reconcile_paused [OF assms]], elim conjE)
  fix u :: unit and w1 assume w1: "healthy w1" "view w1 = view w"
  have "paused view env w1" using assms(2) paused_cong [OF w1(2)] by simp
  from addon_loop_paused [OF w1(1) this]
  show "wp (do { _ \<leftarrow> addon_loop C L env sha img events; ret (Inr ()) }) (\<lambda>_ w'. view w' = view w) w1"
    unfolding wp_bind wp_ret by (rule wp_mono) (simp add: w1(2))
qed

end

subsection \<open>The uninstallation leaves the marker\<close>

text \<open>What happens during a sleep: anything, except that the marker stays.\<close>

definition spares_marker :: "(duration \<Rightarrow> ('w, unit) state) \<Rightarrow> ('w \<Rightarrow> objref \<Rightarrow> kobj option) \<Rightarrow> environ \<Rightarrow> bool" where
  "spares_marker sleep view env = (\<forall>d w u w'. run_state (sleep d) w = (u, w') \<longrightarrow> view w' (pause_ref env) = view w (pause_ref env))"

lemma argocd_not_marker: "argocd_cr env \<noteq> pause_ref env"
  by (simp add: argocd_cr_def)

lemma sleep_held: "spares_marker sleep view env \<Longrightarrow> keeps.within (lasting_pause view env) (sleep d)"
  by (rule keepsI, rule wpI) (auto simp: spares_marker_def lasting_pause_def)

context kube_api
begin

lemma touches_held:
  assumes "\<And>w. lasting_pause view env w \<Longrightarrow> wp m (\<lambda>_. only_touches view (S w) w) w" "\<And>w. lasting_pause view env w \<Longrightarrow> pause_ref env \<notin> S w"
  shows "keeps.within (lasting_pause view env) m"
proof (rule keepsI)
  fix w assume w: "lasting_pause view env w"
  show "wp m (\<lambda>_. lasting_pause view env) w"
    by (rule wp_mono [OF assms(1) [OF w]]) (use w assms(2) [OF w] in \<open>simp add: only_touches_def lasting_pause_def\<close>)
qed

lemma fetch_held: "keeps.within (lasting_pause view env) (fetch as_o C r)"
  by (rule touches_held [OF wp_touches_fetch, of _ "\<lambda>_. {}"]) simp

lemma list_held: "keeps.within (lasting_pause view env) (list_as as_o C k ns sel)"
  by (rule touches_held [OF wp_touches_list, of _ "\<lambda>_. {}"]) simp

lemma delete_held: "cr \<noteq> pause_ref env \<Longrightarrow> keeps.within (lasting_pause view env) (c_delete C cr)"
  by (rule touches_held [where S = "\<lambda>_. {cr}"]) (auto intro: wp_touches_delete)

lemma delete_resources_held: "keeps.within (lasting_pause view env) (deleteOperatorResourcesInternal C ns)"
  by (rule touches_held [of _ _ "\<lambda>w. operator_objects view w ns"])
    (auto intro: wp_mono [OF wp_deleteOperatorResources] dest: lasting_not_operator)

lemma wait_held:
  assumes "\<And>d. keeps.within (lasting_pause view env) (sleep d)"
  shows "C' = C \<Longrightarrow> sleep' = sleep \<Longrightarrow> keeps.within (lasting_pause view env) (wait_gone C' sleep' cr elapsed)"
proof (induction C' sleep' cr elapsed rule: wait_gone.induct)
  case (1 C' sleep' cr elapsed)
  then show ?case
    unfolding wait_gone.simps [of C' sleep' cr elapsed]
    by (intro keeps.within_rules) (auto intro: fetch_held assms)
qed

lemma remove_held:
  assumes "spares_marker sleep view env"
  shows "keeps.within (lasting_pause view env) (remove_argocd C sleep (argocd_cr env))"
  unfolding remove_argocd_def
  by (intro keeps.within_bind keeps.within_bindE keeps.within_sum keeps.within_ret fetch_held delete_held argocd_not_marker
      wait_held [OF sleep_held [OF assms] refl refl])

lemma verifyNamespace_held: "keeps.within (lasting_pause view env) (verifyNamespaceCleanup C ns)"
  unfolding verifyNamespaceCleanup_def by (intro keeps.within_bind keeps.within_ret list_held)

lemma verify_once_held:
  assumes "spares_marker sleep view env"
  shows "keeps.within (lasting_pause view env) (verify_once C sleep (argocd_cr env) ns)"
  unfolding verify_once_def
  by (intro keeps.within_bind keeps.within_sum keeps.within_log_error keeps.within_ret fetch_held delete_held argocd_not_marker
      verifyNamespace_held sleep_held [OF assms])
    (auto split: bool.split intro!: keeps.within_log_error keeps.within_ret delete_resources_held)

lemma verify_rounds_held:
  assumes "spares_marker sleep view env"
  shows "lasting_pause view env w \<Longrightarrow>
    lasting_pause view env (((\<lambda>w. snd (run_state (verify_once C sleep (argocd_cr env) ns) w)) ^^ n) w)"
proof (induction n)
  case (Suc n)
  show ?case
    using keeps.within_run [OF verify_once_held [OF assms] prod.collapse [symmetric]] Suc by simp
qed simp

lemma final_check_held: "keeps.within (lasting_pause view env) (final_check C cr ns)"
  unfolding final_check_def by (intro keeps.within_bind keeps.within_ret fetch_held verifyNamespace_held)

text \<open>The marker is there when its creation succeeds, or finds it.\<close>

lemma marker_created:
  assumes "view w (pause_ref env) = None \<or> lasting_pause view env w"
  shows "wp (createPauseMarker C (operator_ns env)) (\<lambda>r w'. r = Inr () \<longrightarrow> lasting_pause view env w') w"
  unfolding createPauseMarker_def wp_bind
proof (rule wp_now_text)
  fix t w1 assume w1: "view w1 = view w"
  let ?x = "OConfigMap (pause_marker (operator_ns env) t)"
  have made: "lasting_pause view env w2" if "same_content (admit ?x) y" "view w2 = (view w1)(ref_of ?x := Some y)" for y w2
    using that by (auto simp: lasting_pause_def same_content_def pause_marker_def mget_def addon_managed_by_def)
  show "wp (create_unless_exists C ''failed to create pause marker'' ?x) (\<lambda>r w'. r = Inr () \<longrightarrow> lasting_pause view env w') w1"
    unfolding create_unless_exists_def wp_bind
  proof (rule wp_create_unit, goal_cases)
    case (1 y w2)
    then show ?case using made by (simp add: wp_ret)
  next
    case (2 e w2)
    then show ?case using assms w1 by (auto simp: wp_ret lasting_pause_def)
  qed
qed

text \<open>An uninstallation that has the marker ends with it; and one that succeeds has it.\<close>

lemma uninstall_rest_held:
  assumes "spares_marker sleep view env"
  shows "keeps.within (lasting_pause view env) (bindE (remove_argocd C sleep (argocd_cr env)) (\<lambda>_. do {
      d \<leftarrow> deleteOperatorResourcesInternal C (operator_ns env);
      ret (Inr (logged_as ''failed to create pause marker'' m @ logged_as ''failed to delete operator resources'' d)) }))"
  by (intro keeps.within_bindE keeps.within_bind keeps.within_ret remove_held assms delete_resources_held)

lemma uninstall_held:
  assumes "spares_marker sleep view env" "sint (getCleanupVerificationWaitDuration env) < 2 ^ 63 - 20000000000"
    and "view w (pause_ref env) = None \<or> lasting_pause view env w"
    and marker: "run_state (createPauseMarker C (operator_ns env)) w = (m, w0)"
    and "uninstallArgoCDAgentInternal C sleep env w = Some (r, w')"
  shows "(m = Inr () \<longrightarrow> lasting_pause view env w') \<and> (r = Inr () \<longrightarrow> m = Inr ())"
proof -
  let ?rest = "bindE (remove_argocd C sleep (argocd_cr env)) (\<lambda>_. do {
      d \<leftarrow> deleteOperatorResourcesInternal C (operator_ns env);
      ret (Inr (logged_as ''failed to create pause marker'' m @ logged_as ''failed to delete operator resources'' d)) })"
  obtain s w1 where rest: "run_state ?rest w0 = (s, w1)" by (cases "run_state ?rest w0")
  then have run: "run_state (uninstall_steps C sleep env) w = (s, w1)"
    by (simp add: uninstall_steps_def State_Monad.bind_def marker)
  have "wp ?rest (\<lambda>s _. \<forall>es. s = Inr es \<longrightarrow> (\<exists>es'. es = logged_as ''failed to create pause marker'' m @ es')) w0"
    by (rule wp_bindE_rule [OF wp_True]) (auto simp: wp_bind wp_ret intro!: wp_mono [OF wp_True])
  from wp_run [OF this rest] have es: "\<exists>es'. es = logged_as ''failed to create pause marker'' m @ es'" if "s = Inr es" for es
    using that by simp
  let ?d = "getCleanupVerificationWaitDuration env"
  let ?w2 = "((\<lambda>w. snd (run_state (verify_once C sleep (argocd_cr env) (operator_ns env)) w)) ^^ rounds ?d) w1"
  obtain v w3 where final: "run_state (final_check C (argocd_cr env) (operator_ns env)) ?w2 = (v, w3)"
    by (cases "run_state (final_check C (argocd_cr env) (operator_ns env)) ?w2")
  have held: "lasting_pause view env w1" "lasting_pause view env w3" if "m = Inr ()"
  proof -
    have "lasting_pause view env w0" using wp_run [OF marker_created [OF assms(3)] marker] that by simp
    with keeps.within_run [OF uninstall_rest_held [OF assms(1)] rest] show w1: "lasting_pause view env w1" by blast
    from verify_rounds_held [OF assms(1) w1] have "lasting_pause view env ?w2" .
    with keeps.within_run [OF final_check_held final] show "lasting_pause view env w3" by blast
  qed
  have "m = Inr ()" if "first_error (logged_as p m @ es') = Inr ()" for p es'
    using that by (cases m) (auto simp: logged_as_def)
  note first = this
  show ?thesis
  proof (cases s)
    case (Inl e)
    then have "r = Inl e" "w' = w1" using assms(5) by (simp_all add: uninstall_value [OF assms(2)] run)
    with held(1) show ?thesis by simp
  next
    case (Inr es1)
    with es obtain es' where es': "es1 = logged_as ''failed to create pause marker'' m @ es'" by blast
    have "(r = first_error es1 \<and> w' = w1) \<or> (r = first_error (es1 @ logged_as ''cleanup verification failed'' v) \<and> w' = w3)"
      using assms(5) by (auto simp: uninstall_value [OF assms(2)] run Inr final split: if_splits)
    then show ?thesis using held first by (auto simp: es')
  qed
qed

end

context reliable_api
begin

lemma marker_created_healthy:
  assumes "healthy w" "view w (pause_ref env) = None"
  shows "wp (createPauseMarker C (operator_ns env)) (\<lambda>r _. r = Inr ()) w"
  unfolding createPauseMarker_def wp_bind
proof (rule wpI)
  fix t w1 assume "run_state (c_now_text C) w = (t, w1)"
  from now_healthy [OF assms(1) this] now_text_view [OF this] have w1: "healthy w1" "view w1 = view w" by auto
  show "wp (create_unless_exists C ''failed to create pause marker'' (OConfigMap (pause_marker (operator_ns env) t))) (\<lambda>r _. r = Inr ()) w1"
    unfolding create_unless_exists_def wp_bind
    by (rule wp_create_healthy [OF w1(1)]) (use assms(2) w1(2) in \<open>simp_all add: PauseMarkerName_def wp_ret\<close>)
qed

end

text \<open>
  C14: Once an uninstallation has run and left the pause marker, the addon controller stays idle:
  while the marker is as it was left and the API server answers, it changes no object however
  often it ticks. The marker is left by an uninstallation that succeeds, also by a repeated one
  that starts with the marker of an earlier one, and by one that fails although the server
  answered when it began without a marker; it outlives the deletion of the operator's resources.
  Others are taken to leave the marker alone while the uninstallation sleeps, and the verification
  wait to be shorter than 2^63 ns less 20 s.
\<close>

theorem uninstalled_addon_stays_idle:
  assumes "reliable_api C view healthy" and "view w (pause_ref env) = None \<or> lasting_pause view env w"
    and "spares_marker sleep view env" and "sint (getCleanupVerificationWaitDuration env) < 2 ^ 63 - 20000000000"
    and "uninstallArgoCDAgentInternal C sleep env w = Some (r, w1)" and "r = Inr () \<or> healthy w \<and> view w (pause_ref env) = None"
    and "view w2 (pause_ref env) = view w1 (pause_ref env)" and "healthy w2"
    and "run_state (start_addon C L env sha img events) w2 = (r', w3)"
  shows "paused view env w1 \<and> view w3 = view w2"
proof -
  obtain m w0 where marker: "run_state (createPauseMarker C (operator_ns env)) w = (m, w0)"
    by (cases "run_state (createPauseMarker C (operator_ns env)) w")
  note held = kube_api.uninstall_held [OF reliable_api.axioms(1) [OF assms(1)] assms(3,4,2) marker assms(5)]
  have "m = Inr ()"
    using held assms(6) wp_run [OF reliable_api.marker_created_healthy [OF assms(1)] marker] by blast
  with held have "lasting_pause view env w1" by blast
  then have "paused view env w1" "paused view env w2"
    using assms(7) by (auto simp: lasting_pause_def paused_def)
  with wp_run [OF reliable_api.start_addon_paused [OF assms(1,8)] assms(9)] show ?thesis by blast
qed

lemma mem_sleep_spares: "spares_marker mem_sleep mem_view env"
  by (auto simp: spares_marker_def mem_sleep_def mem_view_def)

theorem uninstalled_addon_stays_idle_witness:
  "\<exists>r w1. uninstallArgoCDAgentInternal mem_client mem_sleep example_env example_installed_world = Some (r, w1) \<and>
     mem_view (snd (run_state (start_addon mem_client example_chart example_env example_sha ''quay.io/op:v1'' [Tick, Tick, Done]) w1)) =
       mem_view w1"
proof -
  let ?w = example_installed_world
  let ?steps = "run_state (uninstall_steps mem_client mem_sleep example_env) ?w"
  have h: "mem_healthy ?w" by code_simp
  have none: "mem_view ?w (pause_ref example_env) = None" by code_simp
  have wait: "getCleanupVerificationWaitDuration example_env = 0"
    by (simp add: getCleanupVerificationWaitDuration_def example_env_def)
  then have small: "sint (getCleanupVerificationWaitDuration example_env) < 2 ^ 63 - 20000000000" by simp
  have "fst ?steps = Inr []" by code_simp
  then obtain w1 where steps: "?steps = (Inr [], w1)" by (cases ?steps) simp
  then have run: "uninstallArgoCDAgentInternal mem_client mem_sleep example_env ?w = Some (Inr (), w1)"
    by (simp add: uninstall_value [OF small] wait)
  have "mem_healthy (snd ?steps)" by code_simp
  then have h1: "mem_healthy w1" by (simp add: steps)
  let ?m = "start_addon mem_client example_chart example_env example_sha ''quay.io/op:v1'' [Tick, Tick, Done]"
  have start: "run_state ?m w1 = (fst (run_state ?m w1), snd (run_state ?m w1))" by simp
  from uninstalled_addon_stays_idle [OF mem_reliable_api, OF disjI1 [OF none], OF mem_sleep_spares, OF small, OF run, OF disjI1 [OF refl],
      OF refl, OF h1, OF start] run
  show ?thesis by blast
qed

end
