(* ===== verification/Main_Modes.thy ===== *)
theory Main_Modes
  imports Addon_Controller
begin

text \<open>
  \<open>cmd/main.go\<close>: the four modes of the program. A mode is the list of what it asks of the manager of controller-runtime,
  with the options and controllers it passes; the manager, which answers each request, is the argument \<open>mgr\<close>.
\<close>

section \<open>Settings\<close>

definition operatorImageFromEnvironment :: "environ \<Rightarrow> string \<Rightarrow> string" where
  "operatorImageFromEnvironment env defaultImage =
     (let image = env ''ARGOCD_OPERATOR_IMAGE'' in if image \<noteq> '''' then image else defaultImage)"

text \<open>The kinds whose cache is limited to one namespace; the other kinds are cached from all.\<close>

definition controllerCacheOptions :: "string \<Rightarrow> (kind \<times> string) list" where
  "controllerCacheOptions namespace =
     (if namespace = '''' then []
      else map (\<lambda>k. (k, namespace)) [KSecret, KConfigMap, KUnstr ''v1'' ''ServiceAccount'', KService, KDeployment, KRole, KRoleBinding,
        KGitOpsCluster, KPlacement, KPlacementDecision])"

record flags =
  fl_mode :: string
  fl_metrics_addr :: string
  fl_probe_addr :: string
  fl_leader_elect :: bool
  fl_argocd_namespace :: string
  fl_cache_namespace :: string
  fl_cleanup_minutes :: int
  fl_secure_metrics :: bool
  fl_enable_http2 :: bool
  fl_webhook_cert :: "string \<times> string \<times> string"
  fl_metrics_cert :: "string \<times> string \<times> string"
  fl_sync_interval :: int
  fl_leases :: "duration \<times> duration \<times> duration"

text \<open>The values of the flags that are not given.\<close>

definition default_flags :: flags where
  "default_flags = \<lparr>fl_mode = ''controller'', fl_metrics_addr = ''0'', fl_probe_addr = '':8081'', fl_leader_elect = False,
     fl_argocd_namespace = ''argocd'', fl_cache_namespace = '''', fl_cleanup_minutes = 5, fl_secure_metrics = True,
     fl_enable_http2 = False, fl_webhook_cert = ('''', ''tls.crt'', ''tls.key''), fl_metrics_cert = ('''', ''tls.crt'', ''tls.key''),
     fl_sync_interval = 60, fl_leases = (seconds 15, seconds 10, seconds 2)\<rparr>"

text \<open>A server for webhooks or metrics; \<open>None\<close> for an option that is not set.\<close>

record server_options =
  so_addr :: string
  so_secure :: bool
  so_protocols :: "string list option"
  so_cert :: "(string \<times> string \<times> string) option"
  so_authenticated :: bool

definition plain_server :: "string \<Rightarrow> server_options" where
  "plain_server addr = \<lparr>so_addr = addr, so_secure = False, so_protocols = None, so_cert = None, so_authenticated = False\<rparr>"

record manager_options =
  mo_groups :: "string list"
  mo_metrics :: server_options
  mo_webhook :: "server_options option"
  mo_probe_addr :: "string option"
  mo_leader_election :: bool
  mo_leader_id :: "string option"
  mo_leases :: "(duration \<times> duration \<times> duration) option"
  mo_cache :: "(kind \<times> string) list"

definition scheme :: "string list" where
  "scheme = [''client-go'', ''addon.open-cluster-management.io/v1alpha1'', ''cluster.open-cluster-management.io/v1'',
     ''cluster.open-cluster-management.io/v1beta1'', ''work.open-cluster-management.io/v1'', ''apiextensions.k8s.io/v1'',
     ''apps.open-cluster-management.io/v1alpha1'']"

definition basic_scheme :: "string list" where
  "basic_scheme = [''client-go'', ''cluster.open-cluster-management.io/v1'', ''work.open-cluster-management.io/v1'']"

section \<open>What a mode asks for\<close>

datatype controller =
    GitOpsClusterController string string
  | ApplicationController | ApplicationStatusController | ClusterController string
  | WorkCleanupController duration
  | AddonController int string
  | AddonCleanupController

datatype setup_step = NewManager manager_options | AddController controller | AddHealthz | AddReadyz | StartManager

definition protocols :: "flags \<Rightarrow> string list option" where
  "protocols f = (if \<not> fl_enable_http2 f then Some [''http/1.1''] else None)"

definition given_cert :: "string \<times> string \<times> string \<Rightarrow> (string \<times> string \<times> string) option" where
  "given_cert cert = (if fst cert \<noteq> '''' then Some cert else None)"

definition controller_manager :: "flags \<Rightarrow> manager_options" where
  "controller_manager f = \<lparr>mo_groups = scheme,
     mo_metrics = \<lparr>so_addr = fl_metrics_addr f, so_secure = fl_secure_metrics f, so_protocols = protocols f,
       so_cert = given_cert (fl_metrics_cert f), so_authenticated = fl_secure_metrics f\<rparr>,
     mo_webhook = Some \<lparr>so_addr = '''', so_secure = True, so_protocols = protocols f, so_cert = given_cert (fl_webhook_cert f),
       so_authenticated = False\<rparr>,
     mo_probe_addr = Some (fl_probe_addr f), mo_leader_election = fl_leader_elect f,
     mo_leader_id = Some ''7310a56a.open-cluster-management.io'', mo_leases = None,
     mo_cache = controllerCacheOptions (fl_cache_namespace f)\<rparr>"

definition controller_steps :: "flags \<Rightarrow> environ \<Rightarrow> setup_step list" where
  "controller_steps f env = [NewManager (controller_manager f),
     AddController (GitOpsClusterController (env ''ARGOCD_RESOURCE_PROXY_SERVER'') (env ''ARGOCD_RESOURCE_PROXY_TLS_SERVER_NAME'')),
     AddHealthz, AddReadyz, StartManager]"

text \<open>\<open>in_cluster\<close>: whether \<open>rest.InClusterConfig\<close> succeeds.\<close>

definition addon_steps :: "flags \<Rightarrow> string \<Rightarrow> bool \<Rightarrow> setup_step list" where
  "addon_steps f operatorImage in_cluster =
     [NewManager \<lparr>mo_groups = scheme, mo_metrics = plain_server ''0'', mo_webhook = None, mo_probe_addr = None,
        mo_leader_election = in_cluster, mo_leader_id = Some ''argocd-agent-addon-leader.open-cluster-management.io'',
        mo_leases = Some (fl_leases f), mo_cache = []\<rparr>,
      AddController (AddonController (fl_sync_interval f) operatorImage), StartManager]"

definition cleanup_steps :: "setup_step list" where
  "cleanup_steps =
     [NewManager \<lparr>mo_groups = scheme, mo_metrics = plain_server ''0'', mo_webhook = None, mo_probe_addr = None,
        mo_leader_election = False, mo_leader_id = None, mo_leases = None, mo_cache = []\<rparr>,
      AddController AddonCleanupController, StartManager]"

text \<open>The interval is a product of \<open>int64\<close> values.\<close>

definition cleanup_interval :: "int \<Rightarrow> duration" where
  "cleanup_interval minutes = word_of_int minutes * 60000000000"

definition basic_steps :: "flags \<Rightarrow> setup_step list" where
  "basic_steps f =
     [NewManager \<lparr>mo_groups = basic_scheme, mo_metrics = plain_server (fl_metrics_addr f), mo_webhook = None,
        mo_probe_addr = Some (fl_probe_addr f), mo_leader_election = fl_leader_elect f,
        mo_leader_id = Some ''ec810684.open-cluster-management.io'', mo_leases = None, mo_cache = []\<rparr>,
      AddController ApplicationController, AddController ApplicationStatusController,
      AddController (ClusterController (fl_argocd_namespace f)),
      AddController (WorkCleanupController (cleanup_interval (fl_cleanup_minutes f))), StartManager]"

definition mode_steps :: "flags \<Rightarrow> environ \<Rightarrow> string \<Rightarrow> bool \<Rightarrow> setup_step list" where
  "mode_steps f env defaultImage in_cluster =
     (let operatorImage = operatorImageFromEnvironment env defaultImage in
      if fl_mode f = ''addon'' then addon_steps f operatorImage in_cluster
      else if fl_mode f = ''cleanup'' then cleanup_steps
      else if fl_mode f = ''basic'' then basic_steps f
      else controller_steps f env)"

section \<open>The program\<close>

text \<open>The manager's answer to a step; the addon controller checks its operator image first.\<close>

definition answer :: "(setup_step \<Rightarrow> unit result) \<Rightarrow> setup_step \<Rightarrow> unit result" where
  "answer mgr s =
     (case s of
        AddController (AddonController interval operatorImage) \<Rightarrow>
          SetupWithManager (\<lambda>i img. mgr (AddController (AddonController i img))) interval operatorImage
      | _ \<Rightarrow> mgr s)"

text \<open>Each failed step ends the process with exit code 1. The result is the code and the steps that succeeded.\<close>

fun run_setup :: "(setup_step \<Rightarrow> unit result) \<Rightarrow> setup_step list \<Rightarrow> nat \<times> setup_step list" where
  "run_setup mgr [] = (0, [])"
| "run_setup mgr (s # steps) =
     (case answer mgr s of
        Inl _ \<Rightarrow> (1, [])
      | Inr _ \<Rightarrow> (case run_setup mgr steps of (code, ok) \<Rightarrow> (code, s # ok)))"

definition main_program :: "(setup_step \<Rightarrow> unit result) \<Rightarrow> flags \<Rightarrow> environ \<Rightarrow> string \<Rightarrow> bool \<Rightarrow> nat \<times> setup_step list" where
  "main_program mgr f env defaultImage in_cluster = run_setup mgr (mode_steps f env defaultImage in_cluster)"

text \<open>\<open>ManifestWorkCleanupReconciler.Start\<close>: \<open>time.NewTicker\<close> panics for an interval that is not positive.\<close>

definition start_work_cleanup :: "'w client \<Rightarrow> duration \<Rightarrow> cleanup_event list \<Rightarrow> ('w, unit result) state" where
  "start_work_cleanup C interval events =
     (if 0 <s interval then start_cleanup C events else ret (Inl (Panic ''non-positive interval for NewTicker'')))"

section \<open>Outcomes\<close>

lemma run_setup_outcome:
  "run_setup mgr steps = (code, ok) \<Longrightarrow> (\<exists>rest. steps = ok @ rest) \<and> (\<forall>s \<in> set ok. answer mgr s = Inr ()) \<and>
     (if ok = steps then code = 0 else code = 1 \<and> (\<exists>e. answer mgr (steps ! length ok) = Inl e))"
proof (induction steps arbitrary: code ok)
  case (Cons s steps)
  show ?case
  proof (cases "answer mgr s")
    case (Inl e)
    with Cons.prems show ?thesis by auto
  next
    case (Inr u)
    obtain code' ok' where rest: "run_setup mgr steps = (code', ok')" by (cases "run_setup mgr steps")
    from Cons.prems have "code = code'" "ok = s # ok'" by (simp_all add: Inr rest)
    with Cons.IH [OF rest] Inr show ?thesis by auto
  qed
qed simp

lemma mode_steps_last: "\<exists>front. mode_steps f env img c = front @ [StartManager] \<and> StartManager \<notin> set front"
  by (simp add: mode_steps_def Let_def addon_steps_def cleanup_steps_def basic_steps_def controller_steps_def)

text \<open>
  The process ends with code 0 exactly when every request of its mode was answered, and the manager, which starts the
  controllers, is started only then.
\<close>

theorem main_program_outcome:
  assumes "main_program mgr f env img c = (code, ok)"
  shows "(\<exists>rest. mode_steps f env img c = ok @ rest) \<and> code \<in> {0, 1} \<and>
     (code = 0 \<longleftrightarrow> StartManager \<in> set ok) \<and> (code = 0 \<longleftrightarrow> (\<forall>s \<in> set (mode_steps f env img c). answer mgr s = Inr ()))"
proof -
  note out = run_setup_outcome [OF assms [unfolded main_program_def]]
  obtain front where front: "mode_steps f env img c = front @ [StartManager]" "StartManager \<notin> set front"
    using mode_steps_last by blast
  from out obtain rest where rest: "mode_steps f env img c = ok @ rest" by blast
  show ?thesis
  proof (cases "ok = mode_steps f env img c")
    case True
    with out front show ?thesis by auto
  next
    case False
    with rest front(1) obtain r where "front = ok @ r" by (cases rest rule: rev_cases) auto
    with front(2) have no: "StartManager \<notin> set ok" by auto
    have "length ok < length (mode_steps f env img c)" using rest False by auto
    then have "mode_steps f env img c ! length ok \<in> set (mode_steps f env img c)" by simp
    with False out no rest show ?thesis by fastforce
  qed
qed

text \<open>The addon mode does not start without an operator image.\<close>

lemma addon_needs_image:
  assumes "fl_mode f = ''addon''" "operatorImageFromEnvironment env img = ''''" "main_program mgr f env img c = (code, ok)"
  shows "code = 1"
proof -
  have "AddController (AddonController (fl_sync_interval f) '''') \<in> set (mode_steps f env img c)"
    using assms(1,2) by (simp add: mode_steps_def addon_steps_def)
  moreover have "answer mgr (AddController (AddonController (fl_sync_interval f) '''')) \<noteq> Inr ()"
    by (simp add: answer_def SetupWithManager_def)
  ultimately show ?thesis using main_program_outcome [OF assms(3)] by auto
qed

text \<open>An image reference always parses, so only the empty one is refused.\<close>

lemma setup_accepts: "img \<noteq> '''' \<Longrightarrow> SetupWithManager mgr_add interval img = mgr_add interval img"
  by (auto simp: SetupWithManager_def ParseImageReference_def split: sum.split list.split option.split)

section \<open>The interval of the sweep\<close>

text \<open>
  The flag counts minutes: from 1 to 153722867 the sweep runs at that interval; for 0 and the negative values of that range
  the program panics when the manager starts the controller.
\<close>

lemma cleanup_interval_value:
  assumes "- 153722867 \<le> m" "m \<le> 153722867"
  shows "sint (cleanup_interval m) = m * 60000000000"
proof -
  have eq: "cleanup_interval m = word_of_int (m * 60000000000)" by (simp add: cleanup_interval_def)
  have "signed_take_bit 63 (m * 60000000000) = m * 60000000000"
    using assms by (intro signed_take_bit_int_eq_self) auto
  then show ?thesis unfolding eq sint_sbintrunc' by simp
qed

theorem cleanup_interval_bounds:
  assumes "- 153722867 \<le> m" "m \<le> 153722867"
  shows "start_work_cleanup C (cleanup_interval m) events =
     (if 1 \<le> m then start_cleanup C events else ret (Inl (Panic ''non-positive interval for NewTicker'')))"
  using cleanup_interval_value [OF assms] by (simp add: start_work_cleanup_def word_sless_alt)

end
