(* ===== verification/Spec2Isabelle.thy ===== *)
theory Spec2Isabelle
  imports App_Controller App_Status Cluster_Controller Work_Cleanup Rbac_Secrets Addon_Management Agent_Clusters CR_Manifest_Work
    GitOps_Conditions GitOps_Placement Pull_Steps Main_Modes
begin

text \<open>
  The pull integration of Argo CD with Open Cluster Management
  (\<open>open-cluster-management-io/argocd-pull-integration\<close>), its Go code under \<open>src/\<close>.

  THE PROGRAM. One binary (\<open>cmd/main.go\<close>) runs in one of four modes.
  In the mode \<open>controller\<close> it runs on the hub and reconciles GitOpsCluster objects: it prepares RBAC, keys,
  certificates and an AddOnTemplate on the hub, evaluates a placement, and for every managed cluster it selects it writes a
  cluster Secret, a ManifestWork with the CA, a ManifestWork with the ArgoCD resource, and the configuration of the addon;
  for a cluster that left the placement it removes them.
  In the mode \<open>addon\<close> it runs on a managed cluster, where the template of the hub has deployed it: it installs the Argo CD
  operator from an embedded Helm chart, copies the client certificate to the agent, and restarts the agent when the
  certificate has changed. In the mode \<open>cleanup\<close> it uninstalls the agent and exits.
  In the mode \<open>basic\<close> it runs on the hub and implements the basic pull model: an Application is wrapped in a ManifestWork of the
  namespace of its cluster, the status feedback of the work flows back into the Application, works without an Application are swept away, and every
  managed cluster gets an Argo CD cluster Secret.
  The controllers share no memory. They meet in the objects of the API server, so what one promises is stated over the stored objects
  another starts from: C7 takes the hub's template to the program on the managed cluster, C8 a delivered Application to the
  run after its disappearance, C14 the uninstallation to the addon controller; C2, C3 and C10 are about any sequence of runs of the four
  controllers of the mode \<open>basic\<close>.

  EFFECTS. A Go function that calls the API server is a value of \<open>('w, 'a) state\<close> (\<open>HOL-Library.State_Monad\<close>) over an arbitrary world
  \<open>'w\<close>; a function that returns an error is of type \<open>'a result\<close>, which is \<open>go_error + 'a\<close>, with one constructor for each
  way the code makes, wraps and inspects errors, panics included. A struct is a record, with the fields the code reads or
  writes; a Go map is an association list, whose order stands for the iteration order, where that can be seen; an
  \<open>int64\<close> or a \<open>time.Duration\<close> whose wrap-around the code can reach is a \<open>64 word\<close>. A method takes its receiver's fields as arguments, and
  definitions have the names of the functions of the code, or describe the branch they stand for.

  WHERE THE CODE IS MODELLED (under \<open>internal/\<close> unless another directory is named).
    \<^item> \<open>Prelude\<close>, \<open>Go_Text\<close>, \<open>Go_Strings\<close>: errors, maps and the functions of \<open>strings\<close>, \<open>strconv\<close>, \<open>net/url\<close>,
      \<open>encoding/base64\<close> and \<open>encoding/json\<close> that the program calls.
    \<^item> \<open>Kube_Types\<close>: the objects (\<open>kobj\<close>) and the names they are stored under (\<open>objref\<close>); \<open>api/v1alpha1/gitopscluster_types.go\<close>.
    \<^item> \<open>App_Helper\<close>, \<open>App_Controller\<close>, \<open>App_Status\<close>, \<open>Cluster_Controller\<close>, \<open>Work_Cleanup\<close>: \<open>basic/application/helper.go\<close>,
      \<open>application_controller.go\<close>, \<open>application_status_controller.go\<close>, \<open>cluster_controller.go\<close>,
      \<open>manifestwork_cleanup_controller.go\<close>. \<open>Pull_Steps\<close> composes them: a step (\<open>hub_step\<close>) is a whole run of one of
      the four, with any failures, or what users and agents do, and \<open>hub_run\<close> is any sequence of steps.
    \<^item> \<open>Rbac_Secrets\<close>, \<open>Server_Discovery\<close>, \<open>Certificates\<close>, \<open>Agent_Clusters\<close>, \<open>Addon_Management\<close>, \<open>Addon_Template\<close>,
      \<open>CA_Manifest_Work\<close>, \<open>CR_Manifest_Work\<close>: the parts of the GitOpsCluster reconciler, \<open>controller/rbac_management.go\<close> and
      \<open>secret_management.go\<close>, \<open>server_discovery.go\<close>, \<open>argocd_agent_certificates.go\<close>, \<open>argocd_agent_clusters.go\<close>,
      \<open>addon_management.go\<close>, \<open>addon_template_management.go\<close>, \<open>manifest_work_management.go\<close>, \<open>argocd_cr_manifest_work.go\<close>.
    \<^item> \<open>GitOps_Controller\<close>: \<open>controller/gitopscluster_controller.go\<close>, the order of those parts in \<open>Reconcile\<close>, the conditions and the
      events that trigger a run. \<open>GitOps_Run\<close> (the objects a run writes), \<open>GitOps_Placement\<close> (that only one of them is a Placement),
      \<open>GitOps_Steps\<close> (single steps) and \<open>GitOps_Conditions\<close> (what the conditions say of the clusters) hold the lemmas on it.
    \<^item> \<open>Addon_Certificate\<close>, \<open>Addon_Install\<close>: \<open>addon/addon_install.go\<close>. \<open>Addon_Chart\<close>: \<open>addon/addon_utils.go\<close> and
      \<open>ParseImageReference\<close>. \<open>Addon_Cleanup\<close>: \<open>addon/addon_cleanup.go\<close>. \<open>Addon_Controller\<close>: \<open>addon/addon_controller.go\<close>.
    \<^item> \<open>Main_Modes\<close>: \<open>cmd/main.go\<close>. A mode is the list of the requests it makes of the manager, with the options and controllers in them.
  The state of a component is the part of the world under the names it uses (such as \<open>template_ref\<close>, \<open>manifest_ref\<close> or \<open>pause_ref\<close>);
  the program keeps none of its own between runs, the cached clients and the flags apart.

  WHAT IS A PARAMETER. Code outside the repository is an argument of the definitions, with what the program relies on as a locale:
    \<^item> the client of controller-runtime is the record \<open>client\<close>; \<open>kube_api\<close> says that reads leave the objects alone and writes
      touch only the object they name, and that a call may fail at any time; \<open>reliable_api\<close> adds that a call fails only for the
      reason Kubernetes documents, in a world called \<open>healthy\<close>; \<open>atomic_api\<close> (in \<open>Atomic_Api\<close>) that a write that returns an error has been
      carried out or has not been, and that the uid of an object does not change; \<open>status_api\<close> that the write of a status is answered. They are interpreted on the in-memory store of \<open>Mem_Client\<close>, which lists objects
      in the order of their references (an instance of \<open>linorder\<close>) and on which the witnesses run;
    \<^item> \<open>cert_lib\<close> (certificate rotation and informers) with \<open>cert_rotation\<close>, \<open>x509_lib\<close> (\<open>crypto/x509\<close> and the Secret lister) with \<open>secret_lister\<close>,
      \<open>secret_codec\<close> (JSON of a Secret) with \<open>secret_json\<close>, \<open>cr_lib\<close> (functions on unstructured objects),
      \<open>nested_fields\<close>, \<open>retrying\<close> (\<open>RetryOnConflict\<close>) and \<open>status_conditions\<close>;
    \<^item> \<open>chart_lib\<close> (Helm, YAML, discovery, temporary files) with \<open>chart_api\<close>: rendering touches no object of the cluster, and a decoded manifest
      keeps its name, kind and metadata; \<open>file_store\<close> says what the temporary directory keeps, so that the copy of the chart
      is shown to be the embedded tree (\<open>copied_files\<close>);
    \<^item> \<open>sleep\<close> is \<open>time.Sleep\<close>, during which the rest of the cluster may act: \<open>timed_client\<close> says that it advances the clock \<open>slept\<close> and
      that no request does; \<open>quiet_sleep\<close> says that nobody else writes meanwhile (C26), \<open>spares_marker\<close> that nobody touches the pause
      marker (C14);
    \<^item> \<open>pull_system\<close> and \<open>conditions_run\<close> collect the laws that the steps of the basic pull model and a round of the hub rest on, and \<open>cluster_task\<close> is
      the contract of an operation the hub applies to one cluster after the other;
    \<^item> the environment is a function of names (\<open>environ\<close>), \<open>sha\<close> the hexadecimal SHA-256 sum, \<open>parse_url\<close> is \<open>url.Parse\<close>, \<open>mgr\<close>
      answers what a mode asks of the manager.
  Every locale is interpreted on the model's own definitions or on the in-memory instance that the witnesses run.

  An object is \<open>gone\<close> when it is absent or on its way out: a deletion that is accepted leaves an object with finalizers there, as being deleted
  (\<open>terminating\<close>), and no law says when it disappears. The code does not wait for that either, so the theorems on deletions say no more.

  HOW THE PROOFS ARE BUILT. \<open>wp m Q w\<close> says that \<open>m\<close>, run from \<open>w\<close>, ends in a result and a world that satisfy \<open>Q\<close>; the collection \<open>wp_simps\<close>
  pushes it through a program and \<open>Kube_Client\<close> has one rule for each request, under \<open>kube_api\<close> and, with the suffix \<open>_healthy\<close>,
  under \<open>reliable_api\<close>. Frames come in two forms: \<open>only_touches view S w w'\<close>, with the rules of the collection \<open>touches\<close>, bounds
  the objects a program may write (C4, C5, C13); the locale \<open>run_frame\<close> carries any preorder on worlds through a program, for the
  objects that bear the skip annotation (C18), for the clock (C15), for an invariant (C14) and for works that only change in ways that keep
  what they deliver (C2). \<open>Ensure\<close> holds the get-or-create
  pattern, with the contracts \<open>ensures\<close> and \<open>ensures_once\<close> that the operations built on it interpret.

  WHAT THE THEOREMS SHOW.
    \<^item> The basic pull model: C1, C9 (delivery and its convergence in one run and none), C11, C27, C40 (deletion), C22 (feedback),
      C12, C8 (the sweep deletes orphans and nothing else), C28 (cluster Secrets), C37 (payloads); over any sequence of runs, C2 (a delivered work survives),
      C3 (the finalizer holds until the work is deleted) and C10 (no orphan is left).
    \<^item> The hub: C4, C5, C13 (the objects a run may write, and that a failed preparation leaves the clusters alone), C6 (a condition that is True is
      right about every cluster whose objects were not on their way out), C19 (certificates), C20, C21, C33 (ManifestWorks), C23, C24, C38, C39 (cluster Secrets and client certificates),
      C29, C30, C31, C7 (addon), C32, C34 (discovery, conditions).
    \<^item> The managed cluster: C18, C35, C36 (installation), C16, C17 (the agent runs with the copied certificate, and is restarted for a new
      one only), C15, C25, C26, C14 (uninstallation).

  BOUNDS. The recursions are structural, or shrink a text or a list. Two are bounded by time. The wait for the ArgoCD resource (\<open>wait_gone\<close>) polls every 5 seconds for two minutes, at most
  24 times, which its termination proof shows on the 64-bit clock. The verification (\<open>verify_loop\<close>) runs for a time read from the
  environment and is a partial function to \<open>option\<close>, since a time within 20 seconds of \<open>2 ^ 63\<close> nanoseconds makes its counter wrap and the loop need not end;
  C15 shows that below that it returns, with one round for each started period of 20 seconds. The interval of the sweep is a product on 64 bits, with the values
  up to 153722867 minutes that do not wrap (\<open>cleanup_interval_bounds\<close>). \<open>retry_n 3\<close>, in witnesses only, is \<open>retry.DefaultBackoff\<close> of
  \<open>client-go\<close>: one attempt and three more after conflicts. The loops that run for ever (\<open>addon_loop\<close>, \<open>start_cleanup\<close>) are recursions over
  the list of the events their \<open>select\<close> receives, and are proved for every list.

  NOT MODELLED. Logging and Kubernetes events; the registration of controllers, watches and schemes with the manager beyond the requests
  of \<open>Main_Modes\<close> (what a watch maps an event to, and which events it lets pass, is modelled); the generated deep copies
  (\<open>zz_generated.deepcopy.go\<close>: values are not shared here, so a deep copy is the value itself) and \<open>groupversion_info.go\<close>; the charts, deployment manifests,
  scripts and tests, which are not code of the program. A run is one sequence of requests: the laws of \<open>kube_api\<close>
  exclude another writer in the middle of a run, except while the uninstallation sleeps; a conflict is an error a write may return at any time.
  Whole runs of the controllers of the basic pull model follow one another in any order in \<open>Pull_Steps\<close>. Contents that no code
  path looks at (annotations of Kubernetes, managed fields) are not fields of the records.
\<close>

section \<open>The hub and the managed cluster\<close>

text \<open>How a container's arguments and environment reach the program: \<open>flag.Parse\<close> for the one flag the template sets, and \<open>os.Getenv\<close>.\<close>

definition flag_of_arg :: "json \<Rightarrow> flags \<Rightarrow> flags" where
  "flag_of_arg arg f = (case arg of
     JStr s \<Rightarrow> if has_prefix s ''--mode='' then f\<lparr>fl_mode := drop 7 s\<rparr> else f
   | _ \<Rightarrow> f)"

definition container_flags :: "fields \<Rightarrow> flags" where
  "container_flags c = (case map_of c ''args'' of Some (JArr args) \<Rightarrow> fold flag_of_arg args default_flags | _ \<Rightarrow> default_flags)"

definition container_environ :: "fields \<Rightarrow> environ" where
  "container_environ c name = (case map_of c ''env'' of
     Some (JArr vars) \<Rightarrow> (case find (\<lambda>v. get_nested [''name''] v = Some (JStr name)) vars of
        Some v \<Rightarrow> (case get_nested [''value''] v of Some (JStr val) \<Rightarrow> val | _ \<Rightarrow> '''')
      | None \<Rightarrow> '''')
   | _ \<Rightarrow> '''')"

text \<open>The container of the agent's Deployment.\<close>

definition agent_container :: "string \<Rightarrow> string \<Rightarrow> fields" where
  "agent_container img op = the (container_of (MStruct (addon_deployment img op)))"

lemma agent_container_fields:
  "container_of (MStruct (addon_deployment img op)) = Some (agent_container img op)"
  "map_of (agent_container img op) ''image'' = Some (JStr img)"
  "map_of (agent_container img op) ''args'' = Some (JArr [JStr ''--mode=addon''])"
  "map_of (agent_container img op) ''env'' = Some (addon_env op)"
  by (simp_all add: agent_container_def container_of_def addon_deployment_def addon_container_def)

lemma agent_mode: "container_flags (agent_container img op) = default_flags\<lparr>fl_mode := ''addon''\<rparr>"
  by (simp add: container_flags_def agent_container_fields flag_of_arg_def has_prefix_def)

lemma agent_image: "container_environ (agent_container img op) ''ARGOCD_OPERATOR_IMAGE'' = op"
  by (simp add: container_environ_def agent_container_fields addon_env_def env_var_def OperatorImageEnvVar_def)

lemma agent_program:
  assumes "op \<noteq> '''' \<or> built_in \<noteq> ''''"
  shows "AddController (AddonController 60 (if op = '''' then built_in else op)) \<in>
    set (snd (main_program (\<lambda>_. Inr ()) (container_flags (agent_container img op)) (container_environ (agent_container img op)) built_in c))"
  using assms
  by (simp add: main_program_def mode_steps_def agent_mode agent_image operatorImageFromEnvironment_def addon_steps_def answer_def
      setup_accepts default_flags_def)

text \<open>
  C7: The hub tells the managed cluster what to run: after EnsureAddOnTemplate and
  EnsureManagedClusterAddon have succeeded, on a template and an addon that were not already being
  deleted, the addon of the cluster refers to a template that exists, and the container of the
  agent in it runs the controller image in addon mode, in which the program sets up the addon
  controller with the operator image of the hub, or with the image compiled into the program when
  the hub has none (one of the two is there).
\<close>

theorem hub_configures_spoke:
  assumes "kube_api C view" and "\<forall>x. view w (template_ref g) = Some x \<longrightarrow> \<not> terminating x"
    and "\<forall>x. view w (addon_ref ns) = Some x \<longrightarrow> \<not> terminating x"
    and "run_state (EnsureAddOnTemplate C img op g) w = (Inr (), w1)"
    and "run_state (EnsureManagedClusterAddon C (ns, g)) w1 = (Inr (), w2)" and "op \<noteq> '''' \<or> built_in \<noteq> ''''"
  shows "\<exists>a config t c. view w2 (addon_ref ns) = Some (OManagedClusterAddOn a) \<and> config \<in> set (mca_configs a) \<and>
     ac_resource config = ''addontemplates'' \<and> view w2 (Ref KAddOnTemplate '''' (ac_name config)) = Some (OAddOnTemplate t) \<and>
     Some c \<in> set (map container_of (at_manifests t)) \<and> map_of c ''image'' = Some (JStr img) \<and>
     AddController (AddonController 60 (if op = '''' then built_in else op)) \<in>
       set (snd (main_program (\<lambda>_. Inr ()) (container_flags c) (container_environ c) built_in in_cluster))"
proof -
  from wp_run [OF kube_api.wp_EnsureAddOnTemplate [OF assms(1,2)] assms(4)] obtain t
    where t: "view w1 (template_ref g) = Some (OAddOnTemplate t)" "template_of g img op t"
      and frame: "only_touches view {template_ref g} w w1" by blast
  have "view w1 (addon_ref ns) = view w (addon_ref ns)" using frame by (simp add: only_touches_def template_ref_def)
  with assms(3) have live: "\<forall>x. view w1 (addon_ref ns) = Some x \<longrightarrow> \<not> terminating x" by simp
  from wp_run [OF kube_api.wp_EnsureManagedClusterAddon [OF assms(1) live] assms(5)] obtain a
    where a: "view w2 (addon_ref ns) = Some (OManagedClusterAddOn a)" "refers_to (addon_template_name g) ns (OManagedClusterAddOn a)"
      and frame2: "\<forall>q. q \<noteq> addon_ref ns \<longrightarrow> view w2 q = view w1 q" by blast
  have name: "addon_template_name g = getAddOnTemplateName g" by (simp add: addon_template_name_def getAddOnTemplateName_def)
  from a(2) obtain config where config: "config \<in> set (mca_configs a)" "ac_resource config = ''addontemplates''"
    "ac_name config = getAddOnTemplateName g"
    by (auto simp: refers_to_def expected_configs_def config_found_def list_ex_iff name)
  have t2: "view w2 (template_ref g) = Some (OAddOnTemplate t)" using frame2 t(1) by (simp add: template_ref_def)
  have "Some (agent_container img op) \<in> set (map container_of (at_manifests t))"
    using t(2) by (simp add: template_of_def buildAddonManifests_def agent_container_fields(1))
  with a(1) config t2 agent_container_fields(2) agent_program [OF assms(6)] show ?thesis
    unfolding template_ref_def by (intro exI conjI) auto
qed

theorem hub_configures_spoke_witness:
  "\<exists>a config t. mem_view (snd (run_state (EnsureManagedClusterAddon mem_client (''c1'', example_gitops))
      (snd (run_state (EnsureAddOnTemplate mem_client ''img:v2'' ''quay.io/op:v1'' example_gitops) (mem_of []))))) (addon_ref ''c1'') =
        Some (OManagedClusterAddOn a) \<and> config \<in> set (mca_configs a) \<and>
     mem_view (snd (run_state (EnsureManagedClusterAddon mem_client (''c1'', example_gitops))
      (snd (run_state (EnsureAddOnTemplate mem_client ''img:v2'' ''quay.io/op:v1'' example_gitops) (mem_of [])))))
      (Ref KAddOnTemplate '''' (ac_name config)) = Some (OAddOnTemplate t)"
proof -
  let ?w = "mem_of []"
  let ?run1 = "run_state (EnsureAddOnTemplate mem_client ''img:v2'' ''quay.io/op:v1'' example_gitops) ?w"
  let ?run2 = "run_state (EnsureManagedClusterAddon mem_client (''c1'', example_gitops)) (snd ?run1)"
  have "mem_view ?w (template_ref example_gitops) = None" "mem_view ?w (addon_ref ''c1'') = None" by code_simp+
  then have live: "\<forall>x. mem_view ?w (template_ref example_gitops) = Some x \<longrightarrow> \<not> terminating x"
    "\<forall>x. mem_view ?w (addon_ref ''c1'') = Some x \<longrightarrow> \<not> terminating x" by simp_all
  have "fst ?run1 = Inr ()" by code_simp
  then have run1: "?run1 = (Inr (), snd ?run1)" by (metis prod.collapse)
  have "fst ?run2 = Inr ()" by code_simp
  then have run2: "?run2 = (Inr (), snd ?run2)" by (metis prod.collapse)
  have op: "''quay.io/op:v1'' \<noteq> '''' \<or> '''' \<noteq> ''''" by simp
  from hub_configures_spoke [OF mem_kube_api, OF live(1), OF live(2), OF run1, OF run2, OF op, of False]
  show ?thesis by blast
qed

end
